(* ===== verification/Prelude.thy ===== *)
theory Prelude
  imports Main "HOL-Library.Word" "HOL-Library.Monad_Syntax"
begin

unbundle bit_operations_syntax

text \<open>
  Shared vocabulary of the development: the machine types of the C code, byte buffers with the
  C rules for reading, writing and copying them, the big-endian encoding of 32-bit words, the
  linear scan that the daemon's table look-ups are written with, and the rules by which
  properties of a whole handler are assembled from properties of its statements.

  A C statement or function is a function into \<open>_ option\<close>: \<open>Some\<close> of the new state, or
  \<open>None\<close> where the C standard gives the execution no meaning (an array access out of range,
  \<open>memcpy\<close> on overlapping or out-of-range regions, a division by zero).
\<close>

section \<open>Types\<close>

type_synonym u8 = "8 word"
type_synonym u16 = "16 word"
type_synonym u32 = "32 word"
type_synonym u64 = "64 word"

text \<open>The contents of a byte array; its length is a constant of the code.\<close>

type_synonym mem = "nat \<Rightarrow> u8"

named_theorems defined_intros \<open>rules that show that a statement does not fault\<close>
named_theorems frame_simps \<open>what an operation leaves alone\<close>

lemma u8_less [simp]: "uint (x :: u8) < 256"
  using uint_lt2p [of x] by simp

lemma u8_le [simp]: "uint (x :: u8) \<le> 255"
  using u8_less [of x] by linarith

lemma u8_not_minus1 [simp]: "uint (x :: u8) \<noteq> - 1"
  using uint_ge_0 [of x] by linarith

lemma u16_less [simp]: "uint (x :: u16) < 65536"
  using uint_lt2p [of x] by simp

text \<open>C's division of \<open>int\<close>s truncates towards zero.\<close>

definition c_div :: "int \<Rightarrow> int \<Rightarrow> int" where
  "c_div a b = sgn a * sgn b * (\<bar>a\<bar> div \<bar>b\<bar>)"

lemma c_div_pos: "0 \<le> a \<Longrightarrow> 0 < b \<Longrightarrow> c_div a b = a div b"
  by (cases "a = 0") (auto simp: c_div_def)

section \<open>Byte buffers\<close>

definition put_bytes :: "nat \<Rightarrow> u8 list \<Rightarrow> mem \<Rightarrow> mem" where
  "put_bytes off bs m = (\<lambda>k. if off \<le> k \<and> k < off + length bs then bs ! (k - off) else m k)"

definition get_bytes :: "nat \<Rightarrow> nat \<Rightarrow> mem \<Rightarrow> u8 list" where
  "get_bytes off n m = map (\<lambda>k. m (off + k)) [0..<n]"

lemma length_get_bytes [simp]: "length (get_bytes off n m) = n"
  by (simp add: get_bytes_def)

lemma nth_get_bytes [simp]: "k < n \<Longrightarrow> get_bytes off n m ! k = m (off + k)"
  by (simp add: get_bytes_def)

lemma get_bytes_0 [simp]: "get_bytes off 0 m = []"
  by (simp add: get_bytes_def)

lemma put_bytes_Nil [simp]: "put_bytes off [] m = m"
  by (auto simp: put_bytes_def fun_eq_iff)

lemma put_bytes_in: "off \<le> k \<Longrightarrow> k < off + length bs \<Longrightarrow> put_bytes off bs m k = bs ! (k - off)"
  by (simp add: put_bytes_def)

lemma put_bytes_out: "k < off \<or> off + length bs \<le> k \<Longrightarrow> put_bytes off bs m k = m k"
  by (auto simp: put_bytes_def)

lemma get_put_bytes: "get_bytes off (length bs) (put_bytes off bs m) = bs"
  by (rule nth_equalityI) (simp_all add: put_bytes_def)

lemma get_put_bytes_len: "length bs = n \<Longrightarrow> get_bytes off n (put_bytes off bs m) = bs"
  using get_put_bytes by blast

lemma get_put_bytes_disjoint:
  "off + n \<le> off' \<or> off' + length bs \<le> off \<Longrightarrow>
   get_bytes off n (put_bytes off' bs m) = get_bytes off n m"
  by (rule nth_equalityI) (auto simp: put_bytes_def)

lemma get_bytes_append: "get_bytes off (a + b) m = get_bytes off a m @ get_bytes (off + a) b m"
  by (rule nth_equalityI) (auto simp: nth_append)

lemma take_drop_get_bytes:
  "b + k \<le> n \<Longrightarrow> take k (drop b (get_bytes off n m)) = get_bytes (off + b) k m"
  by (rule nth_equalityI) (simp_all add: add.assoc)

text \<open>
  \<open>memcpy\<close> from one array to another. \<open>cap\<close> and \<open>cap'\<close> are the lengths of the target and
  of the source. A size computed as a negative \<open>int\<close> converts to a \<open>size_t\<close> larger than any
  object, so it is out of range as well.
\<close>

definition memcpy :: "nat \<Rightarrow> nat \<Rightarrow> nat \<Rightarrow> nat \<Rightarrow> int \<Rightarrow> mem \<Rightarrow> mem \<Rightarrow> mem option" where
  "memcpy cap cap' dst src n m m' =
     (if 0 \<le> n \<and> dst + nat n \<le> cap \<and> src + nat n \<le> cap'
      then Some (put_bytes dst (get_bytes src (nat n) m') m) else None)"

text \<open>\<open>memcpy\<close> inside one array: the two regions must not overlap.\<close>

definition memcpy_within :: "nat \<Rightarrow> nat \<Rightarrow> nat \<Rightarrow> int \<Rightarrow> mem \<Rightarrow> mem option" where
  "memcpy_within cap dst src n m =
     (if dst < src + nat n \<and> src < dst + nat n then None else memcpy cap cap dst src n m m)"

lemma memcpy_eq_Some:
  "memcpy cap cap' dst src n m m' = Some r \<longleftrightarrow>
   0 \<le> n \<and> dst + nat n \<le> cap \<and> src + nat n \<le> cap' \<and>
   r = put_bytes dst (get_bytes src (nat n) m') m"
  by (auto simp: memcpy_def)

section \<open>32-bit words as four bytes, most significant first\<close>

text \<open>The byte \<open>(uint8_t) (x >> 8 * k)\<close>.\<close>

definition byte_of :: "nat \<Rightarrow> u32 \<Rightarrow> u8" where
  "byte_of k x = ucast (drop_bit (8 * k) x)"

definition bytes_of :: "u32 \<Rightarrow> u8 list" where
  "bytes_of x = [byte_of 3 x, byte_of 2 x, byte_of 1 x, byte_of 0 x]"

text \<open>\<open>d0 << 24 | d1 << 16 | d2 << 8 | d3\<close>, as the code assembles it.\<close>

definition word_of_bytes :: "u8 \<Rightarrow> u8 \<Rightarrow> u8 \<Rightarrow> u8 \<Rightarrow> u32" where
  "word_of_bytes d0 d1 d2 d3 =
     push_bit 24 (ucast d0) OR push_bit 16 (ucast d1) OR push_bit 8 (ucast d2) OR ucast d3"

lemma length_bytes_of [simp]: "length (bytes_of x) = 4"
  by (simp add: bytes_of_def)

lemma word_of_bytes_of:
  "word_of_bytes (byte_of 3 x) (byte_of 2 x) (byte_of 1 x) (byte_of 0 x) = x"
proof (rule bit_word_eqI)
  fix n
  assume "n < LENGTH(32)"
  then have n: "n < 32" by simp
  consider "n < 8" | "8 \<le> n" "n < 16" | "16 \<le> n" "n < 24" | "24 \<le> n" by linarith
  then show "bit (word_of_bytes (byte_of 3 x) (byte_of 2 x) (byte_of 1 x) (byte_of 0 x)) n = bit x n"
    using n by cases (auto simp: word_of_bytes_def byte_of_def bit_simps)
qed

lemmas word_of_bytes_of' [simp] = word_of_bytes_of word_of_bytes_of [unfolded One_nat_def]

lemma byte_of_word_of_bytes:
  "byte_of 3 (word_of_bytes a b c d) = a" "byte_of 2 (word_of_bytes a b c d) = b"
  "byte_of 1 (word_of_bytes a b c d) = c" "byte_of 0 (word_of_bytes a b c d) = d"
  unfolding word_of_bytes_def byte_of_def
  by (rule bit_word_eqI, auto simp: bit_simps dest: bit_imp_le_length)+

text \<open>The same value, shifted in one byte after the other.\<close>

definition sock :: "(nat \<Rightarrow> u8) \<Rightarrow> u32" where
  "sock d =
     (let x = ucast (d 0);
          x = push_bit 8 x OR ucast (d 1);
          x = push_bit 8 x OR ucast (d 2);
          x = push_bit 8 x OR ucast (d 3) in x)"

lemma sock_eq: "sock d = word_of_bytes (d 0) (d 1) (d 2) (d 3)"
proof (rule bit_word_eqI)
  fix n
  assume "n < LENGTH(32)"
  then have n: "n < 32" by simp
  consider "n < 8" | "8 \<le> n" "n < 16" | "16 \<le> n" "n < 24" | "24 \<le> n" by linarith
  then show "bit (sock d) n = bit (word_of_bytes (d 0) (d 1) (d 2) (d 3)) n"
    using n by cases (auto simp: sock_def word_of_bytes_def bit_simps dest: bit_imp_le_length)
qed

lemma sock_bytes_of: "(\<And>k. k < 4 \<Longrightarrow> d k = bytes_of x ! k) \<Longrightarrow> sock d = x"
  by (simp add: sock_eq bytes_of_def)

lemma word_of_bytes_zero_high: "word_of_bytes 0 0 0 d = ucast d"
  by (simp add: word_of_bytes_def)

section \<open>The index loop of the table look-ups\<close>

text \<open>
  \<open>for (i = 0; i < n; i++) if (P (i)) return i; return -1;\<close>
\<close>

definition scan :: "int \<Rightarrow> (int \<Rightarrow> bool) \<Rightarrow> int" where
  "scan n P = (case find P [0..n - 1] of None \<Rightarrow> - 1 | Some i \<Rightarrow> i)"

lemma scan_eq_minus1: "scan n P = - 1 \<longleftrightarrow> (\<forall>i. 0 \<le> i \<and> i < n \<longrightarrow> \<not> P i)"
proof (cases "find P [0..n - 1]")
  case None
  then have "\<forall>i. 0 \<le> i \<and> i < n \<longrightarrow> \<not> P i" by (auto simp: find_None_iff)
  with None show ?thesis by (auto simp: scan_def)
next
  case (Some i)
  then have "0 \<le> i" "i < n" "P i" by (auto simp: find_Some_iff dest!: nth_mem)
  with Some show ?thesis by (auto simp: scan_def)
qed

lemma scan_cases:
  obtains (none) "scan n P = - 1" "\<forall>i. 0 \<le> i \<and> i < n \<longrightarrow> \<not> P i"
  | (some) "0 \<le> scan n P" "scan n P < n" "P (scan n P)"
proof (cases "find P [0..n - 1]")
  case None
  then have "\<forall>i. 0 \<le> i \<and> i < n \<longrightarrow> \<not> P i" by (auto simp: find_None_iff)
  with None show ?thesis using none by (auto simp: scan_def)
next
  case (Some i)
  then have "0 \<le> i" "i < n" "P i" by (auto simp: find_Some_iff dest!: nth_mem)
  with Some show ?thesis using some by (auto simp: scan_def)
qed

lemma scan_hit: "scan n P \<noteq> - 1 \<Longrightarrow> 0 \<le> scan n P \<and> scan n P < n \<and> P (scan n P)"
  by (rule scan_cases [of n P]) auto

lemma scan_least:
  assumes "0 \<le> j" and "j < scan n P"
  shows "\<not> P j"
proof (cases "find P [0..n - 1]")
  case None
  with assms show ?thesis by (simp add: scan_def)
next
  case (Some i)
  then obtain k where k: "k < length [0..n - 1]" "[0..n - 1] ! k = i" "\<forall>l<k. \<not> P ([0..n - 1] ! l)"
    by (auto simp: find_Some_iff)
  then have "i = int k" by simp
  with assms Some have "nat j < k" by (simp add: scan_def)
  with k(3) have "\<not> P ([0..n - 1] ! nat j)" by blast
  moreover have "[0..n - 1] ! nat j = j" using k(1) \<open>nat j < k\<close> assms(1) by simp
  ultimately show ?thesis by simp
qed

lemma scan_eqI:
  assumes "0 \<le> i" and "i < n" and "P i" and "\<And>j. 0 \<le> j \<Longrightarrow> j < i \<Longrightarrow> \<not> P j"
  shows "scan n P = i"
proof (rule scan_cases [of n P])
  assume "\<forall>i. 0 \<le> i \<and> i < n \<longrightarrow> \<not> P i"
  with assms show ?thesis by blast
next
  assume s: "0 \<le> scan n P" "scan n P < n" "P (scan n P)"
  have "\<not> scan n P < i" using s assms(4) by blast
  moreover have "\<not> i < scan n P" using scan_least [of i n P] assms(1,3) by blast
  ultimately show ?thesis by simp
qed

section \<open>Properties of handlers from properties of statements\<close>

text \<open>
  \<open>within R s r\<close>: whenever the statement result \<open>r\<close>, run from \<open>s\<close>, is defined, \<open>R\<close> relates
  \<open>s\<close> to the state it ends in. For a transitive \<open>R\<close> the rules below follow the syntax of a
  handler. \<open>within2\<close> is the same for functions that also return a value.
\<close>

definition within :: "('s \<Rightarrow> 's \<Rightarrow> bool) \<Rightarrow> 's \<Rightarrow> 's option \<Rightarrow> bool" where
  "within R s r \<longleftrightarrow> (\<forall>s'. r = Some s' \<longrightarrow> R s s')"

definition within2 :: "('s \<Rightarrow> 's \<Rightarrow> bool) \<Rightarrow> 's \<Rightarrow> ('a \<times> 's) option \<Rightarrow> bool" where
  "within2 R s r \<longleftrightarrow> (\<forall>v s'. r = Some (v, s') \<longrightarrow> R s s')"

lemma withinD: "within R s r \<Longrightarrow> r = Some s' \<Longrightarrow> R s s'"
  by (simp add: within_def)

lemma within2D: "within2 R s r \<Longrightarrow> r = Some (v, s') \<Longrightarrow> R s s'"
  by (simp add: within2_def)

lemma within_None [simp]: "within R s None"
  by (simp add: within_def)

lemma within2_None [simp]: "within2 R s None"
  by (simp add: within2_def)

lemma within_Some [simp]: "within R s (Some s') \<longleftrightarrow> R s s'"
  by (simp add: within_def)

lemma within2_Some [simp]: "within2 R s (Some (v, s')) \<longleftrightarrow> R s s'"
  by (simp add: within2_def)

lemma within_if: "(b \<Longrightarrow> within R s x) \<Longrightarrow> (\<not> b \<Longrightarrow> within R s y) \<Longrightarrow> within R s (if b then x else y)"
  by simp

lemma within2_if: "(b \<Longrightarrow> within2 R s x) \<Longrightarrow> (\<not> b \<Longrightarrow> within2 R s y) \<Longrightarrow> within2 R s (if b then x else y)"
  by simp

text \<open>
  A statement that cannot fault: \<open>bind\<close> and \<open>if\<close> keep it. Together with a \<open>within\<close> fact it
  gives total correctness.
\<close>

lemma bind_defined [defined_intros]:
  "r \<noteq> None \<Longrightarrow> (\<And>s. r = Some s \<Longrightarrow> f s \<noteq> None) \<Longrightarrow> Option.bind r f \<noteq> None"
  by (cases r) auto

lemma if_defined [defined_intros]:
  "(b \<Longrightarrow> x \<noteq> None) \<Longrightarrow> (\<not> b \<Longrightarrow> y \<noteq> None) \<Longrightarrow> (if b then x else y) \<noteq> None"
  by simp

lemma Some_defined [defined_intros]: "Some x \<noteq> None"
  by simp

text \<open>A loop over a list of indices, and what one round gives for the whole of it.\<close>

fun for_each :: "'a list \<Rightarrow> ('a \<Rightarrow> 's \<Rightarrow> 's option) \<Rightarrow> 's \<Rightarrow> 's option" where
  "for_each [] f s = Some s"
| "for_each (x # xs) f s = Option.bind (f x s) (for_each xs f)"

lemma for_each_inv:
  assumes step: "\<And>x s t. x \<in> set xs \<Longrightarrow> f x s = Some t \<Longrightarrow> P s \<Longrightarrow> P t"
    and run: "for_each xs f s = Some t" and start: "P s"
  shows "P t"
  using assms
proof (induction xs arbitrary: s)
  case Nil
  then show ?case by simp
next
  case (Cons x xs)
  then obtain u where "f x s = Some u" "for_each xs f u = Some t"
    by (auto simp: bind_eq_Some_conv)
  moreover have "P u" using Cons.prems(1) [OF _ \<open>f x s = Some u\<close>] Cons.prems(3) by simp
  ultimately show ?case using Cons.IH Cons.prems(1) by (meson list.set_intros(2))
qed

lemma for_each_defined:
  assumes step: "\<And>x s. x \<in> set xs \<Longrightarrow> P s \<Longrightarrow> \<exists>t. f x s = Some t \<and> P t"
    and start: "P s"
  shows "\<exists>t. for_each xs f s = Some t \<and> P t"
  using assms
proof (induction xs arbitrary: s)
  case Nil
  then show ?case by simp
next
  case (Cons x xs)
  then obtain u where "f x s = Some u" "P u" by fastforce
  then show ?case using Cons.IH [of u] Cons.prems(1) by simp
qed

lemma for_each_append: "for_each (xs @ ys) f s = Option.bind (for_each xs f s) (for_each ys f)"
  by (induction xs arbitrary: s) (auto intro: Option.bind_cong)

end
