(* ===== verification/Imp.thy ===== *)
theory Imp
  imports Prelude
begin

text \<open>
  The host side of the IMP interface (\<open>src/imp.c\<close>): messages of 16-bit words travel in UDP
  datagrams that start with the magic \<open>H316\<close>, a 32-bit sequence number, the number of words
  plus one and a flag word. The state is the file's static variables, with the receive buffer
  \<open>message\<close>, whose old contents stay where a shorter datagram does not overwrite them. The
  socket itself is a list: of the datagrams sent, and of the results of the coming \<open>read\<close>s.
\<close>

section \<open>State\<close>

abbreviation (input) FLAG_LAST :: u16 where "FLAG_LAST \<equiv> 1"
abbreviation (input) FLAG_READY :: u16 where "FLAG_READY \<equiv> 2"

record imp_state =
  imp_ready :: u16
  imp_flags :: u16
  rx_sequence :: u32
  tx_sequence :: u32
  message :: mem

text \<open>Lengths of \<open>message\<close> and of the daemon's \<open>packet\<close> and \<open>app\<close> arrays.\<close>

abbreviation (input) MESSAGE_CAP :: nat where "MESSAGE_CAP \<equiv> 200"

definition imp_init :: imp_state where
  "imp_init = \<lparr>imp_ready = 0, imp_flags = 0, rx_sequence = 0, tx_sequence = 0,
     message = (\<lambda>_. 0)\<rparr>"

section \<open>Sending\<close>

text \<open>The twelve bytes written in front of a message of \<open>len\<close> words.\<close>

definition imp_header :: "imp_state \<Rightarrow> nat \<Rightarrow> u8 list" where
  "imp_header s len =
     [0x48, 0x33, 0x31, 0x36] @ bytes_of (tx_sequence s) @
     [word_of_nat ((len + 1) div 256), word_of_nat (len + 1),
      ucast (drop_bit 8 (imp_flags s)), ucast (imp_flags s OR FLAG_LAST)]"

text \<open>
  The result is the datagram, the caller's array (of length \<open>cap\<close>) with the header written into
  it, and the new state. A failed \<open>sendto\<close> is only reported.
\<close>

definition imp_send_message ::
    "nat \<Rightarrow> mem \<Rightarrow> nat \<Rightarrow> imp_state \<Rightarrow> (u8 list \<times> mem \<times> imp_state) option" where
  "imp_send_message cap data len s =
     (let data = put_bytes 0 (imp_header s len) data; n = 2 * (len + 1) + 10
      in if n \<le> cap
         then Some (get_bytes 0 n data, data, s\<lparr>tx_sequence := tx_sequence s + 1\<rparr>)
         else None)"

text \<open>\<open>imp_host_ready\<close>: the datagrams sent (none or one) and the new state.\<close>

definition imp_host_ready :: "bool \<Rightarrow> imp_state \<Rightarrow> (u8 list list \<times> imp_state) option" where
  "imp_host_ready flag s =
     (if flag \<and> imp_flags s AND FLAG_READY = 0 then
        do { (d, _, s) \<leftarrow> imp_send_message 12 (\<lambda>_. 0) 0 (s\<lparr>imp_flags := imp_flags s OR FLAG_READY\<rparr>);
             Some ([d], s) }
      else if \<not> flag \<and> imp_flags s AND FLAG_READY \<noteq> 0 then
        do { (d, _, s) \<leftarrow> imp_send_message 12 (\<lambda>_. 0) 0 (s\<lparr>imp_flags := imp_flags s AND NOT FLAG_READY\<rparr>);
             Some ([d], s) }
      else Some ([], s))"

section \<open>Receiving\<close>

text \<open>What one \<open>read\<close> gives: an error, or a datagram (empty when \<open>n == 0\<close>).\<close>

datatype rx_read = Rx_error | Rx_datagram "u8 list"

text \<open>
  \<open>imp_receive_message\<close> returns the caller's array, \<open>*length\<close>, the new state and the
  arguments of the calls of \<open>imp_imp_ready\<close>; or it is still blocked in \<open>read\<close> after the
  datagrams at hand.
\<close>

datatype rx_result = Rx_blocked | Rx_return mem int imp_state "u16 list"

definition magic :: "mem \<Rightarrow> bool" where
  "magic m \<longleftrightarrow> m 0 = 0x48 \<and> m 1 = 0x33 \<and> m 2 = 0x31 \<and> m 3 = 0x36"

text \<open>
  \<open>off\<close> is how far \<open>data\<close> has advanced; the \<open>goto loop\<close> for a message in several datagrams
  is the recursive call.
\<close>

fun imp_receive_loop ::
    "nat \<Rightarrow> nat \<Rightarrow> int \<Rightarrow> mem \<Rightarrow> u16 list \<Rightarrow> imp_state \<Rightarrow> rx_read list \<Rightarrow> rx_result option" where
  "imp_receive_loop cap off len data calls s [] = Some Rx_blocked"
| "imp_receive_loop cap off len data calls s (Rx_error # rs) = Some (Rx_return data len s calls)"
| "imp_receive_loop cap off len data calls s (Rx_datagram d # rs) =
     (let d = take MESSAGE_CAP d; n = length d in
      if n = 0 then Some (Rx_return data len s calls)
      else
       let m = put_bytes 0 d (message s); s = s\<lparr>message := m\<rparr> in
       if \<not> magic m then Some (Rx_return data len s calls)
       else
        let x = word_of_bytes (m 4) (m 5) (m 6) (m 7) in
        if \<not> (x = 0 \<and> rx_sequence s \<noteq> 0) \<and> x < rx_sequence s
        then Some (Rx_return data 0 s calls)
        else
         let s = s\<lparr>rx_sequence := x + 1\<rparr>;
             len = len + (256 * uint (m 8) + uint (m 9) - 1) in
         if len = 0 then Some (Rx_return data len s calls)
         else
          let flags = push_bit 8 (ucast (m 10)) OR ucast (m 11) :: u16;
              changed = (flags AND FLAG_READY) XOR imp_ready s \<noteq> 0;
              calls = (if changed then calls @ [flags AND FLAG_READY] else calls);
              s = (if changed then s\<lparr>imp_ready := flags AND FLAG_READY\<rparr> else s) in
          do { data \<leftarrow> memcpy cap MESSAGE_CAP off 12 (int n - 12) data m;
               if flags AND FLAG_LAST = 0
               then imp_receive_loop cap (off + (n - 12)) len data calls s rs
               else Some (Rx_return data len s calls) })"

definition imp_receive_message ::
    "nat \<Rightarrow> mem \<Rightarrow> imp_state \<Rightarrow> rx_read list \<Rightarrow> rx_result option" where
  "imp_receive_message cap data s rs = imp_receive_loop cap 0 0 data [] s rs"

end
