(* ===== verification/Ncp_State.thy ===== *)
theory Ncp_State
  imports Prelude Imp
begin

text \<open>
  The state of the daemon (\<open>src/ncp.c\<close>): the connection, listening and host tables, the
  static buffers, and the operations that only read or write the tables: the time-outs and
  call-backs a connection waits for, the look-ups, freeing and allocating a connection.

  A C array is a function from its index; every access goes through \<open>get\<close> or \<open>upd\<close>, which
  fault on an index outside the array. Indices are C \<open>int\<close>s, since the code uses \<open>-1\<close> for
  "none" and does not always test for it. The \<open>int\<close> fields are kept as integers; the
  well-formedness invariant below bounds them. \<open>unsigned\<close> and \<open>uintN_t\<close> fields are words.
\<close>

section \<open>Constants\<close>

abbreviation (input) RFNM_TIMEOUT :: u64 where "RFNM_TIMEOUT \<equiv> 10"
abbreviation (input) RRP_TIMEOUT :: u64 where "RRP_TIMEOUT \<equiv> 20"
abbreviation (input) ERP_TIMEOUT :: u64 where "ERP_TIMEOUT \<equiv> 20"
abbreviation (input) ALL_TIMEOUT :: u64 where "ALL_TIMEOUT \<equiv> 60"
abbreviation (input) RFC_TIMEOUT :: u64 where "RFC_TIMEOUT \<equiv> 3"
abbreviation (input) CLS_TIMEOUT :: u64 where "CLS_TIMEOUT \<equiv> 3"

abbreviation (input) IMP_REGULAR :: int where "IMP_REGULAR \<equiv> 0"
abbreviation (input) IMP_LEADER_ERROR :: int where "IMP_LEADER_ERROR \<equiv> 1"
abbreviation (input) IMP_NOP :: int where "IMP_NOP \<equiv> 4"
abbreviation (input) IMP_RESET :: int where "IMP_RESET \<equiv> 10"

abbreviation (input) LINK_MIN :: u8 where "LINK_MIN \<equiv> 2"
abbreviation (input) LINK_MAX :: u8 where "LINK_MAX \<equiv> 71"

abbreviation (input) NCP_NOP :: u8 where "NCP_NOP \<equiv> 0"
abbreviation (input) NCP_RTS :: u8 where "NCP_RTS \<equiv> 1"
abbreviation (input) NCP_STR :: u8 where "NCP_STR \<equiv> 2"
abbreviation (input) NCP_CLS :: u8 where "NCP_CLS \<equiv> 3"
abbreviation (input) NCP_ALL :: u8 where "NCP_ALL \<equiv> 4"
abbreviation (input) NCP_GVB :: u8 where "NCP_GVB \<equiv> 5"
abbreviation (input) NCP_RET :: u8 where "NCP_RET \<equiv> 6"
abbreviation (input) NCP_INR :: u8 where "NCP_INR \<equiv> 7"
abbreviation (input) NCP_INS :: u8 where "NCP_INS \<equiv> 8"
abbreviation (input) NCP_ECO :: u8 where "NCP_ECO \<equiv> 9"
abbreviation (input) NCP_ERP :: u8 where "NCP_ERP \<equiv> 10"
abbreviation (input) NCP_ERR :: u8 where "NCP_ERR \<equiv> 11"
abbreviation (input) NCP_RST :: u8 where "NCP_RST \<equiv> 12"
abbreviation (input) NCP_RRP :: u8 where "NCP_RRP \<equiv> 13"
abbreviation (input) NCP_MAX :: u8 where "NCP_MAX \<equiv> NCP_RRP"

abbreviation (input) ERR_OPCODE :: u8 where "ERR_OPCODE \<equiv> 1"
abbreviation (input) ERR_SHORT :: u8 where "ERR_SHORT \<equiv> 2"
abbreviation (input) ERR_PARAM :: u8 where "ERR_PARAM \<equiv> 3"
abbreviation (input) ERR_SOCKET :: u8 where "ERR_SOCKET \<equiv> 4"
abbreviation (input) ERR_CONNECT :: u8 where "ERR_CONNECT \<equiv> 5"

text \<open>The flag bits (octal in the code).\<close>

abbreviation (input) CONN_CLIENT :: u32 where "CONN_CLIENT \<equiv> 1"
abbreviation (input) CONN_SERVER :: u32 where "CONN_SERVER \<equiv> 2"
abbreviation (input) CONN_SENT_RTS :: u32 where "CONN_SENT_RTS \<equiv> 8"
abbreviation (input) CONN_SENT_STR :: u32 where "CONN_SENT_STR \<equiv> 16"
abbreviation (input) CONN_GOT_RTS :: u32 where "CONN_GOT_RTS \<equiv> 64"
abbreviation (input) CONN_GOT_STR :: u32 where "CONN_GOT_STR \<equiv> 128"
abbreviation (input) CONN_GOT_SOCKET :: u32 where "CONN_GOT_SOCKET \<equiv> 256"
abbreviation (input) CONN_LISTEN :: u32 where "CONN_LISTEN \<equiv> 512"
abbreviation (input) CONN_OPEN :: u32 where "CONN_OPEN \<equiv> 1024"
abbreviation (input) CONN_READ :: u32 where "CONN_READ \<equiv> 2048"
abbreviation (input) CONN_WRITE :: u32 where "CONN_WRITE \<equiv> 4096"
abbreviation (input) CONN_CLOSE :: u32 where "CONN_CLOSE \<equiv> 8192"
abbreviation (input) CONN_GOT_BOTH :: u32 where
  "CONN_GOT_BOTH \<equiv> CONN_LISTEN OR CONN_GOT_RTS OR CONN_GOT_STR"
abbreviation (input) CONN_GOT_ALL :: u32 where
  "CONN_GOT_ALL \<equiv> CONN_OPEN OR CONN_GOT_RTS OR CONN_GOT_STR OR CONN_GOT_SOCKET"
abbreviation (input) CONN_APPS :: u32 where
  "CONN_APPS \<equiv> CONN_LISTEN OR CONN_OPEN OR CONN_READ OR CONN_WRITE OR CONN_CLOSE"

abbreviation (input) HOST_ALIVE :: u32 where "HOST_ALIVE \<equiv> 1"

abbreviation (input) CONNECTIONS :: int where "CONNECTIONS \<equiv> 20"
abbreviation (input) BUFFER_CAP :: nat where "BUFFER_CAP \<equiv> 1024"
abbreviation (input) PACKET_CAP :: nat where "PACKET_CAP \<equiv> 200"
abbreviation (input) APP_CAP :: nat where "APP_CAP \<equiv> 200"
abbreviation (input) REPLY_CAP :: nat where "REPLY_CAP \<equiv> 1000"

section \<open>State\<close>

text \<open>A socket address of an application, with its length.\<close>

record client_t =
  sun_path :: string
  addr_len :: nat

text \<open>The functions that are stored in a connection and called later.\<close>

datatype handler =
    Send_socket | Send_socket_timeout | Cls_timeout | Rfc_timeout | Just_drop | Rfnm_timeout
  | Send_rts | Send_str | Send_str_and_rts | Send_cls_snd | Send_cls_rcv
  | App_open_rfc_failed | App_open_rts | App_open_fail
  | Send_data_timeout | Send_data_now | Send_data

text \<open>One direction of a connection: the anonymous struct of \<open>rcv\<close> and \<open>snd\<close>.\<close>

record half =
  link :: int
  bsize :: int
  lsock :: u32
  rsock :: u32

record conn =
  client :: client_t
  reader :: client_t
  writer :: client_t
  host :: int
  flags :: u32
  listen :: u32
  data_size :: int
  all_msgs :: int
  all_bits :: int
  rcv :: half
  snd :: half
  rrp_callback :: "handler option"
  rrp_timeout :: "handler option"
  rrp_time :: u64
  rfnm_callback :: "handler option"
  rfnm_timeout :: "handler option"
  rfnm_time :: u64
  all_callback :: "handler option"
  all_timeout :: "handler option"
  all_time :: u64
  rfc_timeout :: "handler option"
  rfc_time :: u64
  cls_timeout :: "handler option"
  cls_time :: u64
  buffer :: mem
  ptr :: int
  wlength :: int
  remaining :: int

record listen_t =
  l_sock :: u32
  l_size :: u8

record host_t =
  ho_flags :: u32
  echo :: client_t
  erp_time :: u64
  outstanding_rfnm :: int

text \<open>What the daemon sends: datagrams to the IMP, and replies to application sockets.\<close>

datatype effect = To_imp "u8 list" | To_app client_t "u8 list"

record ncp =
  cur_client :: client_t
  time_tick :: u64
  connection :: "int \<Rightarrow> conn"
  listening :: "int \<Rightarrow> listen_t"
  hosts :: "u8 \<Rightarrow> host_t"
  packet :: mem
  app :: mem
  imp :: imp_state
  imp_up :: u16
  out :: "effect list"

section \<open>Access to the tables\<close>

definition get :: "int \<Rightarrow> ncp \<Rightarrow> conn option" where
  "get i s = (if 0 \<le> i \<and> i < CONNECTIONS then Some (connection s i) else None)"

definition upd :: "int \<Rightarrow> (conn \<Rightarrow> conn) \<Rightarrow> ncp \<Rightarrow> ncp option" where
  "upd i f s =
     (if 0 \<le> i \<and> i < CONNECTIONS
      then Some (s\<lparr>connection := (connection s)(i := f (connection s i))\<rparr>) else None)"

definition upd_host :: "u8 \<Rightarrow> (host_t \<Rightarrow> host_t) \<Rightarrow> ncp \<Rightarrow> ncp" where
  "upd_host h f s = s\<lparr>hosts := (hosts s)(h := f (hosts s h))\<rparr>"

definition has :: "u32 \<Rightarrow> conn \<Rightarrow> bool" where
  "has m c \<longleftrightarrow> flags c AND m \<noteq> 0"

definition set_flags :: "u32 \<Rightarrow> conn \<Rightarrow> conn" where
  "set_flags m c = c\<lparr>flags := flags c OR m\<rparr>"

definition clear_flags :: "u32 \<Rightarrow> conn \<Rightarrow> conn" where
  "clear_flags m c = c\<lparr>flags := flags c AND NOT m\<rparr>"

text \<open>Assignments to the fields of \<open>rcv\<close> and \<open>snd\<close>.\<close>

definition set_rcv_size :: "int \<Rightarrow> conn \<Rightarrow> conn" where
  "set_rcv_size v c = c\<lparr>rcv := (rcv c)\<lparr>bsize := v\<rparr>\<rparr>"

definition set_snd_size :: "int \<Rightarrow> conn \<Rightarrow> conn" where
  "set_snd_size v c = c\<lparr>snd := (snd c)\<lparr>bsize := v\<rparr>\<rparr>"

definition set_rcv_link :: "int \<Rightarrow> conn \<Rightarrow> conn" where
  "set_rcv_link v c = c\<lparr>rcv := (rcv c)\<lparr>link := v\<rparr>\<rparr>"

definition set_snd_link :: "int \<Rightarrow> conn \<Rightarrow> conn" where
  "set_snd_link v c = c\<lparr>snd := (snd c)\<lparr>link := v\<rparr>\<rparr>"

text \<open>The macros: a size of -1 notes that a CLS was received, a link of -1 that one was sent.\<close>

definition got_rcv_cls :: "conn \<Rightarrow> bool" where "got_rcv_cls c \<longleftrightarrow> bsize (rcv c) = - 1"
definition got_snd_cls :: "conn \<Rightarrow> bool" where "got_snd_cls c \<longleftrightarrow> bsize (snd c) = - 1"
definition sent_rcv_cls :: "conn \<Rightarrow> bool" where "sent_rcv_cls c \<longleftrightarrow> link (rcv c) = - 1"
definition sent_snd_cls :: "conn \<Rightarrow> bool" where "sent_snd_cls c \<longleftrightarrow> link (snd c) = - 1"

lemmas setter_defs = set_flags_def clear_flags_def set_rcv_size_def set_snd_size_def
  set_rcv_link_def set_snd_link_def

section \<open>Waiting for something\<close>

definition when_rrp :: "int \<Rightarrow> handler \<Rightarrow> handler \<Rightarrow> ncp \<Rightarrow> ncp option" where
  "when_rrp i cb to s = upd i (\<lambda>c. c\<lparr>rrp_callback := Some cb, rrp_timeout := Some to,
     rrp_time := time_tick s + RRP_TIMEOUT\<rparr>) s"

definition when_rfnm :: "int \<Rightarrow> handler \<Rightarrow> handler \<Rightarrow> ncp \<Rightarrow> ncp option" where
  "when_rfnm i cb to s = upd i (\<lambda>c. c\<lparr>rfnm_callback := Some cb, rfnm_timeout := Some to,
     rfnm_time := time_tick s + RFNM_TIMEOUT\<rparr>) s"

definition unless_rfc :: "int \<Rightarrow> handler \<Rightarrow> ncp \<Rightarrow> ncp option" where
  "unless_rfc i to s = upd i (\<lambda>c. c\<lparr>rfc_timeout := Some to,
     rfc_time := time_tick s + RFC_TIMEOUT\<rparr>) s"

definition unless_cls :: "int \<Rightarrow> handler \<Rightarrow> ncp \<Rightarrow> ncp option" where
  "unless_cls i to s = upd i (\<lambda>c. c\<lparr>cls_timeout := Some to,
     cls_time := time_tick s + CLS_TIMEOUT\<rparr>) s"

section \<open>Look-ups\<close>

definition find_link :: "int \<Rightarrow> int \<Rightarrow> ncp \<Rightarrow> int" where
  "find_link h l s = scan CONNECTIONS (\<lambda>i. let c = connection s i in
     host c = h \<and> link (rcv c) = l \<or> host c = h \<and> link (snd c) = l)"

definition find_sockets :: "int \<Rightarrow> u32 \<Rightarrow> u32 \<Rightarrow> ncp \<Rightarrow> int" where
  "find_sockets h ls rs s = scan CONNECTIONS (\<lambda>i. let c = connection s i in
     host c = h \<and> lsock (rcv c) = ls \<and> rsock (rcv c) = rs \<or>
     host c = h \<and> lsock (snd c) = ls \<and> rsock (snd c) = rs)"

definition find_rcv_sockets :: "int \<Rightarrow> u32 \<Rightarrow> u32 \<Rightarrow> ncp \<Rightarrow> int" where
  "find_rcv_sockets h ls rs s = scan CONNECTIONS (\<lambda>i. let c = connection s i in
     host c = h \<and> lsock (rcv c) = ls \<and> rsock (rcv c) = rs)"

definition find_snd_sockets :: "int \<Rightarrow> u32 \<Rightarrow> u32 \<Rightarrow> ncp \<Rightarrow> int" where
  "find_snd_sockets h ls rs s = scan CONNECTIONS (\<lambda>i. let c = connection s i in
     host c = h \<and> lsock (snd c) = ls \<and> rsock (snd c) = rs)"

definition find_listen :: "u32 \<Rightarrow> ncp \<Rightarrow> int" where
  "find_listen socket s = scan CONNECTIONS (\<lambda>i. l_sock (listening s i) = socket)"

section \<open>Freeing and allocating a connection\<close>

definition destroy_conn :: "conn \<Rightarrow> conn" where
  "destroy_conn c = c\<lparr>host := - 1,
     rcv := \<lparr>link = - 1, bsize = - 1, lsock = 0, rsock = 0\<rparr>,
     snd := \<lparr>link = - 1, bsize = - 1, lsock = 0, rsock = 0\<rparr>,
     flags := 0, all_msgs := 0, all_bits := 0,
     rrp_callback := None, rrp_timeout := None, rfnm_callback := None, rfnm_timeout := None,
     rfc_timeout := None, cls_timeout := None\<rparr>"

definition destroy :: "int \<Rightarrow> ncp \<Rightarrow> ncp option" where
  "destroy i s = upd i destroy_conn s"

definition open_conn ::
    "int \<Rightarrow> u32 \<Rightarrow> u32 \<Rightarrow> u32 \<Rightarrow> u32 \<Rightarrow> u64 \<Rightarrow> conn \<Rightarrow> conn" where
  "open_conn h rl rr sl sr now c = c\<lparr>host := h,
     rcv := (rcv c)\<lparr>lsock := rl, rsock := rr\<rparr>, snd := (snd c)\<lparr>lsock := sl, rsock := sr\<rparr>,
     flags := 0, rrp_time := now - 1, rfnm_time := now - 1\<rparr>"

text \<open>\<open>make_open\<close> returns the index it took, or -1 when the table is full.\<close>

definition make_open ::
    "int \<Rightarrow> u32 \<Rightarrow> u32 \<Rightarrow> u32 \<Rightarrow> u32 \<Rightarrow> ncp \<Rightarrow> (int \<times> ncp) option" where
  "make_open h rl rr sl sr s =
     (let i = find_link (- 1) (- 1) s in
      if i = - 1 then Some (- 1, s)
      else do { s \<leftarrow> upd i (open_conn h rl rr sl sr (time_tick s)) s; Some (i, s) })"

end
