(* ===== verification/Ncp_Send.thy ===== *)
theory Ncp_Send
  imports Ncp_State
begin

text \<open>
  Sending to the IMP (\<open>src/ncp.c\<close>): \<open>send_imp\<close> puts the 1822 leader in front of a message in
  the static \<open>packet\<close> array and hands it to \<open>imp_send_message\<close>; \<open>send_ncp\<close> adds the header of
  a control message; one function per control command writes its parameters. All of them work
  in the same \<open>packet\<close> array that incoming messages are read from.
\<close>

section \<open>Leader and control header\<close>

definition write_packet :: "nat \<Rightarrow> u8 list \<Rightarrow> ncp \<Rightarrow> ncp" where
  "write_packet off bs s = s\<lparr>packet := put_bytes off bs (packet s)\<rparr>"

text \<open>The four leader bytes that \<open>send_imp\<close> stores at \<open>packet + 12\<close>.\<close>

definition leader :: "int \<Rightarrow> int \<Rightarrow> int \<Rightarrow> int \<Rightarrow> int \<Rightarrow> int \<Rightarrow> u8 list" where
  "leader flgs type dest lnk mid subtype =
     [push_bit 4 (word_of_int flgs) OR word_of_int type, word_of_int dest, word_of_int lnk,
      push_bit 4 (word_of_int mid) OR word_of_int subtype]"

text \<open>\<open>hosts[destination].outstanding_rfnm++\<close>, for a regular message only.\<close>

definition count_regular :: "int \<Rightarrow> int \<Rightarrow> ncp \<Rightarrow> ncp option" where
  "count_regular type dest s =
     (if type = IMP_REGULAR then
        (if 0 \<le> dest \<and> dest < 256
         then Some (upd_host (word_of_int dest)
                (\<lambda>h. h\<lparr>outstanding_rfnm := outstanding_rfnm h + 1\<rparr>) s)
         else None)
      else Some s)"

text \<open>
  \<open>data\<close> is \<open>None\<close> for the NULL pointer, else a connection's buffer and an offset into it.
\<close>

definition send_imp ::
    "int \<Rightarrow> int \<Rightarrow> int \<Rightarrow> int \<Rightarrow> int \<Rightarrow> int \<Rightarrow> (mem \<times> nat) option \<Rightarrow> int \<Rightarrow> ncp \<Rightarrow> ncp option" where
  "send_imp flgs type dest lnk mid subtype data words s =
     do { let s = write_packet 12 (leader flgs type dest lnk mid subtype) s;
          p \<leftarrow> (case data of None \<Rightarrow> Some (packet s)
                | Some (m, src) \<Rightarrow> memcpy PACKET_CAP BUFFER_CAP 16 src (2 * (words - 2)) (packet s) m);
          s \<leftarrow> count_regular type dest (s\<lparr>packet := p\<rparr>);
          (d, p, st) \<leftarrow> imp_send_message PACKET_CAP (packet s) (nat words) (imp s);
          Some (s\<lparr>packet := p, imp := st, out := out s @ [To_imp d]\<rparr>) }"

definition send_leader_error :: "int \<Rightarrow> ncp \<Rightarrow> ncp option" where
  "send_leader_error subtype s = send_imp 0 IMP_LEADER_ERROR 0 0 0 subtype None 2 s"

definition send_nop :: "ncp \<Rightarrow> ncp option" where
  "send_nop s = send_imp 0 IMP_NOP 0 0 0 0 None 2 s"

definition send_reset :: "ncp \<Rightarrow> ncp option" where
  "send_reset s = send_imp 0 IMP_RESET 0 0 0 0 None 2 s"

definition send_ncp :: "u8 \<Rightarrow> u8 \<Rightarrow> u16 \<Rightarrow> u8 \<Rightarrow> ncp \<Rightarrow> ncp option" where
  "send_ncp dest byte count type s =
     do { let s = write_packet 16 [0, byte, ucast (drop_bit 8 count), ucast count, 0, type] s;
          send_imp 0 IMP_REGULAR (uint dest) 0 0 0 None ((uint count + 9 + 1) div 2) s }"

section \<open>Control commands\<close>

definition ncp_str :: "u8 \<Rightarrow> u32 \<Rightarrow> u32 \<Rightarrow> u8 \<Rightarrow> ncp \<Rightarrow> ncp option" where
  "ncp_str dest ls rs sz s =
     send_ncp dest 8 10 NCP_STR (write_packet 22 (bytes_of ls @ bytes_of rs @ [sz]) s)"

definition ncp_rts :: "u8 \<Rightarrow> u32 \<Rightarrow> u32 \<Rightarrow> u8 \<Rightarrow> ncp \<Rightarrow> ncp option" where
  "ncp_rts dest ls rs lnk s =
     send_ncp dest 8 10 NCP_RTS (write_packet 22 (bytes_of ls @ bytes_of rs @ [lnk]) s)"

definition ncp_all :: "u8 \<Rightarrow> u8 \<Rightarrow> u16 \<Rightarrow> u32 \<Rightarrow> ncp \<Rightarrow> ncp option" where
  "ncp_all dest lnk msg_space bit_space s =
     send_ncp dest 8 8 NCP_ALL (write_packet 22
       ([lnk, ucast (drop_bit 8 msg_space), ucast msg_space] @ bytes_of bit_space) s)"

text \<open>\<open>msg_space >> 16\<close> in \<open>ncp_ret\<close>: the shift is of the \<open>int\<close> the \<open>uint16_t\<close> is promoted to.\<close>

definition ncp_ret :: "u8 \<Rightarrow> u8 \<Rightarrow> u16 \<Rightarrow> u32 \<Rightarrow> ncp \<Rightarrow> ncp option" where
  "ncp_ret dest lnk msg_space bit_space s =
     send_ncp dest 8 8 NCP_RET (write_packet 22
       ([lnk, ucast (drop_bit 16 (ucast msg_space :: u32)), ucast msg_space] @ bytes_of bit_space) s)"

definition ncp_gvb :: "u8 \<Rightarrow> u8 \<Rightarrow> u8 \<Rightarrow> u8 \<Rightarrow> ncp \<Rightarrow> ncp option" where
  "ncp_gvb dest lnk fm fb s = send_ncp dest 8 4 NCP_GVB (write_packet 22 [lnk, fm, fb] s)"

definition ncp_inr :: "u8 \<Rightarrow> u8 \<Rightarrow> ncp \<Rightarrow> ncp option" where
  "ncp_inr dest lnk s = send_ncp dest 8 2 NCP_INR (write_packet 22 [lnk] s)"

definition ncp_ins :: "u8 \<Rightarrow> u8 \<Rightarrow> ncp \<Rightarrow> ncp option" where
  "ncp_ins dest lnk s = send_ncp dest 8 2 NCP_INS (write_packet 22 [lnk] s)"

definition ncp_cls :: "u8 \<Rightarrow> u32 \<Rightarrow> u32 \<Rightarrow> ncp \<Rightarrow> ncp option" where
  "ncp_cls dest ls rs s =
     send_ncp dest 8 9 NCP_CLS (write_packet 22 (bytes_of ls @ bytes_of rs) s)"

definition ncp_eco :: "u8 \<Rightarrow> u8 \<Rightarrow> ncp \<Rightarrow> ncp option" where
  "ncp_eco dest data s =
     send_ncp dest 8 2 NCP_ECO (write_packet 22 [data] (s\<lparr>packet := (\<lambda>_. 0)\<rparr>))"

definition ncp_erp :: "u8 \<Rightarrow> u8 \<Rightarrow> ncp \<Rightarrow> ncp option" where
  "ncp_erp dest data s = send_ncp dest 8 2 NCP_ERP (write_packet 22 [data] s)"

definition ncp_rst :: "u8 \<Rightarrow> ncp \<Rightarrow> ncp option" where
  "ncp_rst dest s = send_ncp dest 8 1 NCP_RST s"

definition ncp_rrp :: "u8 \<Rightarrow> ncp \<Rightarrow> ncp option" where
  "ncp_rrp dest s = send_ncp dest 8 1 NCP_RRP s"

definition ncp_nop :: "u8 \<Rightarrow> ncp \<Rightarrow> ncp option" where
  "ncp_nop dest s = send_ncp dest 8 1 NCP_NOP s"

text \<open>
  The data of an ERR is copied from inside \<open>packet\<close> itself: \<open>src\<close> is the offset of the
  \<open>data\<close> pointer.
\<close>

definition ncp_err :: "u8 \<Rightarrow> u8 \<Rightarrow> nat \<Rightarrow> int \<Rightarrow> ncp \<Rightarrow> ncp option" where
  "ncp_err dest code src n s =
     do { let s = write_packet 22 [code] s;
          p \<leftarrow> memcpy_within PACKET_CAP 23 src (if n > 10 then 10 else n) (packet s);
          let p = (if n < 10 then put_bytes (23 + nat n) (replicate (nat (10 - n)) 0) p else p);
          send_ncp dest 8 12 NCP_ERR (s\<lparr>packet := p\<rparr>) }"

section \<open>What is sent\<close>

text \<open>The state after a control message of \<open>words\<close> words, as an equation.\<close>

definition sent_packet :: "u8 \<Rightarrow> u8 \<Rightarrow> u16 \<Rightarrow> u8 \<Rightarrow> ncp \<Rightarrow> mem" where
  "sent_packet dest byte count type s =
     put_bytes 0 (imp_header (imp s) (nat ((uint count + 10) div 2)))
       (put_bytes 12 [0, dest, 0, 0]
         (put_bytes 16 [0, byte, ucast (drop_bit 8 count), ucast count, 0, type] (packet s)))"

definition after_control :: "u8 \<Rightarrow> u8 \<Rightarrow> u16 \<Rightarrow> u8 \<Rightarrow> ncp \<Rightarrow> ncp" where
  "after_control dest byte count type s =
     upd_host dest (\<lambda>h. h\<lparr>outstanding_rfnm := outstanding_rfnm h + 1\<rparr>)
       (s\<lparr>packet := sent_packet dest byte count type s,
          imp := (imp s)\<lparr>tx_sequence := tx_sequence (imp s) + 1\<rparr>,
          out := out s @ [To_imp (get_bytes 0 (12 + 2 * nat ((uint count + 10) div 2))
                    (sent_packet dest byte count type s))]\<rparr>)"

lemma send_ncp_eq:
  assumes "uint count \<le> 178"
  shows "send_ncp dest byte count type s = Some (after_control dest byte count type s)"
proof -
  have "0 \<le> uint count" "0 \<le> uint dest" "uint dest < 256" by simp_all
  moreover have "nat ((uint count + 10) div 2) \<le> 94" using assms by linarith
  ultimately show ?thesis
    by (simp add: send_ncp_def send_imp_def after_control_def sent_packet_def write_packet_def
        count_regular_def imp_send_message_def upd_host_def leader_def Let_def add.commute)
qed

lemma send_ncp_defined [defined_intros]:
  "uint count \<le> 178 \<Longrightarrow> send_ncp dest byte count type s \<noteq> None"
  by (simp add: send_ncp_eq)

lemmas ncp_command_defs = ncp_str_def ncp_rts_def ncp_all_def ncp_ret_def ncp_gvb_def ncp_inr_def
  ncp_ins_def ncp_cls_def ncp_eco_def ncp_erp_def ncp_rst_def ncp_rrp_def ncp_nop_def

lemma ncp_commands_defined [defined_intros]:
  "ncp_str d ls rs z s \<noteq> None" "ncp_rts d ls rs l s \<noteq> None" "ncp_all d l m b s \<noteq> None"
  "ncp_ret d l m b s \<noteq> None" "ncp_gvb d l fm fb s \<noteq> None" "ncp_inr d l s \<noteq> None"
  "ncp_ins d l s \<noteq> None" "ncp_cls d ls rs s \<noteq> None" "ncp_eco d x s \<noteq> None"
  "ncp_erp d x s \<noteq> None" "ncp_rst d s \<noteq> None" "ncp_rrp d s \<noteq> None" "ncp_nop d s \<noteq> None"
  by (simp_all add: ncp_command_defs send_ncp_eq)

end
