(* ===== verification/Wire.thy ===== *)
theory Wire
  imports Prelude
begin

text \<open>
  The protocol between the application library and the daemon (\<open>src/wire.h\<close>): the request
  codes and the size check that both sides apply to every datagram. A reply carries the code of
  its request plus one.
\<close>

abbreviation (input) WIRE_ECHO :: u8 where "WIRE_ECHO \<equiv> 1"
abbreviation (input) WIRE_OPEN :: u8 where "WIRE_OPEN \<equiv> 3"
abbreviation (input) WIRE_LISTEN :: u8 where "WIRE_LISTEN \<equiv> 5"
abbreviation (input) WIRE_READ :: u8 where "WIRE_READ \<equiv> 7"
abbreviation (input) WIRE_WRITE :: u8 where "WIRE_WRITE \<equiv> 9"
abbreviation (input) WIRE_INTERRUPT :: u8 where "WIRE_INTERRUPT \<equiv> 11"
abbreviation (input) WIRE_CLOSE :: u8 where "WIRE_CLOSE \<equiv> 13"

definition wire_check :: "u8 \<Rightarrow> int \<Rightarrow> bool" where
  "wire_check type n =
     (if type = WIRE_ECHO then n = 3
      else if type = WIRE_ECHO + 1 then n = 4
      else if type = WIRE_OPEN then n = 7
      else if type = WIRE_OPEN + 1 then n = 9
      else if type = WIRE_LISTEN then n = 6
      else if type = WIRE_LISTEN + 1 then n = 8
      else if type = WIRE_READ then n = 3
      else if type = WIRE_READ + 1 then True
      else if type = WIRE_WRITE then True
      else if type = WIRE_WRITE + 1 then n = 4
      else if type = WIRE_INTERRUPT then n = 2
      else if type = WIRE_INTERRUPT + 1 then n = 2
      else if type = WIRE_CLOSE then n = 2
      else if type = WIRE_CLOSE + 1 then n = 2
      else False)"

text \<open>Only fourteen codes are ever accepted.\<close>

lemma wire_check_codes: "wire_check t n \<Longrightarrow> 1 \<le> t \<and> t \<le> 14"
  by (auto simp: wire_check_def split: if_splits)

end
