(* ===== verification/Ncp_Callbacks.thy ===== *)
theory Ncp_Callbacks
  imports Ncp_Send Wire
begin

text \<open>
  Replies to applications, and the functions the daemon stores in a connection to run later:
  when a RFNM arrives, when an allocation arrives, or when a time-out expires (\<open>src/ncp.c\<close>).
  \<open>call\<close> is the call through a function pointer. \<open>check_rfnm\<close> calls handlers that may call
  \<open>check_rfnm\<close>; the first argument of \<open>call\<close> and \<open>check_rfnm_loop\<close> bounds that nesting.
\<close>

section \<open>Replies to applications\<close>

definition deliver :: "client_t \<Rightarrow> u8 list \<Rightarrow> ncp \<Rightarrow> ncp" where
  "deliver a bs s = s\<lparr>out := out s @ [To_app a bs]\<rparr>"

definition reply_open :: "u8 \<Rightarrow> u32 \<Rightarrow> u8 \<Rightarrow> u8 \<Rightarrow> u8 \<Rightarrow> ncp \<Rightarrow> ncp option" where
  "reply_open h socket i sz e s =
     do { s \<leftarrow> upd (uint i) (clear_flags CONN_OPEN) s;
          Some (deliver (cur_client s) ([WIRE_OPEN + 1, h] @ bytes_of socket @ [i, sz, e]) s) }"

definition reply_listen :: "u8 \<Rightarrow> u32 \<Rightarrow> u8 \<Rightarrow> u8 \<Rightarrow> ncp \<Rightarrow> ncp option" where
  "reply_listen h socket i sz s =
     do { s \<leftarrow> upd (uint i) (clear_flags CONN_LISTEN) s;
          Some (deliver (cur_client s) ([WIRE_LISTEN + 1, h] @ bytes_of socket @ [i, sz]) s) }"

definition reply_close :: "u8 \<Rightarrow> ncp \<Rightarrow> ncp option" where
  "reply_close i s =
     do { s \<leftarrow> upd (uint i) (clear_flags CONN_CLOSE) s;
          Some (deliver (client (connection s (uint i))) [WIRE_CLOSE + 1, i] s) }"

definition reply_echo :: "u8 \<Rightarrow> u8 \<Rightarrow> u8 \<Rightarrow> ncp \<Rightarrow> ncp" where
  "reply_echo h data error s = deliver (echo (hosts s h)) [WIRE_ECHO + 1, h, data, error] s"

text \<open>\<open>data\<close> always points into \<open>packet\<close>; \<open>src\<close> is its offset.\<close>

definition reply_read :: "u8 \<Rightarrow> nat \<Rightarrow> int \<Rightarrow> ncp \<Rightarrow> ncp option" where
  "reply_read i src n s =
     do { s \<leftarrow> upd (uint i) (clear_flags CONN_READ) s;
          r \<leftarrow> memcpy REPLY_CAP PACKET_CAP 2 src n (put_bytes 0 [WIRE_READ + 1, i] (\<lambda>_. 0)) (packet s);
          Some (deliver (reader (connection s (uint i))) (get_bytes 0 (nat n + 2) r) s) }"

definition reply_write :: "u8 \<Rightarrow> u16 \<Rightarrow> ncp \<Rightarrow> ncp option" where
  "reply_write i n s =
     do { s \<leftarrow> upd (uint i) (clear_flags CONN_WRITE) s;
          Some (deliver (writer (connection s (uint i)))
                  [WIRE_WRITE + 1, i, ucast (drop_bit 8 n), ucast n] s) }"

definition maybe_reply :: "int \<Rightarrow> ncp \<Rightarrow> ncp option" where
  "maybe_reply i s =
     do { c \<leftarrow> get i s;
          if flags c AND CONN_GOT_BOTH = CONN_GOT_BOTH then
            do { s \<leftarrow> upd i (\<lambda>c. c\<lparr>rfc_timeout := None\<rparr>) s;
                 reply_listen (word_of_int (host c)) (listen c) (word_of_int i)
                   (word_of_int (bsize (rcv c))) s }
          else if flags c AND CONN_GOT_ALL = CONN_GOT_ALL then
            do { s \<leftarrow> upd i (\<lambda>c. c\<lparr>rfc_timeout := None\<rparr>) s;
                 reply_open (word_of_int (host c)) (listen c) (word_of_int i)
                   (word_of_int (bsize (rcv c))) 0 s }
          else Some s }"

section \<open>Closing\<close>

text \<open>Tell the peer that this side closes a direction; -1 in \<open>link\<close> notes it.\<close>

definition send_cls_snd :: "int \<Rightarrow> ncp \<Rightarrow> ncp option" where
  "send_cls_snd i s =
     do { s \<leftarrow> upd i (set_snd_link (- 1)) s;
          c \<leftarrow> get i s;
          s \<leftarrow> ncp_cls (word_of_int (host c)) (lsock (snd c)) (rsock (snd c)) s;
          unless_cls i Cls_timeout s }"

definition send_cls_rcv :: "int \<Rightarrow> ncp \<Rightarrow> ncp option" where
  "send_cls_rcv i s =
     do { s \<leftarrow> upd i (set_rcv_link (- 1)) s;
          c \<leftarrow> get i s;
          s \<leftarrow> ncp_cls (word_of_int (host c)) (lsock (rcv c)) (rsock (rcv c)) s;
          unless_cls i Cls_timeout s }"

definition send_socket_timeout :: "int \<Rightarrow> ncp \<Rightarrow> ncp option" where
  "send_socket_timeout i s =
     do { s \<leftarrow> upd i (set_snd_link (- 1)) s;
          c \<leftarrow> get i s;
          s \<leftarrow> ncp_cls (word_of_int (host c)) (lsock (snd c)) (rsock (snd c)) s;
          unless_cls i Cls_timeout s }"

text \<open>The answer owed to an application when a connection goes away.\<close>

definition give_up_reply :: "int \<Rightarrow> conn \<Rightarrow> ncp \<Rightarrow> ncp option" where
  "give_up_reply i c s =
     (if has CONN_OPEN c then reply_open (word_of_int (host c)) (listen c) 0 0 255 s
      else if has CONN_READ c then reply_read (word_of_int i) 0 0 s
      else if has CONN_WRITE c then reply_write (word_of_int i) 0 s
      else if has CONN_CLOSE c then reply_close (word_of_int i) s
      else Some s)"

definition do_cls_timeout :: "int \<Rightarrow> ncp \<Rightarrow> ncp option" where
  "do_cls_timeout i s = do { c \<leftarrow> get i s; s \<leftarrow> give_up_reply i c s; destroy i s }"

definition just_drop :: "int \<Rightarrow> ncp \<Rightarrow> ncp option" where
  "just_drop i s = do { c \<leftarrow> get i s; s \<leftarrow> give_up_reply i c s; destroy i s }"

definition do_rfc_timeout :: "int \<Rightarrow> ncp \<Rightarrow> ncp option" where
  "do_rfc_timeout i s =
     do { s \<leftarrow> upd i (\<lambda>c. (set_snd_size (- 1) (set_rcv_size (- 1) c))
                \<lparr>rfnm_timeout := None, all_timeout := None\<rparr>) s;
          c \<leftarrow> get i s;
          s \<leftarrow> (if link (rcv c) \<noteq> - 1 then
                 do { s \<leftarrow> upd i (set_rcv_link (- 1)) s;
                      s \<leftarrow> ncp_cls (word_of_int (host c)) (lsock (rcv c)) (rsock (rcv c)) s;
                      unless_cls i Cls_timeout s }
               else Some s);
          if link (snd c) \<noteq> - 1 then
            do { s \<leftarrow> upd i (set_snd_link (- 1)) s;
                 s \<leftarrow> ncp_cls (word_of_int (host c)) (lsock (snd c)) (rsock (snd c)) s;
                 unless_cls i Cls_timeout s }
          else Some s }"

definition cls_and_drop :: "int \<Rightarrow> ncp \<Rightarrow> ncp option" where
  "cls_and_drop i s =
     do { s \<leftarrow> upd i (\<lambda>c. set_rcv_link (- 1) (set_snd_link (- 1) c)) s;
          c \<leftarrow> get i s;
          s \<leftarrow> (if lsock (snd c) \<noteq> 0 \<and> rsock (snd c) \<noteq> 0
               then ncp_cls (word_of_int (host c)) (lsock (snd c)) (rsock (snd c)) s
               else upd i (set_snd_size (- 1)) s);
          s \<leftarrow> (if lsock (rcv c) \<noteq> 0 \<and> rsock (rcv c) \<noteq> 0
               then ncp_cls (word_of_int (host c)) (lsock (rcv c)) (rsock (rcv c)) s
               else upd i (set_rcv_size (- 1)) s);
          unless_cls i Just_drop s }"

definition do_rfnm_timeout :: "int \<Rightarrow> ncp \<Rightarrow> ncp option" where
  "do_rfnm_timeout i s = cls_and_drop i s"

section \<open>Requests for connection\<close>

definition send_rts :: "int \<Rightarrow> ncp \<Rightarrow> ncp option" where
  "send_rts i s =
     do { c \<leftarrow> get i s;
          if has CONN_SENT_RTS c then Some s
          else do { s \<leftarrow> ncp_rts (word_of_int (host c)) (lsock (rcv c)) (rsock (rcv c))
                           (word_of_int (link (rcv c))) s;
                    s \<leftarrow> upd i (set_flags CONN_SENT_RTS) s;
                    unless_rfc i Rfc_timeout s } }"

definition send_str :: "int \<Rightarrow> ncp \<Rightarrow> ncp option" where
  "send_str i s =
     do { c \<leftarrow> get i s;
          if has CONN_SENT_STR c then Some s
          else do { s \<leftarrow> ncp_str (word_of_int (host c)) (lsock (snd c)) (rsock (snd c))
                           (word_of_int (bsize (snd c))) s;
                    s \<leftarrow> upd i (set_flags CONN_SENT_STR) s;
                    unless_rfc i Rfc_timeout s } }"

section \<open>Handlers set by the application interface\<close>

definition app_open_rfc_failed :: "int \<Rightarrow> ncp \<Rightarrow> ncp option" where
  "app_open_rfc_failed i s =
     do { c \<leftarrow> get i s;
          s \<leftarrow> reply_open (word_of_int (host c)) (rsock (rcv c)) 0 0 255 s;
          when_rfnm i Send_cls_rcv Just_drop s }"

definition app_open_rts :: "int \<Rightarrow> ncp \<Rightarrow> ncp option" where
  "app_open_rts i s =
     do { c \<leftarrow> get i s;
          s \<leftarrow> ncp_rts (word_of_int (host c)) (lsock (rcv c)) (rsock (rcv c))
                 (word_of_int (link (rcv c))) s;
          s \<leftarrow> upd i (set_flags CONN_SENT_RTS) s;
          unless_rfc i App_open_rfc_failed s }"

definition app_open_fail :: "int \<Rightarrow> ncp \<Rightarrow> ncp option" where
  "app_open_fail i s =
     do { c \<leftarrow> get i s;
          reply_open (word_of_int (host c)) (rsock (rcv c)) 0 0 255 s }"

definition send_data_timeout :: "int \<Rightarrow> ncp \<Rightarrow> ncp option" where
  "send_data_timeout i s =
     do { c \<leftarrow> get i s;
          reply_write (word_of_int i) (word_of_int (wlength c - remaining c)) s }"

definition send_data_now :: "int \<Rightarrow> ncp \<Rightarrow> ncp option" where
  "send_data_now i s =
     do { c \<leftarrow> get i s; reply_write (word_of_int i) (word_of_int (wlength c)) s }"

definition send_data :: "int \<Rightarrow> ncp \<Rightarrow> ncp option" where
  "send_data i s = when_rfnm i Send_data_now Send_data_timeout s"

section \<open>The RFNM queue\<close>

text \<open>The socket number that \<open>send_socket\<close> reads back out of the buffer.\<close>

definition icp_socket :: "conn \<Rightarrow> u32" where
  "icp_socket c = push_bit 24 (ucast (buffer c 5)) OR push_bit 24 (ucast (buffer c 6)) OR
     push_bit 24 (ucast (buffer c 7)) OR ucast (buffer c 8)"

text \<open>The first half of \<open>send_str_and_rts\<close>.\<close>

definition send_icp_str :: "int \<Rightarrow> ncp \<Rightarrow> ncp option" where
  "send_icp_str i s =
     do { c \<leftarrow> get i s;
          if has CONN_SENT_STR c then Some s
          else do { s \<leftarrow> ncp_str (word_of_int (host c)) (lsock (snd c)) (rsock (snd c))
                           (word_of_int (bsize (snd c))) s;
                    s \<leftarrow> upd i (set_flags CONN_SENT_STR) s;
                    unless_rfc i Rfc_timeout s } }"

function (sequential)
  call :: "nat \<Rightarrow> handler \<Rightarrow> int \<Rightarrow> ncp \<Rightarrow> ncp option" and
  check_rfnm_loop :: "nat \<Rightarrow> int \<Rightarrow> int list \<Rightarrow> ncp \<Rightarrow> ncp option" where
  "call n Send_socket i s =
     do { c \<leftarrow> get i s;
          let j = find_rcv_sockets (host c) (icp_socket c) (rsock (snd c) + 3) s;
          s \<leftarrow> when_rfnm j Send_str_and_rts Rfnm_timeout s;
          s \<leftarrow> when_rfnm i Send_cls_snd Just_drop s;
          check_rfnm_loop n (host c) [0..CONNECTIONS - 1] s }"
| "call n Send_str_and_rts i s =
     do { s \<leftarrow> send_icp_str i s;
          s \<leftarrow> when_rfnm i Send_rts Send_cls_snd s;
          c \<leftarrow> get i s;
          check_rfnm_loop n (host c) [0..CONNECTIONS - 1] s }"
| "call n Send_socket_timeout i s = send_socket_timeout i s"
| "call n Cls_timeout i s = do_cls_timeout i s"
| "call n Rfc_timeout i s = do_rfc_timeout i s"
| "call n Just_drop i s = just_drop i s"
| "call n Rfnm_timeout i s = do_rfnm_timeout i s"
| "call n Send_rts i s = send_rts i s"
| "call n Send_str i s = send_str i s"
| "call n Send_cls_snd i s = send_cls_snd i s"
| "call n Send_cls_rcv i s = send_cls_rcv i s"
| "call n App_open_rfc_failed i s = app_open_rfc_failed i s"
| "call n App_open_rts i s = app_open_rts i s"
| "call n App_open_fail i s = app_open_fail i s"
| "call n Send_data_timeout i s = send_data_timeout i s"
| "call n Send_data_now i s = send_data_now i s"
| "call n Send_data i s = send_data i s"
| "check_rfnm_loop n h [] s = Some s"
| "check_rfnm_loop n h (i # is) s =
     do { c \<leftarrow> get i s;
          if host c \<noteq> h then check_rfnm_loop n h is s
          else (case rfnm_callback c of
            None \<Rightarrow> check_rfnm_loop n h is s
          | Some cb \<Rightarrow>
              if \<not> (0 \<le> host c \<and> host c < 256) then None
              else if outstanding_rfnm (hosts s (word_of_int (host c))) \<ge> 4
              then check_rfnm_loop n h is s
              else (case n of 0 \<Rightarrow> None
                | Suc m \<Rightarrow>
                   do { s \<leftarrow> upd i (\<lambda>c. c\<lparr>rfnm_callback := None, rfnm_timeout := None\<rparr>) s;
                        s \<leftarrow> call m cb i s;
                        check_rfnm_loop n h is s })) }"
  by pat_completeness auto
termination
  by (relation "measures [case_sum (\<lambda>(n, _). n) (\<lambda>(n, _). n), case_sum (\<lambda>_. 1) (\<lambda>_. 0),
        case_sum (\<lambda>_. 0) (\<lambda>(_, _, is, _). length is)]") auto

text \<open>
  One nesting level more than there are connections is enough, as \<open>Ncp_Total\<close> shows.
\<close>

abbreviation (input) NESTING :: nat where "NESTING \<equiv> 21"

definition check_rfnm :: "int \<Rightarrow> ncp \<Rightarrow> ncp option" where
  "check_rfnm h s = check_rfnm_loop NESTING h [0..CONNECTIONS - 1] s"

definition run :: "handler \<Rightarrow> int \<Rightarrow> ncp \<Rightarrow> ncp option" where
  "run h i s = call NESTING h i s"

definition check_rrp :: "int \<Rightarrow> ncp \<Rightarrow> ncp option" where
  "check_rrp h s = for_each [0..CONNECTIONS - 1] (\<lambda>i s.
     do { c \<leftarrow> get i s;
          if host c \<noteq> h then Some s
          else (case rrp_callback c of None \<Rightarrow> Some s
            | Some cb \<Rightarrow>
                do { s \<leftarrow> upd i (\<lambda>c. c\<lparr>rrp_callback := None, rrp_timeout := None\<rparr>) s;
                     run cb i s }) }) s"

section \<open>Allocations and sending data\<close>

text \<open>How much of the remaining data the allocation allows to send now.\<close>

definition sendable :: "conn \<Rightarrow> int" where
  "sendable c = (if 8 * remaining c > all_bits c then all_bits c div 8 else remaining c)"

definition check_all :: "int \<Rightarrow> ncp \<Rightarrow> ncp option" where
  "check_all i s =
     do { c \<leftarrow> get i s;
          (case all_callback c of None \<Rightarrow> Some s
           | Some cb \<Rightarrow>
             if all_msgs c < 1 then Some s
             else if all_bits c < 8 then Some s
             else if bsize (snd c) = 0 \<or> ptr c < 5 \<or> int BUFFER_CAP < ptr c then None
             else
               let n = sendable c; count = c_div (8 * n) (bsize (snd c));
                   b = put_bytes (nat (ptr c - 5))
                         [0, word_of_int (bsize (snd c)), word_of_int (count div 256),
                          word_of_int count, 0] (buffer c)
               in do { s \<leftarrow> upd i (\<lambda>c. c\<lparr>buffer := b\<rparr>) s;
                       s \<leftarrow> send_imp 0 IMP_REGULAR (host c) (link (snd c)) 0 0
                              (Some (b, nat (ptr c - 5))) (2 + (n + 6) div 2) s;
                       s \<leftarrow> upd i (\<lambda>c. c\<lparr>all_msgs := all_msgs c - 1,
                              all_bits := all_bits c - bsize (snd c) * count,
                              remaining := remaining c - n, ptr := ptr c + n\<rparr>) s;
                       if remaining c - n = 0 then
                         do { s \<leftarrow> run cb i s;
                              upd i (\<lambda>c. c\<lparr>all_callback := None, all_timeout := None\<rparr>) s }
                       else upd i (\<lambda>c. c\<lparr>all_time := time_tick s + ALL_TIMEOUT\<rparr>) s }) }"

text \<open>The data comes from the array \<open>src\<close> of length \<open>cap\<close>, at offset \<open>off\<close>; \<open>bits\<close> is its length.\<close>

definition when_all ::
    "int \<Rightarrow> mem \<Rightarrow> nat \<Rightarrow> nat \<Rightarrow> int \<Rightarrow> handler \<Rightarrow> handler \<Rightarrow> ncp \<Rightarrow> ncp option" where
  "when_all i src cap off bits cb to s =
     do { let octets = c_div (bits + 7) 8;
          c \<leftarrow> get i s;
          b \<leftarrow> memcpy BUFFER_CAP cap 5 off octets (buffer c) src;
          s \<leftarrow> upd i (\<lambda>c. c\<lparr>all_callback := Some cb, all_timeout := Some to,
                 all_time := time_tick s + ALL_TIMEOUT,
                 wlength := octets, remaining := octets, ptr := 5, buffer := b\<rparr>) s;
          check_all i s }"

end
