(* ===== verification/Ncp_Process.thy ===== *)
theory Ncp_Process
  imports Ncp_Callbacks
begin

text \<open>
  Incoming messages (\<open>src/ncp.c\<close>): one function per control command, the loop over the
  commands of a control message, and one function per type of IMP message. The \<open>data\<close> pointer
  of a command is an offset into \<open>packet\<close>, the array that replies are built in as well.
\<close>

section \<open>Parameters of a command\<close>

text \<open>The \<open>n\<close> bytes from \<open>data\<close>, all of which the function reads before it sends anything.\<close>

definition args :: "nat \<Rightarrow> nat \<Rightarrow> ncp \<Rightarrow> (nat \<Rightarrow> u8) option" where
  "args off n s = (if off + n \<le> PACKET_CAP then Some (\<lambda>k. packet s (off + k)) else None)"

section \<open>Control commands\<close>

definition process_nop :: "u8 \<Rightarrow> nat \<Rightarrow> ncp \<Rightarrow> (nat \<times> ncp) option" where
  "process_nop source off s = Some (0, s)"

text \<open>RTS for a socket that an application listens to: confirm it and start the ICP.\<close>

definition rts_listening :: "u8 \<Rightarrow> u32 \<Rightarrow> u32 \<Rightarrow> u8 \<Rightarrow> int \<Rightarrow> ncp \<Rightarrow> ncp option" where
  "rts_listening source ls rs lnk k s =
     do { let sk = (128 :: u32);
          let sz = l_size (listening s k);
          (i, s) \<leftarrow> make_open (uint source) 0 0 ls rs s;
          s \<leftarrow> upd i (\<lambda>c. set_snd_link (uint lnk) (set_snd_size 32 (set_flags CONN_SERVER c))) s;
          c \<leftarrow> get i s;
          s \<leftarrow> ncp_str (word_of_int (host c)) (lsock (snd c)) (rsock (snd c))
                 (word_of_int (bsize (snd c))) s;
          s \<leftarrow> upd i (set_flags CONN_SENT_STR) s;
          s \<leftarrow> when_all i (put_bytes 0 (bytes_of sk) (\<lambda>_. 0)) 4 0 32 Send_socket Send_socket_timeout s;
          c \<leftarrow> get i s;
          (j, s) \<leftarrow> make_open (uint source) sk (rsock (snd c) + 3) (sk + 1) (rsock (snd c) + 2) s;
          s \<leftarrow> upd j (\<lambda>c. (set_snd_link 0 (set_rcv_size 0 (set_rcv_link 46
                 (set_snd_size (uint sz) (set_flags CONN_LISTEN c)))))\<lparr>listen := ls\<rparr>) s;
          unless_rfc j Just_drop s }"

text \<open>RTS for a pair of sockets that already has a connection.\<close>

definition rts_existing :: "u8 \<Rightarrow> int \<Rightarrow> ncp \<Rightarrow> ncp option" where
  "rts_existing lnk i s =
     do { s \<leftarrow> upd i (\<lambda>c. set_flags CONN_GOT_RTS (set_snd_link (uint lnk) c)) s;
          c \<leftarrow> get i s;
          s \<leftarrow> (if has CONN_SENT_STR c then upd i (\<lambda>c. c\<lparr>rfc_timeout := None\<rparr>) s
               else ncp_str (word_of_int (host c)) (lsock (snd c)) (rsock (snd c))
                      (word_of_int (bsize (snd c))) s);
          maybe_reply i s }"

text \<open>Nobody wants the connection: record it only to wait for the peer's CLS.\<close>

definition refuse :: "u8 \<Rightarrow> u32 \<Rightarrow> u32 \<Rightarrow> ncp \<Rightarrow> ncp option" where
  "refuse source ls rs s =
     do { (i, s) \<leftarrow> make_open (uint source) 0 0 ls rs s;
          s \<leftarrow> upd i (set_snd_size 0) s;
          s \<leftarrow> ncp_cls source ls rs s;
          unless_cls i Cls_timeout s }"

text \<open>RTS for the data connection of the client side of an ICP, \<open>i\<close> being the ICP connection.\<close>

definition rts_client :: "u8 \<Rightarrow> u32 \<Rightarrow> u32 \<Rightarrow> u8 \<Rightarrow> int \<Rightarrow> ncp \<Rightarrow> ncp option" where
  "rts_client source ls rs lnk i s =
     do { (j, s) \<leftarrow> make_open (uint source) (ls - 1) (rs + 1) ls rs s;
          c \<leftarrow> get i s;
          s \<leftarrow> upd j (\<lambda>d. (set_flags (CONN_OPEN OR CONN_GOT_RTS) (set_rcv_link 49
                 (set_snd_link (uint lnk) (set_snd_size (data_size c) d))))
                 \<lparr>listen := rsock (rcv c)\<rparr>) s;
          s \<leftarrow> when_rfnm j Send_str Send_cls_snd s;
          s \<leftarrow> unless_rfc j Just_drop s;
          maybe_reply j s }"

definition process_rts :: "u8 \<Rightarrow> nat \<Rightarrow> ncp \<Rightarrow> (nat \<times> ncp) option" where
  "process_rts source off s =
     do { d \<leftarrow> args off 9 s;
          let rs = sock d;
          let ls = sock (\<lambda>k. d (4 + k));
          let lnk = d 8;
          s \<leftarrow> (if lnk < LINK_MIN \<or> lnk > LINK_MAX then ncp_err source ERR_PARAM (off - 1) 10 s
               else if find_listen ls s \<noteq> - 1 then rts_listening source ls rs lnk (find_listen ls s) s
               else if find_snd_sockets (uint source) ls rs s \<noteq> - 1
               then rts_existing lnk (find_snd_sockets (uint source) ls rs s) s
               else let i = scan CONNECTIONS (\<lambda>i. let c = connection s i in
                        host c = uint source \<and> lsock (rcv c) + 3 = ls \<and> has CONN_CLIENT c)
                    in if i = - 1 then refuse source ls rs s else rts_client source ls rs lnk i s);
          Some (9, s) }"

definition str_existing :: "u8 \<Rightarrow> u8 \<Rightarrow> int \<Rightarrow> ncp \<Rightarrow> ncp option" where
  "str_existing source sz i s =
     do { s \<leftarrow> upd i (\<lambda>c. set_flags CONN_GOT_STR (set_rcv_size (uint sz) c)) s;
          c \<leftarrow> get i s;
          if has CONN_SENT_RTS c then
            (if has CONN_CLIENT c then ncp_all source (word_of_int (link (rcv c))) 1 1000 s
             else maybe_reply i s)
          else
            do { s \<leftarrow> ncp_rts (word_of_int (host c)) (lsock (rcv c)) (rsock (rcv c))
                        (word_of_int (link (rcv c))) s;
                 maybe_reply i s } }"

definition str_client :: "u8 \<Rightarrow> u32 \<Rightarrow> u32 \<Rightarrow> u8 \<Rightarrow> int \<Rightarrow> ncp \<Rightarrow> ncp option" where
  "str_client source ls rs sz i s =
     do { (j, s) \<leftarrow> make_open (uint source) ls rs (ls + 1) (rs - 1) s;
          c \<leftarrow> get i s;
          s \<leftarrow> upd j (\<lambda>d. (set_flags (CONN_OPEN OR CONN_GOT_STR) (set_snd_size (data_size c)
                 (set_rcv_link 47 (set_rcv_size (uint sz) d))))
                 \<lparr>listen := rsock (rcv c)\<rparr>) s;
          s \<leftarrow> when_rfnm j Send_rts Send_cls_rcv s;
          s \<leftarrow> unless_rfc j Just_drop s;
          maybe_reply j s }"

definition process_str :: "u8 \<Rightarrow> nat \<Rightarrow> ncp \<Rightarrow> (nat \<times> ncp) option" where
  "process_str source off s =
     do { d \<leftarrow> args off 9 s;
          let rs = sock d;
          let ls = sock (\<lambda>k. d (4 + k));
          let sz = d 8;
          s \<leftarrow> (if find_rcv_sockets (uint source) ls rs s \<noteq> - 1
               then str_existing source sz (find_rcv_sockets (uint source) ls rs s) s
               else let i = scan CONNECTIONS (\<lambda>i. let c = connection s i in
                        host c = uint source \<and> lsock (snd c) + 2 = ls \<and> has CONN_CLIENT c)
                    in if i = - 1 then refuse source ls rs s else str_client source ls rs sz i s);
          Some (9, s) }"

text \<open>The peer closes one direction; answer unless this side has sent its CLS already.\<close>

definition cls_rcv :: "u32 \<Rightarrow> u32 \<Rightarrow> int \<Rightarrow> ncp \<Rightarrow> ncp option" where
  "cls_rcv ls rs i s =
     do { s \<leftarrow> upd i (set_rcv_size (- 1)) s;
          c \<leftarrow> get i s;
          if \<not> sent_rcv_cls c then
            do { s \<leftarrow> upd i (set_rcv_link (- 1)) s; ncp_cls (word_of_int (host c)) ls rs s }
          else Some s }"

definition cls_snd :: "u32 \<Rightarrow> u32 \<Rightarrow> int \<Rightarrow> ncp \<Rightarrow> ncp option" where
  "cls_snd ls rs i s =
     do { s \<leftarrow> upd i (set_snd_size (- 1)) s;
          c \<leftarrow> get i s;
          if \<not> sent_snd_cls c then
            do { s \<leftarrow> upd i (set_snd_link (- 1)) s; ncp_cls (word_of_int (host c)) ls rs s }
          else Some s }"

definition all_cls :: "conn \<Rightarrow> bool" where
  "all_cls c \<longleftrightarrow> got_rcv_cls c \<and> sent_rcv_cls c \<and> got_snd_cls c \<and> sent_snd_cls c"

text \<open>What follows the CLS of either direction.\<close>

definition cls_finish :: "u8 \<Rightarrow> u32 \<Rightarrow> int \<Rightarrow> ncp \<Rightarrow> ncp option" where
  "cls_finish source rs i s =
     do { c \<leftarrow> get i s;
          s \<leftarrow> (if has CONN_OPEN c then reply_open source rs 0 0 255 s
               else if has CONN_READ c then reply_read (word_of_int i) 0 0 s
               else if has CONN_WRITE c then reply_write (word_of_int i) 0 s
               else Some s);
          c \<leftarrow> get i s;
          if all_cls c then
            do { s \<leftarrow> (if has CONN_CLOSE c then reply_close (word_of_int i) s else Some s);
                 destroy i s }
          else Some s }"

definition process_cls :: "u8 \<Rightarrow> nat \<Rightarrow> ncp \<Rightarrow> (nat \<times> ncp) option" where
  "process_cls source off s =
     do { d \<leftarrow> args off 8 s;
          let rs = sock d;
          let ls = sock (\<lambda>k. d (4 + k));
          s \<leftarrow> (if find_rcv_sockets (uint source) ls rs s \<noteq> - 1 then
                 (let i = find_rcv_sockets (uint source) ls rs s in
                  do { s \<leftarrow> cls_rcv ls rs i s; cls_finish source rs i s })
               else if find_snd_sockets (uint source) ls rs s \<noteq> - 1 then
                 (let i = find_snd_sockets (uint source) ls rs s in
                  do { s \<leftarrow> cls_snd ls rs i s; cls_finish source rs i s })
               else ncp_err source ERR_SOCKET (off - 1) 9 s);
          Some (8, s) }"

text \<open>
  \<open>all_msgs += msgs\<close> is a signed addition; \<open>all_bits += bits\<close> adds an unsigned number and
  converts the sum back to \<open>int\<close>.
\<close>

definition add_allocation :: "u16 \<Rightarrow> u32 \<Rightarrow> conn \<Rightarrow> conn" where
  "add_allocation msgs bits c =
     c\<lparr>all_msgs := all_msgs c + uint msgs,
       all_bits := sint (word_of_int (all_bits c) + bits :: u32)\<rparr>"

definition process_all :: "u8 \<Rightarrow> nat \<Rightarrow> ncp \<Rightarrow> (nat \<times> ncp) option" where
  "process_all source off s =
     do { d \<leftarrow> args off 7 s;
          let lnk = d 0;
          let msgs = (push_bit 8 (ucast (d 1)) OR ucast (d 2) :: u16);
          let bits = word_of_bytes (d 3) (d 4) (d 5) (d 6);
          let i = find_link (uint source) (uint lnk) s;
          s \<leftarrow> (if i = - 1 then ncp_err source ERR_SOCKET (off - 1) 10 s
               else do { c \<leftarrow> get i s;
                         s \<leftarrow> (if all_msgs c + uint msgs > 2147483647 then None
                              else upd i (add_allocation msgs bits) s);
                         check_all i s });
          Some (7, s) }"

text \<open>GVB, RET, INR and INS are only checked for a link that exists.\<close>

definition process_on_link :: "int \<Rightarrow> nat \<Rightarrow> u8 \<Rightarrow> nat \<Rightarrow> ncp \<Rightarrow> (nat \<times> ncp) option" where
  "process_on_link errlen n source off s =
     do { d \<leftarrow> args off 1 s;
          s \<leftarrow> (if find_link (uint source) (uint (d 0)) s = - 1
               then ncp_err source ERR_SOCKET (off - 1) errlen s else Some s);
          Some (n, s) }"

definition process_gvb :: "u8 \<Rightarrow> nat \<Rightarrow> ncp \<Rightarrow> (nat \<times> ncp) option" where
  "process_gvb source off s = process_on_link 4 3 source off s"

definition process_ret :: "u8 \<Rightarrow> nat \<Rightarrow> ncp \<Rightarrow> (nat \<times> ncp) option" where
  "process_ret source off s = process_on_link 8 7 source off s"

definition process_inr :: "u8 \<Rightarrow> nat \<Rightarrow> ncp \<Rightarrow> (nat \<times> ncp) option" where
  "process_inr source off s = process_on_link 2 1 source off s"

definition process_ins :: "u8 \<Rightarrow> nat \<Rightarrow> ncp \<Rightarrow> (nat \<times> ncp) option" where
  "process_ins source off s = process_on_link 2 1 source off s"

definition process_eco :: "u8 \<Rightarrow> nat \<Rightarrow> ncp \<Rightarrow> (nat \<times> ncp) option" where
  "process_eco source off s =
     do { d \<leftarrow> args off 1 s; s \<leftarrow> ncp_erp source (d 0) s; Some (1, s) }"

text \<open>\<open>hosts[h].echo.len = 0\<close>: no application waits for an echo any more.\<close>

definition clear_echo :: "u8 \<Rightarrow> ncp \<Rightarrow> ncp" where
  "clear_echo h s = upd_host h (\<lambda>x. x\<lparr>echo := (echo x)\<lparr>addr_len := 0\<rparr>\<rparr>) s"

definition process_erp :: "u8 \<Rightarrow> nat \<Rightarrow> ncp \<Rightarrow> (nat \<times> ncp) option" where
  "process_erp source off s =
     do { d \<leftarrow> args off 1 s; Some (1, clear_echo source (reply_echo source (d 0) 0x10 s)) }"

definition process_err :: "u8 \<Rightarrow> nat \<Rightarrow> ncp \<Rightarrow> (nat \<times> ncp) option" where
  "process_err source off s =
     do { d \<leftarrow> args off 11 s;
          s \<leftarrow> (if (d 0 = ERR_SOCKET \<or> d 0 = ERR_CONNECT) \<and> (d 1 = NCP_RTS \<or> d 1 = NCP_STR) then
                 (let rs = sock (\<lambda>k. d (6 + k));
                      i = find_sockets (uint source) (sock (\<lambda>k. d (2 + k))) rs s
                  in if i \<noteq> - 1
                     then do { s \<leftarrow> reply_open source (if rs AND 1 = 0 then rs - 1 else rs) 0 0 255 s;
                               destroy i s }
                     else Some s)
               else Some s);
          Some (11, s) }"

definition reset :: "ncp \<Rightarrow> ncp option" where
  "reset s =
     do { s \<leftarrow> for_each [0..CONNECTIONS - 1] (\<lambda>i s.
                do { s \<leftarrow> destroy i s;
                     Some (s\<lparr>listening := (listening s)(i := (listening s i)\<lparr>l_sock := 0\<rparr>)\<rparr>) }) s;
          Some (s\<lparr>hosts := (\<lambda>_. \<lparr>ho_flags = 0, echo = \<lparr>sun_path = [], addr_len = 0\<rparr>,
                            erp_time = 0, outstanding_rfnm = 0\<rparr>)\<rparr>) }"

definition reset_host :: "int \<Rightarrow> ncp \<Rightarrow> ncp option" where
  "reset_host h s = for_each [0..CONNECTIONS - 1] (\<lambda>i s.
     do { c \<leftarrow> get i s; if host c \<noteq> h then Some s else destroy i s }) s"

text \<open>An application that waits for an echo of this host is told \<open>e\<close>.\<close>

definition fail_echo :: "u8 \<Rightarrow> u8 \<Rightarrow> ncp \<Rightarrow> ncp" where
  "fail_echo h e s =
     (if addr_len (echo (hosts s h)) > 0 then clear_echo h (reply_echo h 0 e s) else s)"

definition set_alive :: "u8 \<Rightarrow> ncp \<Rightarrow> ncp" where
  "set_alive h s = upd_host h (\<lambda>x. x\<lparr>ho_flags := ho_flags x OR HOST_ALIVE\<rparr>) s"

definition process_rst :: "u8 \<Rightarrow> nat \<Rightarrow> ncp \<Rightarrow> (nat \<times> ncp) option" where
  "process_rst source off s =
     do { s \<leftarrow> reset_host (uint source) (fail_echo source 0x10 (set_alive source s));
          s \<leftarrow> ncp_rrp source s;
          Some (0, s) }"

definition process_rrp :: "u8 \<Rightarrow> nat \<Rightarrow> ncp \<Rightarrow> (nat \<times> ncp) option" where
  "process_rrp source off s =
     do { s \<leftarrow> check_rrp (uint source) (set_alive source s); Some (0, s) }"

text \<open>The table \<open>ncp_messages\<close>, indexed with the type of a command.\<close>

definition ncp_message :: "u8 \<Rightarrow> u8 \<Rightarrow> nat \<Rightarrow> ncp \<Rightarrow> (nat \<times> ncp) option" where
  "ncp_message type =
     (if type = NCP_NOP then process_nop
      else if type = NCP_RTS then process_rts
      else if type = NCP_STR then process_str
      else if type = NCP_CLS then process_cls
      else if type = NCP_ALL then process_all
      else if type = NCP_GVB then process_gvb
      else if type = NCP_RET then process_ret
      else if type = NCP_INR then process_inr
      else if type = NCP_INS then process_ins
      else if type = NCP_ECO then process_eco
      else if type = NCP_ERP then process_erp
      else if type = NCP_ERR then process_err
      else if type = NCP_RST then process_rst
      else if type = NCP_RRP then process_rrp
      else (\<lambda>_ _ _. None))"

text \<open>The loop of \<open>process_ncp\<close>: \<open>i\<close> is the position in the \<open>count\<close> bytes at \<open>data = packet + off\<close>.\<close>

function process_ncp_loop :: "u8 \<Rightarrow> nat \<Rightarrow> nat \<Rightarrow> nat \<Rightarrow> ncp \<Rightarrow> ncp option" where
  "process_ncp_loop source off count i s =
     (if i < count then
        do { d \<leftarrow> args (off + i) 1 s;
             if d 0 > NCP_MAX then ncp_err source ERR_OPCODE (off - 1) 10 s
             else
               do { (n, s) \<leftarrow> ncp_message (d 0) source (off + (i + 1)) s;
                    s \<leftarrow> (if i + 1 + n > count
                         then ncp_err source ERR_SHORT (off - 1) (int count - int (i + 1) + 1) s
                         else Some s);
                    process_ncp_loop source off count (i + 1 + n) s } }
      else Some s)"
  by pat_completeness auto
termination
  by (relation "measure (\<lambda>(_, _, count, i, _). count - i)") auto

declare process_ncp_loop.simps [simp del]

definition process_ncp :: "u8 \<Rightarrow> nat \<Rightarrow> u16 \<Rightarrow> ncp \<Rightarrow> ncp option" where
  "process_ncp source off count s = process_ncp_loop source off (unat count) 0 s"

section \<open>IMP messages\<close>

text \<open>The server's socket number arrives on the ICP connection \<open>i\<close>.\<close>

definition icp_data :: "u8 \<Rightarrow> int \<Rightarrow> ncp \<Rightarrow> ncp option" where
  "icp_data source i s =
     do { let sk = sock (\<lambda>k. packet s (9 + k));
          s \<leftarrow> when_rfnm i Send_cls_rcv Just_drop s;
          s \<leftarrow> upd i (\<lambda>c. clear_flags CONN_OPEN (c\<lparr>rfc_timeout := None\<rparr>)) s;
          c \<leftarrow> get i s;
          let j = find_rcv_sockets (uint source) (lsock (rcv c) + 2) (sk + 1) s;
          let j = (if j = - 1 then find_snd_sockets (uint source) (lsock (rcv c) + 3) sk s else j);
          (j, s) \<leftarrow> (if j = - 1 then
             do { (j, s) \<leftarrow> make_open (uint source) (lsock (rcv c) + 2) (sk + 1)
                              (lsock (rcv c) + 3) sk s;
                  s \<leftarrow> upd j (\<lambda>d. set_rcv_link 45 (set_snd_size (data_size c) d)) s;
                  s \<leftarrow> when_rfnm j Send_str_and_rts Rfnm_timeout s;
                  Some (j, s) }
             else Some (j, s));
          s \<leftarrow> upd j (\<lambda>d. set_flags (CONN_GOT_SOCKET OR CONN_OPEN) (d\<lparr>listen := rsock (rcv c)\<rparr>)) s;
          d \<leftarrow> get j s;
          s \<leftarrow> check_rfnm (host d) s;
          maybe_reply j s }"

definition process_regular :: "ncp \<Rightarrow> ncp option" where
  "process_regular s =
     (let source = packet s 1; lnk = packet s 2; sz = packet s 5;
          count = push_bit 8 (ucast (packet s 6)) OR ucast (packet s 7) :: u16
      in if lnk = 0 then process_ncp source 9 count s
         else let i = find_link (uint source) (uint lnk) s in
              if i = - 1 then Some s
              else do { c \<leftarrow> get i s;
                        if bsize (rcv c) \<noteq> uint sz then Some s
                        else if has CONN_CLIENT c then icp_data source i s
                        else reply_read (word_of_int i) 9 (uint count) s })"

definition process_rfnm :: "ncp \<Rightarrow> ncp option" where
  "process_rfnm s =
     (let h = packet s 1
      in check_rfnm (uint h)
           (upd_host h (\<lambda>x. x\<lparr>outstanding_rfnm := outstanding_rfnm x - 1\<rparr>) s))"

definition process_host_dead :: "ncp \<Rightarrow> ncp option" where
  "process_host_dead s =
     (let h = packet s 1; s = fail_echo h (packet s 3 AND 0x0F) s
      in reset_host (uint h) (upd_host h (\<lambda>x. x\<lparr>ho_flags := ho_flags x AND NOT HOST_ALIVE\<rparr>) s))"

text \<open>
  The dispatch on the message type. The types the daemon only reports (leader error, IMP going
  down, blocked link, NOP, link table full, data error, incomplete transmission, reset) leave
  the state as it is.
\<close>

definition process_imp :: "int \<Rightarrow> ncp \<Rightarrow> ncp option" where
  "process_imp n s =
     (if n < 2 then send_leader_error 1 s
      else let type = packet s 0 AND 0x0F in
        if type = 0 then process_regular s
        else if type = 5 then process_rfnm s
        else if type = 7 then process_host_dead s
        else if type \<le> 10 then Some s
        else send_leader_error 2 s)"

end
