(* ===== verification/Ncp_Main.thy ===== *)
theory Ncp_Main
  imports Ncp_Process
begin

text \<open>
  The application interface, the clock and the main loop of the daemon (\<open>src/ncp.c\<close>). A
  request arrives in the static array \<open>app\<close>, where the bytes that a shorter datagram does not
  overwrite keep their old values. The main loop is a step relation: one step is one time-out of
  \<open>select\<close>, one message from the IMP, or one request of an application.
\<close>

section \<open>Application requests\<close>

definition app_echo :: "ncp \<Rightarrow> ncp option" where
  "app_echo s =
     (let h = app s 1 in
      if addr_len (echo (hosts s h)) > 0 then Some (reply_echo h 0 0x20 s)
      else ncp_eco h (app s 2)
             (upd_host h (\<lambda>x. x\<lparr>echo := cur_client s, erp_time := time_tick s + ERP_TIMEOUT\<rparr>) s))"

definition app_open :: "ncp \<Rightarrow> ncp option" where
  "app_open s =
     (let socket = word_of_bytes (app s 2) (app s 3) (app s 4) (app s 5);
          h = app s 1; sz = uint (app s 6)
      in do { (i, s) \<leftarrow> make_open (uint h) 1002 socket 0 0 s;
              s \<leftarrow> upd i (\<lambda>c. (set_flags (CONN_CLIENT OR CONN_OPEN) (set_rcv_link 42 c))
                     \<lparr>data_size := sz, listen := socket, client := cur_client s\<rparr>) s;
              if ho_flags (hosts s h) AND HOST_ALIVE = 0 then
                do { s \<leftarrow> ncp_rst h s; when_rrp i App_open_rts App_open_fail s }
              else app_open_rts i s })"

definition app_listen :: "ncp \<Rightarrow> ncp option" where
  "app_listen s =
     (let socket = word_of_bytes (app s 1) (app s 2) (app s 3) (app s 4); sz = app s 5
      in if find_listen socket s \<noteq> - 1 then reply_listen 0 socket 0 0 s
         else let i = find_listen 0 s in
              if i = - 1 then reply_listen 0 socket 0 0 s
              else upd i (\<lambda>c. c\<lparr>client := cur_client s\<rparr>)
                     (s\<lparr>listening := (listening s)(i := \<lparr>l_sock = socket, l_size = sz\<rparr>)\<rparr>))"

definition app_read :: "ncp \<Rightarrow> ncp option" where
  "app_read s =
     (let i = uint (app s 1) in
      do { s \<leftarrow> upd i (\<lambda>c. (set_flags CONN_READ c)\<lparr>reader := cur_client s\<rparr>) s;
           c \<leftarrow> get i s;
           ncp_all (word_of_int (host c)) (word_of_int (link (rcv c))) 1 (8 * ucast (app s 2)) s })"

text \<open>
  The argument is \<open>n - 2\<close>, as an \<open>int\<close>; the comparison with a \<open>sizeof\<close> is unsigned, so a
  negative \<open>n\<close> is cut to the maximum as well.
\<close>

definition app_write :: "int \<Rightarrow> ncp \<Rightarrow> ncp option" where
  "app_write n s =
     (let i = uint (app s 1) in
      do { s \<leftarrow> upd i (\<lambda>c. (set_flags CONN_WRITE c)\<lparr>writer := cur_client s\<rparr>) s;
           let n = (if n < 0 \<or> n > int BUFFER_CAP - 5 then int BUFFER_CAP - 5 else n);
           when_all i (app s) APP_CAP 2 (8 * n) Send_data Send_data_timeout s })"

definition app_interrupt :: "ncp \<Rightarrow> ncp option" where
  "app_interrupt s =
     (let i = uint (app s 1) in
      do { c \<leftarrow> get i s; ncp_ins (word_of_int (host c)) (word_of_int (link (snd c))) s })"

definition app_close :: "ncp \<Rightarrow> ncp option" where
  "app_close s =
     (let i = uint (app s 1) in
      do { s \<leftarrow> upd i (\<lambda>c. set_snd_link (- 1) (set_rcv_link (- 1)
                 ((set_flags CONN_CLOSE (clear_flags CONN_APPS c))\<lparr>client := cur_client s\<rparr>))) s;
           c \<leftarrow> get i s;
           s \<leftarrow> ncp_cls (word_of_int (host c)) (lsock (rcv c)) (rsock (rcv c)) s;
           s \<leftarrow> ncp_cls (word_of_int (host c)) (lsock (snd c)) (rsock (snd c)) s;
           unless_cls i Cls_timeout s })"

text \<open>\<open>application\<close> after \<open>recvfrom\<close> gave the datagram \<open>bs\<close> from \<open>from\<close>.\<close>

definition receive_request :: "client_t \<Rightarrow> u8 list \<Rightarrow> ncp \<Rightarrow> ncp" where
  "receive_request sender bs s =
     s\<lparr>cur_client := sender, app := put_bytes 0 (take APP_CAP bs) (app s)\<rparr>"

definition application :: "client_t \<Rightarrow> u8 list \<Rightarrow> ncp \<Rightarrow> ncp option" where
  "application sender bs s =
     (let s = receive_request sender bs s; n = int (length (take APP_CAP bs)); code = app s 0
      in if \<not> wire_check code n then Some s
         else if code = WIRE_ECHO then app_echo s
         else if code = WIRE_OPEN then app_open s
         else if code = WIRE_LISTEN then app_listen s
         else if code = WIRE_READ then app_read s
         else if code = WIRE_WRITE then app_write (n - 2) s
         else if code = WIRE_INTERRUPT then app_interrupt s
         else if code = WIRE_CLOSE then app_close s
         else Some s)"

section \<open>The clock\<close>

text \<open>One test of \<open>tick\<close>: run the time-out \<open>to\<close> if it is set for this tick.\<close>

definition expire ::
    "(conn \<Rightarrow> handler option) \<Rightarrow> (conn \<Rightarrow> u64) \<Rightarrow> (u64 \<Rightarrow> conn \<Rightarrow> conn) \<Rightarrow> int \<Rightarrow> ncp \<Rightarrow> ncp option" where
  "expire to at clear i s =
     do { c \<leftarrow> get i s;
          (case to c of None \<Rightarrow> Some s
           | Some h \<Rightarrow> if at c = time_tick s
               then do { s \<leftarrow> upd i (clear (time_tick s)) s; run h i s } else Some s) }"

text \<open>What \<open>tick\<close> resets before it calls the time-out, for each of the five.\<close>

definition clear_rrp :: "u64 \<Rightarrow> conn \<Rightarrow> conn" where
  "clear_rrp now c = c\<lparr>rrp_callback := None, rrp_timeout := None, rrp_time := now - 1\<rparr>"

definition clear_rfnm :: "u64 \<Rightarrow> conn \<Rightarrow> conn" where
  "clear_rfnm now c = c\<lparr>rfnm_callback := None, rfnm_timeout := None, rrp_time := now - 1\<rparr>"

definition clear_all :: "u64 \<Rightarrow> conn \<Rightarrow> conn" where
  "clear_all now c = c\<lparr>all_callback := None, all_timeout := None, all_time := now - 1\<rparr>"

definition clear_rfc :: "u64 \<Rightarrow> conn \<Rightarrow> conn" where
  "clear_rfc now c = c\<lparr>rfc_timeout := None, rfc_time := now - 1\<rparr>"

definition clear_cls :: "u64 \<Rightarrow> conn \<Rightarrow> conn" where
  "clear_cls now c = c\<lparr>cls_timeout := None, cls_time := now - 1\<rparr>"

lemmas clear_defs = clear_rrp_def clear_rfnm_def clear_all_def clear_rfc_def clear_cls_def

definition tick_conn :: "int \<Rightarrow> ncp \<Rightarrow> ncp option" where
  "tick_conn i s =
     do { s \<leftarrow> expire rrp_timeout rrp_time clear_rrp i s;
          s \<leftarrow> expire rfnm_timeout rfnm_time clear_rfnm i s;
          s \<leftarrow> expire all_timeout all_time clear_all i s;
          s \<leftarrow> expire rfc_timeout rfc_time clear_rfc i s;
          expire cls_timeout cls_time clear_cls i s }"

definition tick_host :: "u8 \<Rightarrow> ncp \<Rightarrow> ncp option" where
  "tick_host h s =
     (if addr_len (echo (hosts s h)) = 0 then Some s
      else if erp_time (hosts s h) \<noteq> time_tick s then Some s
      else Some (clear_echo h (reply_echo h 0 0x20 s)))"

definition tick :: "ncp \<Rightarrow> ncp option" where
  "tick s =
     do { let s = s\<lparr>time_tick := time_tick s + 1\<rparr>;
          s \<leftarrow> for_each [0..CONNECTIONS - 1] tick_conn s;
          for_each (map word_of_nat [0..<256]) tick_host s }"

section \<open>Start and main loop\<close>

definition host_ready :: "bool \<Rightarrow> ncp \<Rightarrow> ncp option" where
  "host_ready flag s =
     do { (ds, st) \<leftarrow> imp_host_ready flag (imp s);
          Some (s\<lparr>imp := st, out := out s @ map To_imp ds\<rparr>) }"

definition send_nops :: "ncp \<Rightarrow> ncp option" where
  "send_nops s = do { s \<leftarrow> send_nop s; s \<leftarrow> send_nop s; send_nop s }"

definition ncp_reset :: "bool \<Rightarrow> ncp \<Rightarrow> ncp option" where
  "ncp_reset flap s =
     do { s \<leftarrow> reset s;
          s \<leftarrow> (if flap then do { s \<leftarrow> host_ready False s; host_ready True s } else Some s);
          send_nops s }"

text \<open>Static variables start out as zeros (a NULL function pointer is \<open>None\<close>).\<close>

definition zero_client :: client_t where "zero_client = \<lparr>sun_path = [], addr_len = 0\<rparr>"

definition zero_conn :: conn where
  "zero_conn = \<lparr>client = zero_client, reader = zero_client, writer = zero_client,
     host = 0, flags = 0, listen = 0, data_size = 0, all_msgs = 0, all_bits = 0,
     rcv = \<lparr>link = 0, bsize = 0, lsock = 0, rsock = 0\<rparr>,
     snd = \<lparr>link = 0, bsize = 0, lsock = 0, rsock = 0\<rparr>,
     rrp_callback = None, rrp_timeout = None, rrp_time = 0,
     rfnm_callback = None, rfnm_timeout = None, rfnm_time = 0,
     all_callback = None, all_timeout = None, all_time = 0,
     rfc_timeout = None, rfc_time = 0, cls_timeout = None, cls_time = 0,
     buffer = (\<lambda>_. 0), ptr = 0, wlength = 0, remaining = 0\<rparr>"

definition zero_ncp :: ncp where
  "zero_ncp = \<lparr>cur_client = zero_client, time_tick = 0, connection = (\<lambda>_. zero_conn),
     listening = (\<lambda>_. \<lparr>l_sock = 0, l_size = 0\<rparr>),
     hosts = (\<lambda>_. \<lparr>ho_flags = 0, echo = zero_client, erp_time = 0, outstanding_rfnm = 0\<rparr>),
     packet = (\<lambda>_. 0), app = (\<lambda>_. 0), imp = imp_init, imp_up = 0, out = []\<rparr>"

text \<open>\<open>main\<close> up to its loop.\<close>

definition start :: "ncp option" where
  "start = do { s \<leftarrow> host_ready True zero_ncp; ncp_reset False s }"

text \<open>After \<open>imp_receive_message\<close> returned: \<open>calls\<close> are the calls of \<open>ncp_imp_ready\<close>.\<close>

definition ncp_imp_ready :: "u16 \<Rightarrow> ncp \<Rightarrow> ncp" where
  "ncp_imp_ready flag s = s\<lparr>imp_up := flag\<rparr>"

definition from_imp :: "mem \<Rightarrow> int \<Rightarrow> imp_state \<Rightarrow> u16 list \<Rightarrow> ncp \<Rightarrow> ncp option" where
  "from_imp p n st calls s =
     (let s = fold ncp_imp_ready calls (s\<lparr>packet := p, imp := st\<rparr>)
      in if n > 0 then process_imp n s else Some s)"

inductive daemon_step :: "ncp \<Rightarrow> ncp \<Rightarrow> bool" where
  time_out: "tick s = Some t \<Longrightarrow> daemon_step s t"
| imp_message: "imp_receive_message PACKET_CAP (\<lambda>_. 0) (imp s) rs = Some (Rx_return p n st calls) \<Longrightarrow>
    from_imp p n st calls s = Some t \<Longrightarrow> daemon_step s t"
| request: "application sender bs s = Some t \<Longrightarrow> daemon_step s t"

inductive reachable :: "ncp \<Rightarrow> bool" where
  start: "start = Some s \<Longrightarrow> reachable s"
| step: "reachable s \<Longrightarrow> daemon_step s t \<Longrightarrow> reachable t"

inductive_cases daemon_stepE: "daemon_step s t"

end
