(* ===== verification/Ncp_Inv.thy ===== *)
theory Ncp_Inv
  imports Ncp_Main
begin

text \<open>
  The well-formedness of a connection, and a calculus for properties of the whole daemon. The
  locale \<open>daemon_relation\<close> lists what a relation between states must satisfy for the statements
  the handlers consist of; in it every handler is shown, once, to stay within the relation. Its
  interpretations (here for well-formedness, in \<open>Ncp_Flow\<close> for the bookkeeping of messages)
  then hold for all handlers.
\<close>

section \<open>Well-formed connections\<close>

definition half_ok :: "half \<Rightarrow> bool" where
  "half_ok h \<longleftrightarrow> - 1 \<le> link h \<and> link h \<le> 255 \<and> - 1 \<le> bsize h \<and> bsize h \<le> 255"

text \<open>Which functions can be stored in which field.\<close>

definition handlers_ok :: "conn \<Rightarrow> bool" where
  "handlers_ok c \<longleftrightarrow>
     set_option (rrp_callback c) \<subseteq> {App_open_rts} \<and>
     set_option (rrp_timeout c) \<subseteq> {App_open_fail} \<and>
     set_option (rfnm_callback c) \<subseteq>
       {Send_rts, Send_str, Send_str_and_rts, Send_cls_snd, Send_cls_rcv, Send_data_now} \<and>
     set_option (rfnm_timeout c) \<subseteq>
       {Send_cls_snd, Send_cls_rcv, Just_drop, Rfnm_timeout, Send_data_timeout} \<and>
     set_option (all_callback c) \<subseteq> {Send_socket, Send_data} \<and>
     set_option (all_timeout c) \<subseteq> {Send_socket_timeout, Send_data_timeout} \<and>
     set_option (rfc_timeout c) \<subseteq> {Just_drop, Rfc_timeout, App_open_rfc_failed} \<and>
     set_option (cls_timeout c) \<subseteq> {Cls_timeout, Just_drop}"

text \<open>
  The data that waits for an allocation lies in the buffer, with room for the five bytes of the
  message header in front of it. A request of an application brings at most 198 bytes.
\<close>

definition window_ok :: "conn \<Rightarrow> bool" where
  "window_ok c \<longleftrightarrow> 0 \<le> remaining c \<and> remaining c \<le> wlength c \<and> wlength c \<le> int APP_CAP - 2 \<and>
     (all_callback c \<noteq> None \<longrightarrow> ptr c = 5 + (wlength c - remaining c))"

text \<open>A free entry has no links and no allocation.\<close>

definition free_ok :: "conn \<Rightarrow> bool" where
  "free_ok c \<longleftrightarrow> (host c = - 1 \<longrightarrow> link (rcv c) = - 1 \<and> link (snd c) = - 1 \<and> all_msgs c < 1)"

definition wf_conn :: "conn \<Rightarrow> bool" where
  "wf_conn c \<longleftrightarrow> - 1 \<le> host c \<and> host c \<le> 255 \<and> half_ok (rcv c) \<and> half_ok (snd c) \<and>
     0 \<le> data_size c \<and> data_size c \<le> 255 \<and> handlers_ok c \<and> window_ok c \<and> free_ok c"

definition wf_ncp :: "ncp \<Rightarrow> bool" where
  "wf_ncp s \<longleftrightarrow> (\<forall>i. 0 \<le> i \<and> i < CONNECTIONS \<longrightarrow> wf_conn (connection s i))"

lemmas wf_defs = wf_conn_def half_ok_def handlers_ok_def window_ok_def free_ok_def

lemma wfD: "wf_ncp s \<Longrightarrow> 0 \<le> i \<Longrightarrow> i < CONNECTIONS \<Longrightarrow> wf_conn (connection s i)"
  by (simp add: wf_ncp_def)

lemma get_SomeD: "get i s = Some c \<Longrightarrow> 0 \<le> i \<and> i < CONNECTIONS \<and> c = connection s i"
  by (simp add: get_def split: if_splits)

lemma get_wf: "get i s = Some c \<Longrightarrow> wf_ncp s \<Longrightarrow> wf_conn c"
  by (auto dest: get_SomeD wfD)

lemma get_defined [defined_intros]: "0 \<le> i \<Longrightarrow> i < CONNECTIONS \<Longrightarrow> get i s \<noteq> None"
  by (simp add: get_def)

lemma upd_defined [defined_intros]: "0 \<le> i \<Longrightarrow> i < CONNECTIONS \<Longrightarrow> upd i f s \<noteq> None"
  by (simp add: upd_def)

lemma host_setters [simp]:
  "host (set_flags m c) = host c" "host (clear_flags m c) = host c" "host (set_rcv_size v c) = host c"
  "host (set_snd_size v c) = host c" "host (set_rcv_link v c) = host c" "host (set_snd_link v c) = host c"
  by (simp_all add: setter_defs)

text \<open>An entry that was just taken, and one that a look-up found, belong to a host.\<close>

lemma make_open_taken:
  "make_open h rl rr sl sr s = Some (j, t) \<Longrightarrow> 0 \<le> j \<Longrightarrow> 0 \<le> h \<Longrightarrow> host (connection t j) \<noteq> - 1"
  by (auto simp: make_open_def Let_def bind_eq_Some_conv upd_def open_conn_def split: if_splits)

lemma find_taken:
  assumes "0 \<le> h"
  shows "find_snd_sockets h ls rs s \<noteq> - 1 \<Longrightarrow> host (connection s (find_snd_sockets h ls rs s)) \<noteq> - 1"
    and "find_link h l s \<noteq> - 1 \<Longrightarrow> host (connection s (find_link h l s)) \<noteq> - 1"
  unfolding find_snd_sockets_def find_link_def Let_def by (insert assms, (drule scan_hit; auto)+)

text \<open>The assignments of the handlers keep a connection well-formed.\<close>

lemma wf_setters [simp]:
  "wf_conn (set_flags m c) = wf_conn c"
  "wf_conn (clear_flags m c) = wf_conn c"
  "wf_conn c \<Longrightarrow> - 1 \<le> v \<Longrightarrow> v \<le> 255 \<Longrightarrow> wf_conn (set_rcv_size v c)"
  "wf_conn c \<Longrightarrow> - 1 \<le> v \<Longrightarrow> v \<le> 255 \<Longrightarrow> wf_conn (set_snd_size v c)"
  "wf_conn c \<Longrightarrow> - 1 \<le> v \<Longrightarrow> v \<le> 255 \<Longrightarrow> host c \<noteq> - 1 \<or> v = - 1 \<Longrightarrow> wf_conn (set_rcv_link v c)"
  "wf_conn c \<Longrightarrow> - 1 \<le> v \<Longrightarrow> v \<le> 255 \<Longrightarrow> host c \<noteq> - 1 \<or> v = - 1 \<Longrightarrow> wf_conn (set_snd_link v c)"
  "wf_conn (c\<lparr>listen := l\<rparr>) = wf_conn c"
  "wf_conn (c\<lparr>client := a\<rparr>) = wf_conn c"
  "wf_conn (c\<lparr>reader := a\<rparr>) = wf_conn c"
  "wf_conn (c\<lparr>writer := a\<rparr>) = wf_conn c"
  "wf_conn (c\<lparr>buffer := b\<rparr>) = wf_conn c"
  "wf_conn c \<Longrightarrow> wf_conn (c\<lparr>rfc_timeout := None\<rparr>)"
  "wf_conn c \<Longrightarrow> wf_conn (destroy_conn c)"
  "wf_conn c \<Longrightarrow> 0 \<le> h \<Longrightarrow> h \<le> 255 \<Longrightarrow> wf_conn (open_conn h rl rr sl sr now c)"
  by (auto simp: wf_defs setter_defs destroy_conn_def open_conn_def)

lemma u8_ge_minus1 [simp]: "- 1 \<le> uint (x :: u8)"
  using uint_ge_0 [of x] by linarith

text \<open>A reply that the library takes: an even code, and the size that goes with it.\<close>

definition typed_reply :: "u8 list \<Rightarrow> bool" where
  "typed_reply bs \<longleftrightarrow> bs \<noteq> [] \<and> even (uint (hd bs)) \<and> wire_check (hd bs) (int (length bs))"

lemma typed_replies [simp]:
  "typed_reply [2, a, b, c]" "typed_reply (4 # a # bytes_of x @ [b, c, d])" "typed_reply (6 # a # bytes_of x @ [b, c])"
  "typed_reply (8 # bs)" "typed_reply [10, a, b, c]" "typed_reply [14, a]"
  by (simp_all add: typed_reply_def wire_check_def)

lemma read_reply_head:
  "typed_reply (get_bytes 0 (Suc (Suc n)) (put_bytes 2 bs (put_bytes 0 [8, i] m)))"
proof -
  have "get_bytes 0 (Suc (Suc n)) z = z 0 # get_bytes 1 (Suc n) z" for z
    using get_bytes_append [of 0 1 "Suc n" z] by (simp add: get_bytes_def)
  then show ?thesis by (simp add: put_bytes_def)
qed

section \<open>The calculus\<close>

locale daemon_relation =
  fixes R :: "ncp \<Rightarrow> ncp \<Rightarrow> bool"
  assumes R_refl: "R s s"
    and R_trans: "R s t \<Longrightarrow> R t u \<Longrightarrow> R s u"
    and R_conn: "0 \<le> i \<Longrightarrow> i < CONNECTIONS \<Longrightarrow> (wf_ncp s \<Longrightarrow> wf_conn c) \<Longrightarrow>
      R s (s\<lparr>connection := (connection s)(i := c)\<rparr>)"
    and R_host: "(\<And>x. outstanding_rfnm (f x) = outstanding_rfnm x) \<Longrightarrow> R s (upd_host h f s)"
    and R_listening: "R s (s\<lparr>listening := (listening s)(k := le)\<rparr>)"
    and R_packet: "R s (s\<lparr>packet := p\<rparr>)"
    and R_reply: "typed_reply bs \<Longrightarrow> R s (s\<lparr>out := out s @ [To_app a bs]\<rparr>)"
    and R_send: "ty = IMP_REGULAR \<or> ty = IMP_LEADER_ERROR \<Longrightarrow> (wf_ncp s \<Longrightarrow> 2 \<le> w) \<Longrightarrow>
      send_imp 0 ty d l m st data w s = Some t \<Longrightarrow> R s t"
begin

named_theorems frame

lemma w_bind [frame]:
  "within R s r \<Longrightarrow> (\<And>t. r = Some t \<Longrightarrow> within R t (f t)) \<Longrightarrow> within R s (Option.bind r f)"
  by (auto simp: within_def bind_eq_Some_conv intro: R_trans)

lemma w_bind_pair [frame]:
  "within2 R s r \<Longrightarrow> (\<And>v t. r = Some (v, t) \<Longrightarrow> within R t (f v t)) \<Longrightarrow>
   within R s (Option.bind r (case_prod f))"
  by (fastforce simp: within_def within2_def bind_eq_Some_conv intro: R_trans)

lemma w2_bind [frame]:
  "within R s r \<Longrightarrow> (\<And>t. r = Some t \<Longrightarrow> within2 R t (f t)) \<Longrightarrow> within2 R s (Option.bind r f)"
  by (fastforce simp: within_def within2_def bind_eq_Some_conv intro: R_trans)

lemma w2_bind_pair [frame]:
  "within2 R s r \<Longrightarrow> (\<And>v t. r = Some (v, t) \<Longrightarrow> within2 R t (f v t)) \<Longrightarrow>
   within2 R s (Option.bind r (case_prod f))"
  by (fastforce simp: within2_def bind_eq_Some_conv intro: R_trans)

lemma w_bind_conn [frame]:
  fixes r :: "conn option"
  shows "(\<And>c. r = Some c \<Longrightarrow> within R s (f c)) \<Longrightarrow> within R s (Option.bind r f)"
  by (auto simp: within_def bind_eq_Some_conv)

lemma w2_bind_conn [frame]:
  fixes r :: "conn option"
  shows "(\<And>c. r = Some c \<Longrightarrow> within2 R s (f c)) \<Longrightarrow> within2 R s (Option.bind r f)"
  by (auto simp: within2_def bind_eq_Some_conv)

lemma w_bind_args [frame]:
  fixes r :: "(nat \<Rightarrow> u8) option"
  shows "(\<And>d. r = Some d \<Longrightarrow> within R s (f d)) \<Longrightarrow> within R s (Option.bind r f)"
  by (auto simp: within_def bind_eq_Some_conv)

lemma w2_bind_args [frame]:
  fixes r :: "(nat \<Rightarrow> u8) option"
  shows "(\<And>d. r = Some d \<Longrightarrow> within2 R s (f d)) \<Longrightarrow> within2 R s (Option.bind r f)"
  by (auto simp: within2_def bind_eq_Some_conv)

lemmas w_basic [frame] = within_if within2_if

lemma w_Some [frame]: "within R s (Some s)"
  by (simp add: R_refl)

lemma w2_Some [frame]: "within2 R s (Some (v, s))"
  by (simp add: R_refl)

lemma w_no [frame]: "within R s None"
  by simp

lemma w_SomeI: "R s t \<Longrightarrow> within R s (Some t)"
  by simp

lemma w_option [frame]:
  "(r = None \<Longrightarrow> within R s x) \<Longrightarrow> (\<And>v. r = Some v \<Longrightarrow> within R s (f v)) \<Longrightarrow>
   within R s (case r of None \<Rightarrow> x | Some v \<Rightarrow> f v)"
  by (cases r) auto

lemma w_nat [frame]:
  "(n = 0 \<Longrightarrow> within R s x) \<Longrightarrow> (\<And>m. n = Suc m \<Longrightarrow> within R s (f m)) \<Longrightarrow>
   within R s (case n of 0 \<Rightarrow> x | Suc m \<Rightarrow> f m)"
  by (cases n) auto

text \<open>Starting from a state that a change without effect on \<open>R\<close> leads to.\<close>

lemma w_from: "R s t \<Longrightarrow> within R t r \<Longrightarrow> within R s r"
  by (auto simp: within_def intro: R_trans)

lemma w_packet: "within R (s\<lparr>packet := p\<rparr>) r \<Longrightarrow> within R s r"
  by (rule w_from [OF R_packet])

lemma w_write_packet: "within R (write_packet off bs s) r \<Longrightarrow> within R s r"
  unfolding write_packet_def by (rule w_packet)

lemma w_upd [frame]: "(0 \<le> i \<Longrightarrow> i < CONNECTIONS \<Longrightarrow> wf_ncp s \<Longrightarrow> wf_conn (connection s i) \<Longrightarrow> wf_conn (f (connection s i))) \<Longrightarrow>
   within R s (upd i f s)"
  by (auto simp: upd_def within_def intro!: R_conn dest: wfD)

lemma w_for_each: "(\<And>x s. x \<in> set xs \<Longrightarrow> within R s (f x s)) \<Longrightarrow> within R s (for_each xs f s)"
proof (induction xs arbitrary: s)
  case Nil
  then show ?case by (simp add: R_refl)
next
  case (Cons x xs)
  then show ?case by (auto intro!: w_bind)
qed

subsection \<open>Sending\<close>

lemma w_send_imp [frame]:
  "(wf_ncp s \<Longrightarrow> 2 \<le> w) \<Longrightarrow> within R s (send_imp 0 IMP_REGULAR d l m st data w s)"
  "(wf_ncp s \<Longrightarrow> 2 \<le> w) \<Longrightarrow> within R s (send_imp 0 IMP_LEADER_ERROR d l m st data w s)"
  using R_send unfolding within_def by blast+

lemma w_send_ncp [frame]: "within R s (send_ncp d b n ty s)"
  unfolding send_ncp_def Let_def
  by (rule w_write_packet, rule w_send_imp) (use uint_ge_0 [of n] in linarith)

lemma w_commands [frame]:
  "within R s (ncp_str d ls rs z s)" "within R s (ncp_rts d ls rs l s)"
  "within R s (ncp_all d l ms b s)" "within R s (ncp_ins d l s)" "within R s (ncp_cls d ls rs s)"
  "within R s (ncp_erp d x s)"
  unfolding ncp_command_defs by (rule w_write_packet, rule w_send_ncp)+

lemma w_eco [frame]: "within R s (ncp_eco d x s)"
  unfolding ncp_eco_def by (rule w_packet, rule w_write_packet, rule w_send_ncp)

lemma w_rst_rrp [frame]: "within R s (ncp_rst d s)" "within R s (ncp_rrp d s)"
  unfolding ncp_rst_def ncp_rrp_def by (rule w_send_ncp)+

lemma w_err [frame]: "within R s (ncp_err d code src n s)"
  unfolding ncp_err_def Let_def
proof (rule w_write_packet [of 22 "[code]"])
  let ?s = "write_packet 22 [code] s"
  show "within R ?s (Option.bind
      (memcpy_within PACKET_CAP 23 src (if 10 < n then 10 else n) (packet ?s)) (\<lambda>p.
        send_ncp d 8 12 NCP_ERR (?s\<lparr>packet := if n < 10
          then put_bytes (23 + nat n) (replicate (nat (10 - n)) 0) p else p\<rparr>)))"
    by (auto simp: within_def bind_eq_Some_conv
        intro: withinD [OF w_packet [OF w_send_ncp]])
qed

subsection \<open>Handlers\<close>

lemma w_waiting [frame]:
  "cb = App_open_rts \<and> to = App_open_fail \<Longrightarrow> within R s (when_rrp i cb to s)"
  "to \<in> {Just_drop, Rfc_timeout, App_open_rfc_failed} \<Longrightarrow> within R s (unless_rfc i to s)"
  "to \<in> {Cls_timeout, Just_drop} \<Longrightarrow> within R s (unless_cls i to s)"
  "cb \<in> {Send_rts, Send_str, Send_str_and_rts, Send_cls_snd, Send_cls_rcv, Send_data_now} \<and>
   to \<in> {Send_cls_snd, Send_cls_rcv, Just_drop, Rfnm_timeout, Send_data_timeout} \<Longrightarrow>
   within R s (when_rfnm i cb to s)"
  unfolding when_rrp_def unless_rfc_def unless_cls_def when_rfnm_def
  by (rule w_upd; force simp: wf_defs)+

lemma w_destroy [frame]: "within R s (destroy i s)"
  unfolding destroy_def by (rule w_upd) simp

lemma w_make_open [frame]: "0 \<le> h \<Longrightarrow> h \<le> 255 \<Longrightarrow> within2 R s (make_open h rl rr sl sr s)"
  unfolding make_open_def Let_def by (intro frame) simp_all

lemma w_deliver: "typed_reply bs \<Longrightarrow> R s (deliver a bs s)"
  by (simp add: deliver_def R_reply)

lemma w_reply_open [frame]: "within R s (reply_open h k i z e s)"
  unfolding reply_open_def by (intro frame w_SomeI w_deliver; simp)

lemma w_reply_listen [frame]: "within R s (reply_listen h k i z s)"
  unfolding reply_listen_def by (intro frame w_SomeI w_deliver; simp)

lemma w_reply_close [frame]: "within R s (reply_close i s)"
  unfolding reply_close_def by (intro frame w_SomeI w_deliver; simp)

lemma w_reply_write [frame]: "within R s (reply_write i n s)"
  unfolding reply_write_def by (intro frame w_SomeI w_deliver; simp)

lemma w_reply_read [frame]: "within R s (reply_read i src n s)"
  unfolding reply_read_def
  by (intro frame w_SomeI w_deliver) (auto simp: memcpy_eq_Some read_reply_head)

lemma w_maybe_reply [frame]: "within R s (maybe_reply i s)"
  unfolding maybe_reply_def by (intro frame) (auto simp: wf_defs)

end

end
