(* ===== verification/Ncp_Frame.thy ===== *)
theory Ncp_Frame
  imports Ncp_Inv
begin

text \<open>
  Every handler of the daemon stays within a \<open>daemon_relation\<close>; with a few more laws, so does
  every step of the main loop. The first interpretation is the well-formedness of the state.
\<close>

lemma send_imp_connection:
  "send_imp fl ty d l m st data w s = Some t \<Longrightarrow> connection t = connection s"
  by (auto simp: send_imp_def Let_def bind_eq_Some_conv count_regular_def upd_host_def
      write_packet_def split: option.splits if_splits prod.splits)

lemma upd_SomeD:
  "upd i f s = Some t \<Longrightarrow> 0 \<le> i \<and> i < CONNECTIONS \<and>
     t = s\<lparr>connection := (connection s)(i := f (connection s i))\<rparr>"
  by (simp add: upd_def split: if_splits)

lemma sendable_bounds:
  "wf_conn c \<Longrightarrow> 8 \<le> all_bits c \<Longrightarrow> 0 \<le> sendable c \<and> sendable c \<le> remaining c"
  by (auto simp: wf_defs sendable_def)

lemma data_size_bounds:
  "get i s = Some c \<Longrightarrow> wf_ncp s \<Longrightarrow> - 1 \<le> data_size c"
  "get i s = Some c \<Longrightarrow> wf_ncp s \<Longrightarrow> data_size c \<le> 255"
  by (auto dest: get_wf simp: wf_conn_def)

lemma make_open_data_size:
  "make_open h rl rr sl sr s = Some (j, t) \<Longrightarrow> data_size (connection t i) = data_size (connection s i)"
  by (auto simp: make_open_def Let_def bind_eq_Some_conv upd_def open_conn_def split: if_splits)

lemma data_size_bounds_open:
  assumes "get i s = Some c" and "make_open h rl rr sl sr s = Some (j, t)" and "wf_ncp t"
  shows "- 1 \<le> data_size c" and "data_size c \<le> 255"
proof -
  have "get i t = Some (connection t i)" "data_size (connection t i) = data_size c"
    using assms(1) make_open_data_size [OF assms(2), of i] by (auto simp: get_def split: if_splits)
  then show "- 1 \<le> data_size c" and "data_size c \<le> 255"
    using data_size_bounds [of i t, OF _ assms(3)] by simp_all
qed

lemma wf_advance:
  "wf_conn c \<Longrightarrow> 0 \<le> n \<Longrightarrow> n \<le> remaining c \<Longrightarrow> a \<le> all_msgs c \<Longrightarrow>
   wf_conn (c\<lparr>all_msgs := a, all_bits := b, remaining := remaining c - n, ptr := ptr c + n\<rparr>)"
  by (auto simp: wf_defs)

lemma wf_clear [simp]:
  "wf_conn c \<Longrightarrow> wf_conn (clear_rrp now c)" "wf_conn c \<Longrightarrow> wf_conn (clear_rfnm now c)"
  "wf_conn c \<Longrightarrow> wf_conn (clear_all now c)" "wf_conn c \<Longrightarrow> wf_conn (clear_rfc now c)"
  "wf_conn c \<Longrightarrow> wf_conn (clear_cls now c)"
  by (simp_all add: clear_defs wf_defs)

context daemon_relation
begin

lemma w_send_cls [frame]:
  "within R s (send_cls_snd i s)" "within R s (send_cls_rcv i s)"
  "within R s (send_socket_timeout i s)"
  unfolding send_cls_snd_def send_cls_rcv_def send_socket_timeout_def by (intro frame; simp)+

lemma w_give_up_reply [frame]: "within R s (give_up_reply i c s)"
  unfolding give_up_reply_def by (intro frame)

lemma w_drop [frame]: "within R s (do_cls_timeout i s)" "within R s (just_drop i s)"
  unfolding do_cls_timeout_def just_drop_def by (intro frame)+

lemma w_rfc_timeout [frame]: "within R s (do_rfc_timeout i s)"
  unfolding do_rfc_timeout_def
  by (intro frame; (simp | (auto simp: wf_defs setter_defs)))

lemma w_cls_and_drop [frame]: "within R s (cls_and_drop i s)" "within R s (do_rfnm_timeout i s)"
  unfolding do_rfnm_timeout_def cls_and_drop_def by (intro frame; simp)+

lemma w_requests [frame]:
  "within R s (send_rts i s)" "within R s (send_str i s)" "within R s (send_icp_str i s)"
  unfolding send_rts_def send_str_def send_icp_str_def by (intro frame; simp)+

lemma w_app_handlers [frame]:
  "within R s (app_open_rfc_failed i s)" "within R s (app_open_rts i s)"
  "within R s (app_open_fail i s)" "within R s (send_data_timeout i s)"
  "within R s (send_data_now i s)" "within R s (send_data i s)"
  unfolding app_open_rfc_failed_def app_open_rts_def app_open_fail_def send_data_timeout_def
    send_data_now_def send_data_def
  by (intro frame; simp)+

lemma w_call_check:
  "within R s (call n cb i s)"
  "within R s (check_rfnm_loop n h is s)"
proof (induction n cb i s and n h "is" s rule: call_check_rfnm_loop.induct)
  case (1 n i s)
  show ?case unfolding call.simps Let_def by (intro frame 1; simp)
next
  case (2 n i s)
  show ?case unfolding call.simps by (intro frame 2; simp)
next
  case (19 n h i "is" s)
  show ?case unfolding check_rfnm_loop.simps
    by (intro frame 19; (assumption | simp add: wf_defs)?)
qed (auto intro!: frame R_refl)

lemmas w_call [frame] = w_call_check(1)

lemma w_run [frame]: "within R s (run h i s)" "within R s (check_rfnm k s)"
  unfolding run_def check_rfnm_def by (rule w_call_check)+

lemma w_check_rrp [frame]: "within R s (check_rrp h s)"
  unfolding check_rrp_def by (intro w_for_each frame) (auto simp: wf_defs)

lemma w_check_all [frame]: "within R s (check_all i s)"
proof -
  have step: "within R s2 (upd i (\<lambda>c. c\<lparr>all_msgs := all_msgs c - 1,
      all_bits := all_bits c - z c, remaining := remaining c - n, ptr := ptr c + n\<rparr>) s2)"
    if c: "get i s = Some c" and b: "\<not> all_bits c < 8" and n: "n = sendable c"
      and u: "upd i (\<lambda>c. c\<lparr>buffer := bf\<rparr>) s = Some s1"
      and v: "send_imp fl ty d l m st data w s1 = Some s2"
    for c n bf s1 s2 fl ty d l m st data w z
  proof (rule w_upd)
    assume "wf_conn (connection s2 i)"
    moreover have "connection s2 i = c\<lparr>buffer := bf\<rparr>"
      using c u v by (auto dest!: get_SomeD upd_SomeD send_imp_connection)
    ultimately have "wf_conn c" "connection s2 i = c\<lparr>buffer := bf\<rparr>" by simp_all
    then show "wf_conn ((connection s2 i)\<lparr>all_msgs := all_msgs (connection s2 i) - 1,
        all_bits := all_bits (connection s2 i) - z (connection s2 i),
        remaining := remaining (connection s2 i) - n, ptr := ptr (connection s2 i) + n\<rparr>)"
      using sendable_bounds [of c] wf_advance [of "c\<lparr>buffer := bf\<rparr>" n] b n by simp
  qed
  have words: "2 \<le> 2 + (sendable c + 6) div 2"
    if "get i s = Some c" "\<not> all_bits c < 8" "upd i (\<lambda>c. c\<lparr>buffer := bf\<rparr>) s = Some s1" "wf_ncp s1"
    for c bf s1
  proof -
    have "wf_conn (c\<lparr>buffer := bf\<rparr>)"
      using that wfD [of s1 i] by (auto dest!: get_SomeD upd_SomeD)
    then show ?thesis using sendable_bounds [of c] that(2) by simp
  qed
  note w_upd [frame del]
  show ?thesis
    unfolding check_all_def Let_def
    by (intro frame) ((rule step; (assumption | rule refl)) | (rule words; assumption) |
        (rule w_upd, simp add: wf_defs))+
qed

lemma w_when_all [frame]:
  assumes "cb \<in> {Send_socket, Send_data}" "to \<in> {Send_socket_timeout, Send_data_timeout}"
    and "0 \<le> bits" and "cap \<le> off + 198"
  shows "within R s (when_all i src cap off bits cb to s)"
proof -
  have o: "0 \<le> c_div (bits + 7) 8" using assms(3) by (simp add: c_div_pos)
  show ?thesis
    unfolding when_all_def Let_def
    by (intro frame) (use assms o in \<open>auto simp: memcpy_eq_Some wf_defs\<close>)
qed

lemma w_for_each_frame [frame]:
  "(\<And>x s. within R s (f x s)) \<Longrightarrow> within R s (for_each xs f s)"
  by (rule w_for_each)

lemma w_rts_parts [frame]:
  "within R s (rts_listening source ls rs l k s)" "within R s (refuse source ls rs s)" "within R s (rts_client source ls rs l i s)"
  unfolding rts_listening_def refuse_def rts_client_def Let_def
  by (intro frame; (simp add: data_size_bounds make_open_taken))+

lemma w_rts_existing [frame]:
  "host (connection s i) \<noteq> - 1 \<Longrightarrow> within R s (rts_existing l i s)"
  unfolding rts_existing_def by (intro frame; simp)

lemma w_str_parts [frame]:
  "within R s (str_existing source z i s)" "within R s (str_client source ls rs z i s)"
  unfolding str_existing_def str_client_def
  by (intro frame; (simp add: data_size_bounds make_open_taken))+

lemma w_cls_parts [frame]:
  "within R s (cls_rcv ls rs i s)" "within R s (cls_snd ls rs i s)"
  "within R s (cls_finish source rs i s)"
  unfolding cls_rcv_def cls_snd_def cls_finish_def by (intro frame; simp)+

lemma wf_add_allocation: "host c \<noteq> - 1 \<Longrightarrow> wf_conn (add_allocation m b c) = wf_conn c"
  by (simp add: add_allocation_def wf_defs)

lemma w_process_table [frame]:
  "within2 R s (process_rts source off s)" "within2 R s (process_str source off s)"
  "within2 R s (process_cls source off s)" "within2 R s (process_all source off s)"
  unfolding process_rts_def process_str_def process_cls_def process_all_def Let_def
  by (intro frame; simp add: wf_add_allocation find_taken)+

lemma w_process_on_link [frame]: "within2 R s (process_on_link e n source off s)"
  unfolding process_on_link_def Let_def by (intro frame)

lemma R_clear_echo: "R s (clear_echo h s)"
  unfolding clear_echo_def by (rule R_host) simp

lemma R_reply_echo: "R s (reply_echo h d e s)"
  unfolding reply_echo_def by (rule w_deliver) simp

lemma R_fail_echo: "R s (fail_echo h e s)"
  unfolding fail_echo_def by (auto intro: R_refl R_trans [OF R_reply_echo R_clear_echo])

lemma R_set_alive: "R s (set_alive h s)"
  unfolding set_alive_def by (rule R_host) simp

lemma w_reset_host [frame]: "within R s (reset_host h s)"
  unfolding reset_host_def by (intro frame)

lemma w_process_host [frame]:
  "within2 R s (process_nop source off s)" "within2 R s (process_eco source off s)"
  "within2 R s (process_erp source off s)" "within2 R s (process_err source off s)"
  "within2 R s (process_rst source off s)" "within2 R s (process_rrp source off s)"
proof -
  show "within2 R s (process_nop source off s)" "within2 R s (process_eco source off s)"
    "within2 R s (process_err source off s)"
    unfolding process_nop_def process_eco_def process_err_def Let_def by (intro frame; simp)+
  show "within2 R s (process_erp source off s)"
    unfolding process_erp_def
    by (intro w2_bind_args) (simp add: R_trans [OF R_reply_echo R_clear_echo])
  have "R s (fail_echo source 0x10 (set_alive source s))"
    by (rule R_trans [OF R_set_alive R_fail_echo])
  then show "within2 R s (process_rst source off s)"
    unfolding process_rst_def by (intro w2_bind w_from [OF _ w_reset_host] frame)
  show "within2 R s (process_rrp source off s)"
    unfolding process_rrp_def
    by (intro w2_bind w_from [OF R_set_alive w_check_rrp] frame)
qed

lemma w_ncp_message [frame]: "within2 R s (ncp_message ty source off s)"
  unfolding ncp_message_def process_gvb_def process_ret_def process_inr_def process_ins_def
  by (auto intro!: frame)

lemma w_process_ncp_loop: "within R s (process_ncp_loop source off count i s)"
proof (induction source off count i s rule: process_ncp_loop.induct)
  case (1 source off count i s)
  show ?case
    unfolding process_ncp_loop.simps [of source off count i s]
    by (intro frame) (rule 1; (assumption | rule refl | simp))+
qed

lemma w_process_ncp [frame]: "within R s (process_ncp source off count s)"
  unfolding process_ncp_def by (rule w_process_ncp_loop)

lemma w_icp_data [frame]: "within R s (icp_data source i s)"
  unfolding icp_data_def Let_def
  by (intro frame; (simp add: data_size_bounds_open make_open_taken))

lemma w_process_regular [frame]: "within R s (process_regular s)"
  unfolding process_regular_def Let_def by (intro frame)

lemma w_process_host_dead [frame]: "within R s (process_host_dead s)"
  unfolding process_host_dead_def Let_def
  by (intro w_from [OF R_trans [OF R_fail_echo R_host] w_reset_host]) simp

lemma w_leader_error [frame]: "within R s (send_leader_error e s)"
  unfolding send_leader_error_def by (rule w_send_imp) simp

lemma w_app_requests [frame]:
  "within R s (app_echo s)" "within R s (app_open s)" "within R s (app_listen s)"
  "within R s (app_read s)" "within R s (app_write n s)" "within R s (app_interrupt s)"
  "within R s (app_close s)"
proof -
  show "within R s (app_echo s)"
    unfolding app_echo_def Let_def
    by (intro within_if w_SomeI R_reply_echo w_from [OF R_host w_eco]) simp
  show "within R s (app_open s)"
    unfolding app_open_def Let_def
    by (intro frame) (auto simp: wf_defs setter_defs intro: order_trans [OF _ u8_le] dest: make_open_taken)
  show "within R s (app_listen s)"
    unfolding app_listen_def Let_def
    by (intro within_if w_reply_listen w_from [OF R_listening w_upd]) simp
  show "within R s (app_read s)"
    unfolding app_read_def Let_def by (intro frame; simp)
  show "within R s (app_write n s)"
    unfolding app_write_def Let_def by (intro frame; simp)
  show "within R s (app_interrupt s)"
    unfolding app_interrupt_def Let_def by (intro frame)
  show "within R s (app_close s)"
    unfolding app_close_def Let_def by (intro frame; simp)
qed

lemma w_expire:
  "(\<And>now c. wf_conn c \<Longrightarrow> wf_conn (clear now c)) \<Longrightarrow> within R s (expire to at clear i s)"
  unfolding expire_def by (intro frame) simp

lemma w_tick_conn [frame]: "within R s (tick_conn i s)"
  unfolding tick_conn_def by (intro w_bind w_expire) simp_all

lemma w_tick_host [frame]: "within R s (tick_host h s)"
  unfolding tick_host_def
  by (auto intro: R_refl R_trans [OF R_reply_echo R_clear_echo])

end

lemma fold_imp_ready: "\<exists>u. fold ncp_imp_ready calls s = s\<lparr>imp_up := u\<rparr>"
proof (induction calls arbitrary: s)
  case Nil
  have "s = s\<lparr>imp_up := imp_up s\<rparr>" by simp
  then show ?case by (metis fold_simps(1))
next
  case (Cons a calls)
  show ?case using Cons [of "s\<lparr>imp_up := a\<rparr>"] by (auto simp: ncp_imp_ready_def)
qed

text \<open>
  A \<open>daemon_invariant\<close> also allows what only the main loop does: RFNMs and resets change the host
  table, the clock ticks, and the input buffers are filled.
\<close>

locale daemon_invariant = daemon_relation +
  assumes R_hosts: "R s (s\<lparr>hosts := hs\<rparr>)"
    and R_clock: "R s (s\<lparr>time_tick := n\<rparr>)"
    and R_request: "R s (s\<lparr>cur_client := a, app := b\<rparr>)"
    and R_input: "R s (s\<lparr>packet := p, imp := st, imp_up := u\<rparr>)"
begin

lemma R_upd_host: "R s (upd_host h f s)"
  unfolding upd_host_def by (rule R_hosts)

lemma w_process_imp [frame]: "within R s (process_imp n s)"
  unfolding process_imp_def process_rfnm_def Let_def
  by (intro within_if frame w_from [OF R_upd_host w_run(2)])

lemma R_receive_request: "R s (receive_request sender bs s)"
  unfolding receive_request_def by (rule R_request)

lemma w_application [frame]: "within R s (application sender bs s)"
  unfolding application_def Let_def
  by (rule w_from [OF R_receive_request [of s sender bs]]) (intro frame)

lemma w_tick [frame]: "within R s (tick s)"
  unfolding tick_def Let_def
  by (rule w_from [OF R_clock [of s "time_tick s + 1"]]) (intro frame)

lemma w_from_imp [frame]: "within R s (from_imp p n st calls s)"
proof -
  obtain u where "fold ncp_imp_ready calls (s\<lparr>packet := p, imp := st\<rparr>) =
      s\<lparr>packet := p, imp := st, imp_up := u\<rparr>"
    using fold_imp_ready [of calls "s\<lparr>packet := p, imp := st\<rparr>"] by auto
  then show ?thesis
    unfolding from_imp_def Let_def
    by (simp only:) (rule w_from [OF R_input [of s u st p]], intro frame)
qed

lemma step_within: "daemon_step s t \<Longrightarrow> R s t"
  by (induction rule: daemon_step.induct) (auto dest: withinD [OF w_tick] withinD [OF w_from_imp]
      withinD [OF w_application])

end

section \<open>Every state of the daemon is well-formed\<close>

lemma wf_cong: "connection t = connection s \<Longrightarrow> wf_ncp t = wf_ncp s"
  by (simp add: wf_ncp_def)

lemma wf_other_fields [simp]:
  "wf_ncp (s\<lparr>hosts := hs\<rparr>) = wf_ncp s" "wf_ncp (s\<lparr>listening := ls\<rparr>) = wf_ncp s" "wf_ncp (s\<lparr>packet := p\<rparr>) = wf_ncp s"
  "wf_ncp (s\<lparr>imp := st\<rparr>) = wf_ncp s" "wf_ncp (s\<lparr>imp_up := u\<rparr>) = wf_ncp s" "wf_ncp (s\<lparr>time_tick := n\<rparr>) = wf_ncp s"
  "wf_ncp (s\<lparr>cur_client := a\<rparr>) = wf_ncp s" "wf_ncp (s\<lparr>app := b\<rparr>) = wf_ncp s" "wf_ncp (s\<lparr>out := es\<rparr>) = wf_ncp s"
  by (simp_all add: wf_ncp_def)

lemma wf_upd_conn: "wf_ncp s \<Longrightarrow> wf_conn c \<Longrightarrow> wf_ncp (s\<lparr>connection := (connection s)(i := c)\<rparr>)"
  by (simp add: wf_ncp_def)

interpretation wf_rel: daemon_invariant "\<lambda>s t. wf_ncp s \<longrightarrow> wf_ncp t"
proof unfold_locales
  fix s t ty d l m st data w
  assume "send_imp 0 ty d l m st data w s = Some t"
  then show "wf_ncp s \<longrightarrow> wf_ncp t" using wf_cong [OF send_imp_connection] by blast
qed (auto simp: wf_upd_conn upd_host_def)

lemma destroy_wf: "destroy i s = Some t \<Longrightarrow> wf_ncp s \<Longrightarrow> wf_ncp t"
  using withinD [OF wf_rel.w_destroy] by blast

lemma reset_wf:
  assumes "reset s = Some t" and "wf_ncp s"
  shows "wf_ncp t"
proof -
  let ?f = "\<lambda>i s. do { s \<leftarrow> destroy i s;
    Some (s\<lparr>listening := (listening s)(i := (listening s i)\<lparr>l_sock := 0\<rparr>)\<rparr>) }"
  obtain u where u: "for_each [0..CONNECTIONS - 1] ?f s = Some u" and t: "wf_ncp t = wf_ncp u"
    using assms(1) by (auto simp: reset_def bind_eq_Some_conv)
  have "wf_ncp u"
  proof (rule for_each_inv [where P = wf_ncp, OF _ u assms(2)])
    fix i s' t'
    assume "?f i s' = Some t'" "wf_ncp s'"
    then show "wf_ncp t'" using destroy_wf by (auto simp: bind_eq_Some_conv)
  qed
  with t show ?thesis by simp
qed

lemma zero_wf: "wf_ncp zero_ncp"
  by (simp add: wf_ncp_def zero_ncp_def zero_conn_def wf_defs)

lemma send_nops_wf: "send_nops s = Some t \<Longrightarrow> wf_ncp s \<Longrightarrow> wf_ncp t"
proof -
  have n: "wf_ncp v" if "send_nop u = Some v" "wf_ncp u" for u v
    using that wf_cong [OF send_imp_connection] unfolding send_nop_def by blast
  show "send_nops s = Some t \<Longrightarrow> wf_ncp s \<Longrightarrow> wf_ncp t"
    by (auto simp: send_nops_def bind_eq_Some_conv dest: n)
qed

lemma host_ready_wf: "host_ready f s = Some t \<Longrightarrow> wf_ncp s \<Longrightarrow> wf_ncp t"
  by (auto simp: host_ready_def bind_eq_Some_conv)

lemma ncp_reset_wf: "ncp_reset f s = Some t \<Longrightarrow> wf_ncp s \<Longrightarrow> wf_ncp t"
  by (auto simp: ncp_reset_def bind_eq_Some_conv split: if_splits
      dest: host_ready_wf reset_wf send_nops_wf)

lemma start_wf: "start = Some s \<Longrightarrow> wf_ncp s"
  using zero_wf by (auto simp: start_def bind_eq_Some_conv dest: host_ready_wf ncp_reset_wf)

text \<open>
  C1. Every state the daemon reaches, whatever it receives, is well-formed: host numbers, link
  numbers and byte sizes fit their fields, each function-pointer field holds only the functions
  meant for it, the data waiting for an allocation lies inside the connection's buffer with its
  header in front, and a free entry has neither links nor an allocation.
\<close>

theorem reachable_wf: "reachable s \<Longrightarrow> wf_ncp s"
proof (induction rule: reachable.induct)
  case (start s)
  then show ?case by (rule start_wf)
next
  case (step s t)
  then show ?case using wf_rel.step_within by blast
qed

lemma start_defined: "start \<noteq> None"
proof -
  have nop: "send_nop s \<noteq> None" for s
    by (simp add: send_nop_def send_imp_def count_regular_def imp_send_message_def Let_def)
  have ready: "host_ready f s \<noteq> None" for f s
    by (simp add: host_ready_def imp_host_ready_def imp_send_message_def Let_def)
  have "\<exists>t. for_each [0..CONNECTIONS - 1] (\<lambda>i s. do { s \<leftarrow> destroy i s;
      Some (s\<lparr>listening := (listening s)(i := (listening s i)\<lparr>l_sock := 0\<rparr>)\<rparr>) }) s = Some t \<and> True" for s
    by (rule for_each_defined [where P = "\<lambda>_. True"]) (auto simp: destroy_def upd_def)
  then have "reset s \<noteq> None" for s
    unfolding reset_def by (intro defined_intros) auto
  then show ?thesis
    unfolding start_def ncp_reset_def send_nops_def using nop ready
    by (intro defined_intros) auto
qed

theorem reachable_wf_witness: "\<exists>s. start = Some s \<and> wf_ncp s"
  using start_defined reachable_wf [OF reachable.start] by auto

end
