(* ===== verification/Ncp_Total.thy ===== *)
theory Ncp_Total
  imports Ncp_Frame
begin

text \<open>
  What always runs to its end. The handlers that time-outs call cannot fault on a connection of
  the table; \<open>check_rfnm\<close> comes back although it calls handlers that call it again; so the clock
  and the messages of the IMP that carry no data never stop the daemon.
\<close>

section \<open>Handlers without a nested call\<close>

lemma connection_no [simp]: "0 \<le> i \<Longrightarrow> i < CONNECTIONS \<Longrightarrow> uint (word_of_int i :: u8) = i"
  by (simp add: uint_word_of_int)

lemma waiting_defined [defined_intros]:
  "0 \<le> i \<Longrightarrow> i < CONNECTIONS \<Longrightarrow> when_rrp i cb to s \<noteq> None"
  "0 \<le> i \<Longrightarrow> i < CONNECTIONS \<Longrightarrow> when_rfnm i cb to s \<noteq> None"
  "0 \<le> i \<Longrightarrow> i < CONNECTIONS \<Longrightarrow> unless_rfc i to s \<noteq> None"
  "0 \<le> i \<Longrightarrow> i < CONNECTIONS \<Longrightarrow> unless_cls i to s \<noteq> None"
  "0 \<le> i \<Longrightarrow> i < CONNECTIONS \<Longrightarrow> destroy i s \<noteq> None"
  by (simp_all add: when_rrp_def when_rfnm_def unless_rfc_def unless_cls_def destroy_def upd_def)

lemma replies_defined [defined_intros]:
  "uint i < CONNECTIONS \<Longrightarrow> reply_open h k i z e s \<noteq> None"
  "uint i < CONNECTIONS \<Longrightarrow> reply_listen h k i z s \<noteq> None"
  "uint i < CONNECTIONS \<Longrightarrow> reply_close i s \<noteq> None"
  "uint i < CONNECTIONS \<Longrightarrow> reply_write i n s \<noteq> None"
  "uint i < CONNECTIONS \<Longrightarrow> reply_read i 0 0 s \<noteq> None"
  by (simp_all add: reply_open_def reply_listen_def reply_close_def reply_write_def
      reply_read_def upd_def memcpy_def)

lemma reply_read_0 [defined_intros]:
  "0 \<le> i \<Longrightarrow> i < CONNECTIONS \<Longrightarrow> reply_read (word_of_int i) 0 0 s \<noteq> None"
  by (rule replies_defined) simp

lemma give_up_reply_defined [defined_intros]:
  "0 \<le> i \<Longrightarrow> i < CONNECTIONS \<Longrightarrow> give_up_reply i c s \<noteq> None"
  unfolding give_up_reply_def by (intro defined_intros) simp_all

lemma leaf_handlers_defined [defined_intros]:
  assumes "0 \<le> i" and "i < CONNECTIONS"
  shows "send_cls_snd i s \<noteq> None" "send_cls_rcv i s \<noteq> None" "send_socket_timeout i s \<noteq> None"
    "do_cls_timeout i s \<noteq> None" "just_drop i s \<noteq> None" "do_rfc_timeout i s \<noteq> None"
    "do_rfnm_timeout i s \<noteq> None" "send_rts i s \<noteq> None" "send_str i s \<noteq> None"
    "send_icp_str i s \<noteq> None" "app_open_rfc_failed i s \<noteq> None" "app_open_rts i s \<noteq> None"
    "app_open_fail i s \<noteq> None" "send_data_timeout i s \<noteq> None" "send_data_now i s \<noteq> None"
    "send_data i s \<noteq> None"
  unfolding send_cls_snd_def send_cls_rcv_def send_socket_timeout_def do_cls_timeout_def
    just_drop_def do_rfc_timeout_def do_rfnm_timeout_def cls_and_drop_def send_rts_def send_str_def
    send_icp_str_def app_open_rfc_failed_def app_open_rts_def app_open_fail_def
    send_data_timeout_def send_data_now_def send_data_def
  by (intro defined_intros; simp add: assms)+

lemma call_leaf_defined [defined_intros]:
  assumes "0 \<le> i" and "i < CONNECTIONS" and "cb \<notin> {Send_socket, Send_str_and_rts}"
  shows "call n cb i s \<noteq> None"
  using leaf_handlers_defined [OF assms(1,2)] assms(3) by (cases cb) simp_all

section \<open>The nesting of check_rfnm\<close>

text \<open>The connections whose RFNM call-back would call \<open>check_rfnm\<close> again.\<close>

definition pending_set :: "ncp \<Rightarrow> int set" where
  "pending_set s = {i. 0 \<le> i \<and> i < CONNECTIONS \<and>
     rfnm_callback (connection s i) = Some Send_str_and_rts}"

definition pending :: "ncp \<Rightarrow> nat" where
  "pending s = card (pending_set s)"

lemma finite_pending_set [simp]: "finite (pending_set s)"
  by (rule finite_subset [of _ "{0..<CONNECTIONS}"]) (auto simp: pending_set_def)

lemma pending_le_20: "pending s \<le> 20"
proof -
  have "pending_set s \<subseteq> {0..<CONNECTIONS}" by (auto simp: pending_set_def)
  then have "card (pending_set s) \<le> card {0..<CONNECTIONS}" by (intro card_mono) simp_all
  then show ?thesis by (simp add: pending_def)
qed

lemma pending_mono: "pending_set t \<subseteq> pending_set s \<Longrightarrow> pending t \<le> pending s"
  unfolding pending_def by (intro card_mono) simp_all

lemma pending_less: "pending_set t \<subset> pending_set s \<Longrightarrow> pending t < pending s"
  unfolding pending_def by (intro psubset_card_mono) simp_all

text \<open>What the RFNM call-backs do not change: hosts, and which call-backs wait for a RFNM.\<close>

definition same_queue :: "ncp \<Rightarrow> ncp \<Rightarrow> bool" where
  "same_queue s t \<longleftrightarrow> (\<forall>k. host (connection t k) = host (connection s k) \<and>
     rfnm_callback (connection t k) = rfnm_callback (connection s k))"

lemma same_queue_pending: "same_queue s t \<Longrightarrow> pending_set t = pending_set s"
  by (simp add: same_queue_def pending_set_def)

lemma connection_after_control [simp]:
  "connection (after_control d b n ty s) = connection s"
  by (simp add: after_control_def upd_host_def)

lemma connection_write_packet [simp]: "connection (write_packet off bs s) = connection s"
  by (simp add: write_packet_def)

lemma connection_commands:
  "ncp_str d ls rs z s = Some t \<Longrightarrow> connection t = connection s"
  "ncp_rts d ls rs l s = Some t \<Longrightarrow> connection t = connection s"
  "ncp_cls d ls rs s = Some t \<Longrightarrow> connection t = connection s"
  by (auto simp: ncp_command_defs send_ncp_eq)

lemma same_queue_leaf:
  "send_rts i s = Some t \<Longrightarrow> same_queue s t"
  "send_str i s = Some t \<Longrightarrow> same_queue s t"
  "send_icp_str i s = Some t \<Longrightarrow> same_queue s t"
  "send_cls_snd i s = Some t \<Longrightarrow> same_queue s t"
  "send_cls_rcv i s = Some t \<Longrightarrow> same_queue s t"
  "send_data_now i s = Some t \<Longrightarrow> same_queue s t"
  by (auto simp: same_queue_def send_rts_def send_str_def send_icp_str_def send_cls_snd_def
      send_cls_rcv_def send_data_now_def reply_write_def deliver_def bind_eq_Some_conv
      unless_rfc_def unless_cls_def setter_defs split: if_splits
      dest!: connection_commands upd_SomeD)

lemma wf_callback:
  "wf_ncp s \<Longrightarrow> 0 \<le> i \<Longrightarrow> i < CONNECTIONS \<Longrightarrow> rfnm_callback (connection s i) = Some cb \<Longrightarrow>
   cb \<in> {Send_rts, Send_str, Send_str_and_rts, Send_cls_snd, Send_cls_rcv, Send_data_now}"
  using wfD [of s i] by (auto simp: wf_conn_def handlers_ok_def)

lemma call_leaf_same_queue:
  assumes "cb \<in> {Send_rts, Send_str, Send_cls_snd, Send_cls_rcv, Send_data_now}"
    and "0 \<le> i" and "i < CONNECTIONS"
  shows "\<exists>t. call n cb i s = Some t \<and> same_queue s t"
proof -
  obtain t where t: "call n cb i s = Some t"
    using call_leaf_defined [of i cb n s] assms by auto
  moreover have "same_queue s t"
    using assms(1) t by (auto intro: same_queue_leaf)
  ultimately show ?thesis by blast
qed

text \<open>
  The nesting argument: a nested call is made by a connection whose \<open>Send_str_and_rts\<close> has just
  been taken out of the queue, and it puts \<open>Send_rts\<close> there, so fewer are left each time.
\<close>

lemma nesting_returns:
  "\<lbrakk> cb = Send_str_and_rts; wf_ncp s; 0 \<le> i; i < CONNECTIONS; 0 \<le> host (connection s i);
     host (connection s i) < 256; pending s < n \<rbrakk> \<Longrightarrow>
   \<exists>t. call n cb i s = Some t \<and> pending t \<le> pending s"
  "\<lbrakk> wf_ncp s; 0 \<le> h; h < 256; \<forall>i \<in> set is. 0 \<le> i \<and> i < CONNECTIONS; pending s < n \<rbrakk> \<Longrightarrow>
   \<exists>t. check_rfnm_loop n h is s = Some t \<and> pending t \<le> pending s"
proof (induction n cb i s and n h "is" s rule: call_check_rfnm_loop.induct)
  case (2 n i s)
  obtain s1 where s1: "send_icp_str i s = Some s1"
    using leaf_handlers_defined(10) [of i s] "2.prems" by auto
  obtain s2 where s2: "when_rfnm i Send_rts Send_cls_snd s1 = Some s2"
    using waiting_defined(2) [of i Send_rts Send_cls_snd s1] "2.prems" by auto
  obtain c where c: "get i s2 = Some c" using get_defined [of i s2] "2.prems" by auto
  have q: "same_queue s s1" using s1 by (rule same_queue_leaf)
  have wf2: "wf_ncp s2"
    using withinD [OF wf_rel.w_requests(3) s1] withinD [OF wf_rel.w_waiting(4) s2] "2.prems" by simp
  have "pending_set s2 \<subseteq> pending_set s"
    using q s2 by (auto simp: same_queue_def pending_set_def when_rfnm_def split: if_splits
        dest!: upd_SomeD)
  then have p: "pending s2 \<le> pending s" by (rule pending_mono)
  have "host c = host (connection s i)"
    using c q s2 by (auto simp: same_queue_def when_rfnm_def dest!: upd_SomeD get_SomeD)
  with "2.IH" [OF s1 s2 c] wf2 p "2.prems" show ?case
    by (auto simp: s1 s2 c)
next
  case (19 n h i "is" s)
  then have i: "0 \<le> i" "i < CONNECTIONS" by simp_all
  let ?c = "connection s i"
  have g: "get i s = Some ?c" using i by (simp add: get_def)
  show ?case
  proof (cases "host ?c = h \<and> (\<exists>cb. rfnm_callback ?c = Some cb) \<and>
      outstanding_rfnm (hosts s (word_of_int h)) < 4")
    case False
    then show ?thesis
      using "19.IH"(1,2,3) [OF g] "19.prems" i by (cases "rfnm_callback ?c") (auto simp: g)
  next
    case True
    then obtain cb where cb: "host ?c = h" "rfnm_callback ?c = Some cb"
      "outstanding_rfnm (hosts s (word_of_int h)) < 4" by blast
    obtain m where m: "n = Suc m" using "19.prems"(5) by (cases n) auto
    obtain s1 where u: "upd i (\<lambda>c. c\<lparr>rfnm_callback := None, rfnm_timeout := None\<rparr>) s = Some s1"
      using i by (simp add: upd_def)
    have wf1: "wf_ncp s1" and sub: "pending_set s1 \<subseteq> pending_set s"
      and notin: "i \<notin> pending_set s1" and h1: "host (connection s1 i) = h"
      using u cb "19.prems"(1)
        withinD [OF wf_rel.w_upd u] by (auto simp: pending_set_def wf_defs split: if_splits dest!: upd_SomeD)
    have "\<exists>t. call m cb i s1 = Some t \<and> pending t \<le> pending s"
    proof (cases "cb = Send_str_and_rts")
      case True
      then have "i \<in> pending_set s" using i cb by (simp add: pending_set_def)
      with sub notin have "pending s1 < pending s" by (intro pending_less) blast
      with True wf1 i h1 "19.prems" m
        "19.IH"(4) [OF g _ cb(2) _ _ m u] show ?thesis
        using cb by fastforce
    next
      case False
      then obtain t where "call m cb i s1 = Some t" "same_queue s1 t"
        using call_leaf_same_queue [of cb i m s1] wf_callback [OF "19.prems"(1) i cb(2)] i by auto
      with pending_mono [OF sub] same_queue_pending [of s1 t] show ?thesis
        by (auto simp: pending_def)
    qed
    then obtain t where t: "call m cb i s1 = Some t" "pending t \<le> pending s" by blast
    have "wf_ncp t" using withinD [OF wf_rel.w_call t(1)] wf1 by simp
    then have "\<exists>v. check_rfnm_loop n h is t = Some v \<and> pending v \<le> pending t"
      using "19.IH"(5) [OF g _ cb(2) _ _ m u t(1)] cb "19.prems" t(2) by auto
    then show ?thesis
      using cb t u m "19.prems"(2,3) by (auto simp: g)
  qed
qed auto

text \<open>More nesting levels than needed change nothing.\<close>

lemma nesting_mono:
  "call n cb i s = Some t \<Longrightarrow> call (n + k) cb i s = Some t"
  "check_rfnm_loop n h is s = Some t \<Longrightarrow> check_rfnm_loop (n + k) h is s = Some t"
proof (induction n cb i s and n h "is" s arbitrary: t and t rule: call_check_rfnm_loop.induct)
  case (1 n i s)
  then show ?case by (fastforce simp: bind_eq_Some_conv Let_def)
next
  case (2 n i s)
  then show ?case by (fastforce simp: bind_eq_Some_conv)
next
  case (19 n h i "is" s)
  then obtain c where c: "get i s = Some c" by (auto simp: bind_eq_Some_conv)
  show ?case
  proof (cases "host c = h \<and> (\<exists>cb. rfnm_callback c = Some cb) \<and>
      outstanding_rfnm (hosts s (word_of_int h)) < 4")
    case False
    then show ?thesis
      using "19.IH"(1,2,3) [OF c] "19.prems" c
      by (cases "rfnm_callback c") (auto simp: bind_eq_Some_conv split: if_splits)
  next
    case True
    then obtain cb where cb: "host c = h" "rfnm_callback c = Some cb"
      "outstanding_rfnm (hosts s (word_of_int h)) < 4" by blast
    with "19.prems" c obtain m u v where m: "0 \<le> h" "h < 256" "n = Suc m"
      "upd i (\<lambda>c. c\<lparr>rfnm_callback := None, rfnm_timeout := None\<rparr>) s = Some u"
      "call m cb i u = Some v" "check_rfnm_loop n h is v = Some t"
      by (auto simp: bind_eq_Some_conv split: if_splits nat.splits)
    then show ?thesis
      using "19.IH"(4) [OF c _ cb(2) _ _ m(3,4,5)] "19.IH"(5) [OF c _ cb(2) _ _ m(3,4,5) m(6)] cb c
      by simp
  qed
qed auto

lemma check_rfnm_defined:
  assumes "wf_ncp s" and "0 \<le> h" and "h < 256"
  shows "check_rfnm h s \<noteq> None"
proof -
  have "pending s < NESTING" using pending_le_20 [of s] by simp
  then show ?thesis
    using nesting_returns(2) [OF assms, of "[0..CONNECTIONS - 1]" NESTING]
    by (auto simp: check_rfnm_def)
qed

text \<open>
  C7. \<open>check_rfnm\<close> returns. In a well-formed state, for any host number, the loop that runs
  call-backs which may run the loop again comes back without a fault, and every bound on the
  nesting from 21 on gives the same result.
\<close>

theorem check_rfnm_returns:
  assumes "wf_ncp s" and "0 \<le> h" and "h < 256"
  shows "\<exists>t. check_rfnm h s = Some t \<and> wf_ncp t \<and>
    (\<forall>k. check_rfnm_loop (NESTING + k) h [0..CONNECTIONS - 1] s = Some t)"
proof -
  obtain t where t: "check_rfnm_loop NESTING h [0..CONNECTIONS - 1] s = Some t"
    using check_rfnm_defined [OF assms] by (auto simp: check_rfnm_def)
  moreover have "wf_ncp t" using withinD [OF wf_rel.w_call_check(2) t] assms(1) by simp
  ultimately show ?thesis using nesting_mono(2) [OF t] by (auto simp: check_rfnm_def)
qed

text \<open>A state with a connection that waits for a RFNM, and whose time-out is due.\<close>

definition waiting_ncp :: ncp where
  "waiting_ncp = zero_ncp\<lparr>connection := (\<lambda>_. zero_conn)(3 := zero_conn\<lparr>host := 5, flags := CONN_OPEN,
     rfnm_callback := Some Send_str_and_rts, cls_timeout := Some Cls_timeout, cls_time := 1\<rparr>)\<rparr>"

lemma waiting_wf: "wf_ncp waiting_ncp"
  by (simp add: wf_ncp_def waiting_ncp_def zero_ncp_def zero_conn_def wf_defs)

theorem check_rfnm_returns_witness:
  "\<exists>t. check_rfnm 5 waiting_ncp = Some t \<and> wf_ncp t \<and>
    check_rfnm_loop 1000 5 [0..19] waiting_ncp = Some t"
proof -
  obtain t where "check_rfnm 5 waiting_ncp = Some t" "wf_ncp t"
    "\<forall>k. check_rfnm_loop (NESTING + k) 5 [0..CONNECTIONS - 1] waiting_ncp = Some t"
    using check_rfnm_returns [OF waiting_wf, of 5] by auto
  from this(1,2) this(3) [rule_format, of 979] show ?thesis by (intro exI [of _ t]) simp
qed

section \<open>The clock and the messages without data\<close>

lemma expire_returns:
  assumes "wf_ncp s" and "0 \<le> i" and "i < CONNECTIONS"
    and to: "set_option (to (connection s i)) \<inter> {Send_socket, Send_str_and_rts} = {}"
    and clear: "\<And>now c. wf_conn c \<Longrightarrow> wf_conn (clear now c)"
  shows "\<exists>t. expire to at clear i s = Some t \<and> wf_ncp t"
proof -
  have "expire to at clear i s \<noteq> None"
  proof (cases "to (connection s i)")
    case None
    then show ?thesis using assms(2,3) by (simp add: expire_def get_def)
  next
    case (Some h)
    then have "call NESTING h i u \<noteq> None" for u
      using to call_leaf_defined [OF assms(2,3)] by auto
    with Some assms(2,3) show ?thesis by (simp add: expire_def get_def upd_def run_def)
  qed
  then obtain t where t: "expire to at clear i s = Some t" by blast
  with withinD [OF wf_rel.w_expire [OF clear] t] assms(1) show ?thesis by blast
qed

lemma wf_timeouts:
  assumes "wf_ncp s" and "0 \<le> i" and "i < CONNECTIONS"
  shows "set_option (rrp_timeout (connection s i)) \<inter> {Send_socket, Send_str_and_rts} = {}"
    and "set_option (rfnm_timeout (connection s i)) \<inter> {Send_socket, Send_str_and_rts} = {}"
    and "set_option (all_timeout (connection s i)) \<inter> {Send_socket, Send_str_and_rts} = {}"
    and "set_option (rfc_timeout (connection s i)) \<inter> {Send_socket, Send_str_and_rts} = {}"
    and "set_option (cls_timeout (connection s i)) \<inter> {Send_socket, Send_str_and_rts} = {}"
  using wfD [OF assms] by (auto simp: wf_conn_def handlers_ok_def)

lemma tick_conn_returns:
  assumes "wf_ncp s" and i: "0 \<le> i" "i < CONNECTIONS"
  shows "\<exists>t. tick_conn i s = Some t \<and> wf_ncp t"
proof -
  obtain s1 where 1: "expire rrp_timeout rrp_time clear_rrp i s = Some s1" "wf_ncp s1"
    using expire_returns [where to = rrp_timeout and at = rrp_time and clear = clear_rrp,
      OF assms(1) i wf_timeouts(1) [OF assms] wf_clear(1)] by blast
  obtain s2 where 2: "expire rfnm_timeout rfnm_time clear_rfnm i s1 = Some s2" "wf_ncp s2"
    using expire_returns [where to = rfnm_timeout and at = rfnm_time and clear = clear_rfnm,
      OF 1(2) i wf_timeouts(2) [OF 1(2) i] wf_clear(2)] by blast
  obtain s3 where 3: "expire all_timeout all_time clear_all i s2 = Some s3" "wf_ncp s3"
    using expire_returns [where to = all_timeout and at = all_time and clear = clear_all,
      OF 2(2) i wf_timeouts(3) [OF 2(2) i] wf_clear(3)] by blast
  obtain s4 where 4: "expire rfc_timeout rfc_time clear_rfc i s3 = Some s4" "wf_ncp s4"
    using expire_returns [where to = rfc_timeout and at = rfc_time and clear = clear_rfc,
      OF 3(2) i wf_timeouts(4) [OF 3(2) i] wf_clear(4)] by blast
  obtain s5 where 5: "expire cls_timeout cls_time clear_cls i s4 = Some s5" "wf_ncp s5"
    using expire_returns [where to = cls_timeout and at = cls_time and clear = clear_cls,
      OF 4(2) i wf_timeouts(5) [OF 4(2) i] wf_clear(5)] by blast
  show ?thesis using 5(2) by (simp add: tick_conn_def 1(1) 2(1) 3(1) 4(1) 5(1))
qed

text \<open>
  C20. The clock cannot stop the daemon: in a well-formed state \<open>tick\<close> runs all time-outs that are
  due without a fault and leaves a well-formed state.
\<close>

theorem tick_returns:
  assumes "wf_ncp s"
  shows "\<exists>t. tick s = Some t \<and> wf_ncp t"
proof -
  let ?s = "s\<lparr>time_tick := time_tick s + 1\<rparr>"
  obtain u where u: "for_each [0..CONNECTIONS - 1] tick_conn ?s = Some u" "wf_ncp u"
    using for_each_defined [of "[0..CONNECTIONS - 1]" wf_ncp tick_conn ?s] tick_conn_returns assms
    by auto
  have "\<exists>t. tick_host h v = Some t \<and> wf_ncp t" if "wf_ncp v" for h v
  proof -
    have "tick_host h v \<noteq> None" by (simp add: tick_host_def)
    then show ?thesis using withinD [OF wf_rel.w_tick_host] that by blast
  qed
  then obtain t where "for_each (map word_of_nat [0..<256]) tick_host u = Some t" "wf_ncp t"
    using for_each_defined [of "map word_of_nat [0..<256]" wf_ncp tick_host u] u(2) by blast
  then show ?thesis using u(1) by (simp add: tick_def)
qed

theorem tick_returns_witness: "\<exists>t. tick waiting_ncp = Some t \<and> wf_ncp t"
  using tick_returns [OF waiting_wf] by simp

lemma reset_host_defined [defined_intros]: "reset_host h s \<noteq> None"
proof -
  have "\<exists>t. for_each [0..CONNECTIONS - 1]
      (\<lambda>i s. do { c \<leftarrow> get i s; if host c \<noteq> h then Some s else destroy i s }) s = Some t \<and> True"
    by (rule for_each_defined [where P = "\<lambda>_. True"]) (auto simp: get_def destroy_def upd_def)
  then show ?thesis by (auto simp: reset_host_def)
qed

lemma send_leader_defined [defined_intros]: "send_leader_error e s \<noteq> None"
  by (simp add: send_leader_error_def send_imp_def count_regular_def imp_send_message_def Let_def)

text \<open>
  C22. A message of the IMP that is not a regular message never stops the daemon, whatever its
  bytes are: too short a leader, an unknown type, a RFNM, the death of a host, and the types that
  are only reported.
\<close>

theorem imp_control_returns:
  assumes "wf_ncp s" and "n < 2 \<or> packet s 0 AND 0x0F \<noteq> 0"
  shows "\<exists>t. process_imp n s = Some t \<and> wf_ncp t"
proof -
  let ?r = "upd_host (packet s 1) (\<lambda>x. x\<lparr>outstanding_rfnm := outstanding_rfnm x - 1\<rparr>) s"
  have "wf_ncp ?r" using assms(1) by (simp add: upd_host_def)
  then have "process_rfnm s \<noteq> None"
    using check_rfnm_defined [of ?r "uint (packet s 1)"] by (auto simp: process_rfnm_def Let_def)
  moreover have "process_host_dead s \<noteq> None"
    using reset_host_defined by (auto simp: process_host_dead_def Let_def)
  ultimately have "process_imp n s \<noteq> None"
    using assms(2) send_leader_defined by (auto simp: process_imp_def Let_def)
  then show ?thesis using withinD [OF wf_rel.w_process_imp] assms(1) by blast
qed

theorem imp_control_returns_witness:
  "\<exists>t. process_imp 4 (waiting_ncp\<lparr>packet := put_bytes 0 [5, 5, 0, 0] (\<lambda>_. 0)\<rparr>) = Some t \<and> wf_ncp t"
  using imp_control_returns [of "waiting_ncp\<lparr>packet := put_bytes 0 [5, 5, 0, 0] (\<lambda>_. 0)\<rparr>" 4] waiting_wf
  by (simp add: put_bytes_def)

end
