(* ===== verification/Ncp_Flow.thy ===== *)
theory Ncp_Flow
  imports Ncp_Total
begin

text \<open>
  Flow control. The IMP answers every regular message with a RFNM, and the daemon counts the
  messages that are not answered yet, per host. These lemmas show that the count is exact
  through every handler, and that the RFNM queue sends nothing to a host with four messages
  outstanding.
\<close>

section \<open>Reading the output\<close>

text \<open>A datagram to the IMP that carries a regular message to \<open>h\<close>, told from its leader bytes.\<close>

fun regular_to :: "u8 \<Rightarrow> effect \<Rightarrow> bool" where
  "regular_to h (To_imp d) \<longleftrightarrow> 13 < length d \<and> d ! 12 AND 0x0F = 0 \<and> d ! 13 = h"
| "regular_to h (To_app a bs) \<longleftrightarrow> False"

fun is_to_imp :: "effect \<Rightarrow> bool" where
  "is_to_imp (To_imp d) \<longleftrightarrow> True"
| "is_to_imp (To_app a bs) \<longleftrightarrow> False"

definition sent_to :: "u8 \<Rightarrow> effect list \<Rightarrow> int" where
  "sent_to h es = int (length (filter (regular_to h) es))"

lemma sent_to_simps [simp]: "sent_to h [] = 0" "sent_to h (es @ es') = sent_to h es + sent_to h es'"
  by (simp_all add: sent_to_def)

text \<open>
  Between \<open>s\<close> and \<open>t\<close> the datagrams \<open>es\<close> were sent: each regular message is counted as
  outstanding for its host, less what \<open>answered\<close> says, and each datagram to the IMP took one
  sequence number.
\<close>

definition booked :: "(u8 \<Rightarrow> int) \<Rightarrow> ncp \<Rightarrow> ncp \<Rightarrow> bool" where
  "booked answered s t \<longleftrightarrow> (\<exists>es. out t = out s @ es \<and>
     (\<forall>h. outstanding_rfnm (hosts t h) = outstanding_rfnm (hosts s h) + sent_to h es - answered h) \<and>
     tx_sequence (imp t) = tx_sequence (imp s) + of_nat (length (filter is_to_imp es)))"

lemma booked_refl: "booked (\<lambda>_. 0) s s"
  by (auto simp: booked_def)

lemma booked_trans: "booked a s t \<Longrightarrow> booked b t u \<Longrightarrow> booked (\<lambda>h. a h + b h) s u"
  unfolding booked_def by (elim exE conjE, rule_tac x = "es @ esa" in exI) auto

lemma booked_same:
  "out t = out s \<Longrightarrow> imp t = imp s \<Longrightarrow>
   (\<And>h. outstanding_rfnm (hosts t h) = outstanding_rfnm (hosts s h)) \<Longrightarrow> booked (\<lambda>_. 0) s t"
  by (auto simp: booked_def)

section \<open>One message\<close>

lemma leader_type:
  "(push_bit 4 (word_of_int 0) OR word_of_int ty :: u8) AND 0x0F = word_of_int ty AND 0x0F"
  by simp

text \<open>The four leader bytes reach the datagram untouched by the header and by the data.\<close>

lemma send_imp_datagram:
  assumes "send_imp fl ty d l m st data w s = Some t" and "2 \<le> w"
  shows "\<exists>bs. out t = out s @ [To_imp bs] \<and> length bs = 2 * (nat w + 1) + 10 \<and>
    (\<forall>k < 4. bs ! (12 + k) = leader fl ty d l m st ! k) \<and>
    tx_sequence (imp t) = tx_sequence (imp s) + 1 \<and>
    hosts t = (if ty = IMP_REGULAR then (hosts s)(word_of_int d :=
      (hosts s (word_of_int d))\<lparr>outstanding_rfnm := outstanding_rfnm (hosts s (word_of_int d)) + 1\<rparr>)
      else hosts s)"
proof -
  let ?s = "write_packet 12 (leader fl ty d l m st) s"
  obtain p v where p: "(case data of None \<Rightarrow> Some (packet ?s) | Some (m, src) \<Rightarrow>
        memcpy PACKET_CAP BUFFER_CAP 16 src (2 * (w - 2)) (packet ?s) m) = Some p"
    and v: "count_regular ty d (?s\<lparr>packet := p\<rparr>) = Some v"
    and t: "\<exists>bs p' st'. imp_send_message PACKET_CAP (packet v) (nat w) (imp v) = Some (bs, p', st') \<and>
       t = v\<lparr>packet := p', imp := st', out := out v @ [To_imp bs]\<rparr>"
    using assms(1) by (auto simp: send_imp_def Let_def bind_eq_Some_conv split: option.splits)
  have keep: "p k = packet ?s k" if "k < 16" for k
    using p that by (auto simp: memcpy_eq_Some put_bytes_def split: option.splits)
  have lead: "packet ?s (12 + k) = leader fl ty d l m st ! k" if "k < 4" for k
    using that by (simp add: write_packet_def put_bytes_def leader_def)
  have pv: "packet v = p" "imp v = imp s" "out v = out s"
    using v by (auto simp: count_regular_def upd_host_def write_packet_def split: if_splits)
  obtain bs p' st' where bs: "imp_send_message PACKET_CAP p (nat w) (imp s) = Some (bs, p', st')"
    and t': "t = v\<lparr>packet := p', imp := st', out := out s @ [To_imp bs]\<rparr>"
    using t pv by auto
  have b: "bs = get_bytes 0 (2 * (nat w + 1) + 10) (put_bytes 0 (imp_header (imp s) (nat w)) p)"
    and seq: "tx_sequence st' = tx_sequence (imp s) + 1"
    using bs by (auto simp: imp_send_message_def Let_def split: if_splits)
  have "bs ! (12 + k) = leader fl ty d l m st ! k" if "k < 4" for k
    using that assms(2) keep [of "12 + k"] lead [OF that]
    by (simp add: b put_bytes_def imp_header_def)
  then show ?thesis
    using b seq t' v by (auto simp: count_regular_def upd_host_def write_packet_def split: if_splits)
qed

lemma send_imp_booked:
  assumes "ty = IMP_REGULAR \<or> ty = IMP_LEADER_ERROR" and "2 \<le> w"
    and "send_imp 0 ty d l m st data w s = Some t"
  shows "booked (\<lambda>_. 0) s t"
proof -
  obtain bs where bs: "out t = out s @ [To_imp bs]" "length bs = 2 * (nat w + 1) + 10"
    "\<forall>k < 4. bs ! (12 + k) = leader 0 ty d l m st ! k"
    "tx_sequence (imp t) = tx_sequence (imp s) + 1"
    "hosts t = (if ty = IMP_REGULAR then (hosts s)(word_of_int d :=
      (hosts s (word_of_int d))\<lparr>outstanding_rfnm := outstanding_rfnm (hosts s (word_of_int d)) + 1\<rparr>)
      else hosts s)"
    using send_imp_datagram [OF assms(3,2)] by blast
  have "bs ! 12 = word_of_int ty" "bs ! 13 = word_of_int d"
    using bs(3) [rule_format, of 0] bs(3) [rule_format, of 1] by (simp_all add: leader_def)
  then have "regular_to h (To_imp bs) \<longleftrightarrow> ty = IMP_REGULAR \<and> word_of_int d = h" for h
    using bs(2) assms(1,2) by auto
  then show ?thesis
    unfolding booked_def using bs(1,4,5) by (intro exI [of _ "[To_imp bs]"]) (auto simp: sent_to_def)
qed

section \<open>All handlers\<close>

interpretation flow_rel: daemon_relation "\<lambda>s t. wf_ncp s \<longrightarrow> wf_ncp t \<and> booked (\<lambda>_. 0) s t"
proof unfold_locales
  fix s t u
  assume "wf_ncp s \<longrightarrow> wf_ncp t \<and> booked (\<lambda>_. 0) s t" "wf_ncp t \<longrightarrow> wf_ncp u \<and> booked (\<lambda>_. 0) t u"
  then show "wf_ncp s \<longrightarrow> wf_ncp u \<and> booked (\<lambda>_. 0) s u"
    using booked_trans [of "\<lambda>_. 0" s t "\<lambda>_. 0" u] by auto
next
  fix s t ty d l m st data w
  assume "ty = IMP_REGULAR \<or> ty = IMP_LEADER_ERROR" "wf_ncp s \<Longrightarrow> 2 \<le> w"
    and send: "send_imp 0 ty d l m st data w s = Some t"
  then show "wf_ncp s \<longrightarrow> wf_ncp t \<and> booked (\<lambda>_. 0) s t"
    using send_imp_booked wf_cong [OF send_imp_connection [OF send]] by blast
next
  fix s h and f :: "host_t \<Rightarrow> host_t"
  assume "\<And>x. outstanding_rfnm (f x) = outstanding_rfnm x"
  then show "wf_ncp s \<longrightarrow> wf_ncp (upd_host h f s) \<and> booked (\<lambda>_. 0) s (upd_host h f s)"
    by (auto simp: upd_host_def intro!: booked_same)
next
  fix s a bs
  show "wf_ncp s \<longrightarrow> wf_ncp (s\<lparr>out := out s @ [To_app a bs]\<rparr>) \<and>
      booked (\<lambda>_. 0) s (s\<lparr>out := out s @ [To_app a bs]\<rparr>)"
    unfolding booked_def by (intro impI conjI exI [of _ "[To_app a bs]"]) (auto simp: sent_to_def)
qed (auto simp: wf_upd_conn booked_refl intro!: booked_same)

text \<open>The answers a message from the IMP brings: one, for a RFNM, from the host it names.\<close>

definition answers :: "int \<Rightarrow> ncp \<Rightarrow> u8 \<Rightarrow> int" where
  "answers n s h = (if 2 \<le> n \<and> packet s 0 AND 0x0F = 5 \<and> packet s 1 = h then 1 else 0)"

lemma process_rfnm_booked:
  assumes "process_rfnm s = Some t" and "wf_ncp s"
  shows "booked (\<lambda>h. if packet s 1 = h then 1 else 0) s t"
proof -
  let ?u = "upd_host (packet s 1) (\<lambda>x. x\<lparr>outstanding_rfnm := outstanding_rfnm x - 1\<rparr>) s"
  have "booked (\<lambda>h. if packet s 1 = h then 1 else 0) s ?u"
    by (auto simp: booked_def upd_host_def)
  moreover have "booked (\<lambda>_. 0) ?u t"
    using withinD [OF flow_rel.w_run(2), of "uint (packet s 1)" ?u t] assms
    by (auto simp: process_rfnm_def Let_def upd_host_def)
  ultimately show ?thesis using booked_trans by fastforce
qed

lemma process_imp_booked:
  assumes "process_imp n s = Some t" and "wf_ncp s"
  shows "booked (answers n s) s t"
proof (cases "2 \<le> n \<and> packet s 0 AND 0x0F = 5")
  case True
  then have "answers n s = (\<lambda>h. if packet s 1 = h then 1 else 0)"
    by (auto simp: answers_def)
  moreover have "process_rfnm s = Some t"
    using assms(1) True by (simp add: process_imp_def Let_def)
  ultimately show ?thesis using process_rfnm_booked assms(2) by simp
next
  case False
  then have a: "answers n s = (\<lambda>_. 0)" by (auto simp: answers_def)
  have "send_leader_error 1 s = Some t \<or> send_leader_error 2 s = Some t \<or>
      process_regular s = Some t \<or> process_host_dead s = Some t \<or> t = s"
    using assms(1) False by (auto simp: process_imp_def Let_def split: if_splits)
  then show ?thesis
    using withinD [OF flow_rel.w_leader_error] withinD [OF flow_rel.w_process_regular]
      withinD [OF flow_rel.w_process_host_dead] booked_refl assms(2) a by metis
qed

lemma application_booked:
  assumes "application sender bs s = Some t" and "wf_ncp s"
  shows "booked (\<lambda>_. 0) s t"
proof -
  let ?u = "receive_request sender bs s"
  have u: "booked (\<lambda>_. 0) s ?u" "wf_ncp ?u"
    using assms(2) by (auto simp: receive_request_def intro!: booked_same)
  have "t = ?u \<or> app_echo ?u = Some t \<or> app_open ?u = Some t \<or> app_listen ?u = Some t \<or>
      app_read ?u = Some t \<or> (\<exists>n. app_write n ?u = Some t) \<or> app_interrupt ?u = Some t \<or>
      app_close ?u = Some t"
    using assms(1) by (auto simp: application_def Let_def split: if_splits)
  then have "booked (\<lambda>_. 0) ?u t"
    using flow_rel.w_app_requests [THEN withinD] u(2) booked_refl by metis
  then show ?thesis using booked_trans [OF u(1)] by fastforce
qed

lemma tick_booked:
  assumes "tick s = Some t" and "wf_ncp s"
  shows "booked (\<lambda>_. 0) s t"
proof -
  let ?u = "s\<lparr>time_tick := time_tick s + 1\<rparr>"
  have u: "booked (\<lambda>_. 0) s ?u" "wf_ncp ?u" using assms(2) by (auto intro!: booked_same)
  have "within (\<lambda>s t. wf_ncp s \<longrightarrow> wf_ncp t \<and> booked (\<lambda>_. 0) s t) ?u
      (Option.bind (for_each [0..CONNECTIONS - 1] tick_conn ?u)
        (for_each (map word_of_nat [0..<256]) tick_host))"
    by (intro flow_rel.frame)
  then have "booked (\<lambda>_. 0) ?u t"
    using assms(1) u(2) by (simp add: tick_def within_def)
  then show ?thesis using booked_trans [OF u(1)] by fastforce
qed

text \<open>
  C3. The count of unanswered messages is exact. Whatever the IMP, an application or the clock
  makes the daemon do, every datagram it sends takes the next sequence number, and the count of
  each host grows by the regular messages sent to it and falls by one for its RFNM alone.
\<close>

theorem outstanding_exact:
  assumes "wf_ncp s"
  shows "(process_imp n s = Some t \<longrightarrow> booked (answers n s) s t) \<and>
    (application sender bs s = Some t \<longrightarrow> booked (\<lambda>_. 0) s t) \<and>
    (tick s = Some t \<longrightarrow> booked (\<lambda>_. 0) s t)"
  using assms process_imp_booked application_booked tick_booked by blast

theorem outstanding_exact_witness:
  "\<exists>t. process_imp 4 (waiting_ncp\<lparr>packet := put_bytes 0 [5, 9, 0, 0] (\<lambda>_. 0)\<rparr>) = Some t \<and>
     outstanding_rfnm (hosts t 9) = - 1 + sent_to 9 (out t)"
proof -
  let ?s = "waiting_ncp\<lparr>packet := put_bytes 0 [5, 9, 0, 0] (\<lambda>_. 0)\<rparr>"
  have "process_rfnm ?s \<noteq> None"
    using check_rfnm_defined [of "upd_host 9 (\<lambda>x. x\<lparr>outstanding_rfnm := outstanding_rfnm x - 1\<rparr>) ?s" 9]
      waiting_wf by (auto simp: process_rfnm_def put_bytes_def upd_host_def)
  then obtain t where t: "process_imp 4 ?s = Some t"
    by (auto simp: process_imp_def put_bytes_def)
  then have "booked (answers 4 ?s) ?s t" using outstanding_exact [of ?s 4 t] waiting_wf by simp
  then show ?thesis
    using t by (auto simp: booked_def answers_def put_bytes_def waiting_ncp_def zero_ncp_def)
qed

section \<open>The gate\<close>

lemma check_rfnm_loop_full:
  "\<forall>i \<in> set is. 0 \<le> i \<and> i < CONNECTIONS \<Longrightarrow> 0 \<le> h \<Longrightarrow> h < 256 \<Longrightarrow>
   4 \<le> outstanding_rfnm (hosts s (word_of_int h)) \<Longrightarrow> check_rfnm_loop n h is s = Some s"
  by (induction "is") (auto simp: get_def split: option.splits)

text \<open>Every call-back that waits for a RFNM sends at most one message itself.\<close>

definition one_more :: "ncp \<Rightarrow> ncp \<Rightarrow> bool" where
  "one_more s t \<longleftrightarrow> (\<forall>h. outstanding_rfnm (hosts t h) \<le> outstanding_rfnm (hosts s h) + 1)"

lemma commands_one_more:
  "ncp_str d ls rs z s = Some t \<Longrightarrow> one_more s t"
  "ncp_rts d ls rs l s = Some t \<Longrightarrow> one_more s t"
  "ncp_cls d ls rs s = Some t \<Longrightarrow> one_more s t"
  by (auto simp: one_more_def ncp_command_defs send_ncp_eq after_control_def upd_host_def write_packet_def)

lemma one_more_hosts: "hosts t = hosts s \<Longrightarrow> one_more s u = one_more t u \<and> one_more u s = one_more u t"
  by (simp add: one_more_def)

lemma hosts_upd: "upd i f s = Some t \<Longrightarrow> hosts t = hosts s"
  by (auto dest: upd_SomeD)

lemma leaf_one_more:
  "send_rts i s = Some t \<Longrightarrow> one_more s t"
  "send_str i s = Some t \<Longrightarrow> one_more s t"
  "send_icp_str i s = Some t \<Longrightarrow> one_more s t"
  "send_cls_snd i s = Some t \<Longrightarrow> one_more s t"
  "send_cls_rcv i s = Some t \<Longrightarrow> one_more s t"
  "send_data_now i s = Some t \<Longrightarrow> one_more s t"
  by (auto simp: send_rts_def send_str_def send_icp_str_def send_cls_snd_def one_more_def
      send_cls_rcv_def send_data_now_def reply_write_def deliver_def bind_eq_Some_conv
      unless_rfc_def unless_cls_def split: if_splits
      dest!: commands_one_more upd_SomeD)

lemma call_leaf_one_more:
  assumes "cb \<in> {Send_rts, Send_str, Send_cls_snd, Send_cls_rcv, Send_data_now}"
    and "call n cb i s = Some t"
  shows "one_more s t"
  using assms by (auto intro: leaf_one_more)

lemma queue_window:
  "\<lbrakk> cb = Send_str_and_rts; call n cb i s = Some t; wf_ncp s; host (connection s i) = uint x;
     outstanding_rfnm (hosts s x) < 4 \<rbrakk> \<Longrightarrow> outstanding_rfnm (hosts t x) \<le> 4"
  "\<lbrakk> check_rfnm_loop n h is s = Some t; wf_ncp s; h = uint x; outstanding_rfnm (hosts s x) \<le> 4 \<rbrakk> \<Longrightarrow>
   outstanding_rfnm (hosts t x) \<le> 4"
proof (induction n cb i s and n h "is" s arbitrary: t and t rule: call_check_rfnm_loop.induct)
  case (2 n i s)
  then obtain s1 s2 c where s1: "send_icp_str i s = Some s1"
    and s2: "when_rfnm i Send_rts Send_cls_snd s1 = Some s2" and c: "get i s2 = Some c"
    and t: "check_rfnm_loop n (host c) [0..CONNECTIONS - 1] s2 = Some t"
    by (auto simp: bind_eq_Some_conv)
  have "wf_ncp s2"
    using withinD [OF wf_rel.w_requests(3) s1] withinD [OF wf_rel.w_waiting(4) s2] "2.prems" by simp
  moreover have "host c = uint x"
    using c same_queue_leaf(3) [OF s1] s2 "2.prems"(4)
    by (auto simp: same_queue_def when_rfnm_def dest!: upd_SomeD get_SomeD)
  moreover have "outstanding_rfnm (hosts s2 x) \<le> 4"
    using leaf_one_more(3) [OF s1] s2 "2.prems"(5)
    by (auto simp: one_more_def when_rfnm_def dest!: hosts_upd dest: spec [of _ x])
  ultimately show ?case using "2.IH" [OF s1 s2 c t] by blast
next
  case (19 n h i "is" s)
  then obtain c where c: "get i s = Some c" by (auto simp: bind_eq_Some_conv)
  then have i: "0 \<le> i" "i < CONNECTIONS" "c = connection s i" by (auto dest: get_SomeD)
  show ?case
  proof (cases "host c = h \<and> (\<exists>cb. rfnm_callback c = Some cb) \<and>
      outstanding_rfnm (hosts s (word_of_int h)) < 4")
    case False
    then show ?thesis
      using "19.IH"(1,2,3) [OF c] "19.prems" c
      by (cases "rfnm_callback c") (auto simp: bind_eq_Some_conv split: if_splits)
  next
    case True
    then obtain cb where cb: "host c = h" "rfnm_callback c = Some cb"
      "outstanding_rfnm (hosts s (word_of_int h)) < 4" by blast
    with "19.prems"(1) c obtain m u v where m: "0 \<le> h" "h < 256" "n = Suc m"
      and u: "upd i (\<lambda>c. c\<lparr>rfnm_callback := None, rfnm_timeout := None\<rparr>) s = Some u"
      and v: "call m cb i u = Some v" and t: "check_rfnm_loop n h is v = Some t"
      by (auto simp: bind_eq_Some_conv split: if_splits nat.splits)
    have wu: "wf_ncp u" "host (connection u i) = h" "outstanding_rfnm (hosts u x) < 4"
      using u cb i "19.prems"(2,3) withinD [OF wf_rel.w_upd u]
      by (auto simp: wf_defs dest!: upd_SomeD)
    have "outstanding_rfnm (hosts v x) \<le> 4"
    proof (cases "cb = Send_str_and_rts")
      case True
      show ?thesis
        using "19.IH"(4) [OF c _ cb(2) _ _ m(3) u True v] wu cb m "19.prems"(3) by simp
    next
      case False
      then have "one_more u v"
        using call_leaf_one_more [OF _ v] wf_callback [OF "19.prems"(2) i(1,2)] cb(2) i(3) by auto
      then show ?thesis using wu(3) by (auto simp: one_more_def dest: spec [of _ x])
    qed
    moreover have "wf_ncp v" using withinD [OF wf_rel.w_call v] wu(1) by simp
    ultimately show ?thesis
      using "19.IH"(5) [OF c _ cb(2) _ _ m(3) u v t] cb m "19.prems"(3) by simp
  qed
qed auto

text \<open>
  C18. The window of four. The RFNM queue of a host never brings the number of unanswered messages
  to it above four; and while four or more are unanswered it does nothing at all: no call-back
  runs, nothing is sent, and every waiting connection keeps waiting.
\<close>

theorem rfnm_window:
  assumes "wf_ncp s" and "check_rfnm (uint h) s = Some t"
  shows "outstanding_rfnm (hosts t h) \<le> max 4 (outstanding_rfnm (hosts s h)) \<and>
    (4 \<le> outstanding_rfnm (hosts s h) \<longrightarrow> t = s)"
proof (cases "4 \<le> outstanding_rfnm (hosts s h)")
  case True
  then show ?thesis
    using check_rfnm_loop_full [of "[0..CONNECTIONS - 1]" "uint h" s NESTING] assms(2)
    by (simp add: check_rfnm_def)
next
  case False
  then show ?thesis
    using queue_window(2) [OF assms(2) [unfolded check_rfnm_def] assms(1) refl] by simp
qed

theorem rfnm_window_witness:
  "\<exists>t. check_rfnm 5 waiting_ncp = Some t \<and> outstanding_rfnm (hosts t 5) \<le> 4"
proof -
  obtain t where t: "check_rfnm 5 waiting_ncp = Some t"
    using check_rfnm_defined [OF waiting_wf, of 5] by auto
  then show ?thesis
    using rfnm_window [OF waiting_wf, of 5 t] by (simp add: waiting_ncp_def zero_ncp_def)
qed

end
