(* ===== verification/Imp_Props.thy ===== *)
theory Imp_Props
  imports Imp
begin

text \<open>
  Properties of the IMP interface: what one side sends the other side receives, a datagram that
  arrives late is dropped, and one too short to hold the header makes the receiver copy out of
  range.
\<close>

section \<open>The header\<close>

lemma length_imp_header [simp]: "length (imp_header s n) = 12"
  by (simp add: imp_header_def)

lemma send_SomeD:
  assumes "imp_send_message cap d n s = Some (bs, d', s')"
  shows "length bs = 2 * n + 12" and "k < 12 \<Longrightarrow> bs ! k = imp_header s n ! k"
    and "k < 2 * n \<Longrightarrow> bs ! (12 + k) = d (12 + k)"
  using assms by (auto simp: imp_send_message_def Let_def put_bytes_def split: if_splits)

abbreviation (input) flag_word :: "u16 \<Rightarrow> u16" where
  "flag_word f \<equiv> push_bit 8 (ucast (ucast (drop_bit 8 f) :: u8)) OR ucast (ucast (f OR 1) :: u8)"

lemma flag_bytes: "flag_word f = f OR 1"
proof (rule bit_word_eqI)
  fix n
  assume "n < LENGTH(16)"
  then have "n < 16" by simp
  then show "bit (flag_word f) n = bit (f OR 1) n"
    by (cases "n < 8") (auto simp: bit_simps)
qed

lemma flags_ready: "((f :: u16) OR 1) AND 2 = f AND 2"
  by (simp add: word_ao_dist)

lemma flags_last: "((f :: u16) OR 1) AND 1 \<noteq> 0"
  by (simp only: word_ao_dist) (simp add: or_eq_0_iff)

lemma xor_zero: "(a :: u16) XOR b = 0 \<longleftrightarrow> a = b"
  by (metis xor.left_neutral xor.assoc xor_self_eq)

lemma magic_of_take:
  assumes "take 4 bs = [0x48, 0x33, 0x31, 0x36]" and "4 \<le> length bs"
  shows "magic (put_bytes 0 bs m)"
proof -
  have h: "bs ! k = [0x48, 0x33, 0x31, 0x36] ! k" if "k < 4" for k
    using assms(1) that by (metis nth_take)
  have "bs \<noteq> []" using assms(2) by auto
  then show ?thesis
    using assms(2) h [of 0] h [of 1] h [of 2] h [of 3] by (simp add: magic_def put_bytes_def)
qed

text \<open>What \<open>imp_receive_loop\<close> reads out of a header.\<close>

lemma header_fields:
  assumes "m = put_bytes 0 bs m0" and "12 \<le> length bs"
    and "\<And>k. k < 12 \<Longrightarrow> bs ! k = imp_header s n ! k"
  shows "magic m" and "word_of_bytes (m 4) (m 5) (m 6) (m 7) = tx_sequence s"
    and "n < 255 \<Longrightarrow> 256 * uint (m 8) + uint (m 9) = int n + 1"
    and "push_bit 8 (ucast (m 10)) OR ucast (m 11) = imp_flags s OR FLAG_LAST"
proof -
  have h: "m k = imp_header s n ! k" if "k < 12" for k
    using assms that by (simp add: put_bytes_def)
  show "magic m" by (simp add: magic_def h imp_header_def)
  show "word_of_bytes (m 4) (m 5) (m 6) (m 7) = tx_sequence s"
    using word_of_bytes_of [of "tx_sequence s"]
    by (simp add: h imp_header_def bytes_of_def)
  show "256 * uint (m 8) + uint (m 9) = int n + 1" if "n < 255"
  proof -
    have "m 8 = 0" "m 9 = word_of_nat (n + 1)" using that by (simp_all add: h imp_header_def bytes_of_def)
    moreover have "uint (word_of_nat (n + 1) :: u8) = int n + 1"
      using that by (simp only: unsigned_of_nat) (simp add: take_bit_eq_mod)
    ultimately show ?thesis by simp
  qed
  have "m 10 = ucast (drop_bit 8 (imp_flags s))" "m 11 = ucast (imp_flags s OR FLAG_LAST)"
    by (simp_all add: h imp_header_def bytes_of_def)
  then show "push_bit 8 (ucast (m 10)) OR ucast (m 11) = imp_flags s OR FLAG_LAST"
    by (simp only: flag_bytes)
qed

text \<open>
  C17. Round trip of the IMP interface: a message that \<open>imp_send_message\<close> sends is received by
  \<open>imp_receive_message\<close> with the same number of words and the same contents, the receiver expects
  the next sequence number afterwards and knows the sender's ready bit. Assumed is that the
  message fits the receiver's array and that its sequence number is not one that has passed.
\<close>

theorem imp_round_trip:
  assumes send: "imp_send_message cap d n s = Some (bs, d', s')" and "1 \<le> n" and "n \<le> 94"
    and "2 * n \<le> cap'" and seq: "tx_sequence s = 0 \<or> rx_sequence r \<le> tx_sequence s"
  shows "\<exists>p st calls. imp_receive_message cap' q r (Rx_datagram bs # rs) = Some (Rx_return p (int n) st calls) \<and>
    get_bytes 0 (2 * n) p = get_bytes 12 (2 * n) d \<and>
    rx_sequence st = tx_sequence s' \<and> imp_ready st = imp_flags s AND FLAG_READY"
proof -
  note b = send_SomeD [OF send]
  have t: "take MESSAGE_CAP bs = bs" "bs \<noteq> []" using b(1) assms(2,3) by auto
  define m where "m = put_bytes 0 bs (message r)"
  have f: "magic m" "word_of_bytes (m 4) (m 5) (m 6) (m 7) = tx_sequence s"
    "256 * uint (m 8) + uint (m 9) = int n + 1"
    "push_bit 8 (ucast (m 10)) OR ucast (m 11) = imp_flags s OR FLAG_LAST"
    using header_fields [of m bs "message r" s n] b assms(3) by (auto simp: m_def)
  have old: "\<not> (\<not> (tx_sequence s = 0 \<and> rx_sequence r \<noteq> 0) \<and> tx_sequence s < rx_sequence r)"
    using seq by (auto simp: not_le [symmetric])
  have data: "get_bytes 12 (2 * n) m = get_bytes 12 (2 * n) d"
    by (rule nth_equalityI) (use b in \<open>auto simp: m_def put_bytes_def\<close>)
  have c: "memcpy cap' MESSAGE_CAP 0 12 (int (2 * n + 12) - 12) q m =
      Some (put_bytes 0 (get_bytes 12 (2 * n) m) q)"
    using assms(3,4) by (simp add: memcpy_def nat_mult_distrib)
  have "get_bytes 0 (2 * n) (put_bytes 0 (get_bytes 12 (2 * n) m) q) = get_bytes 12 (2 * n) d"
    using get_put_bytes [of 0 "get_bytes 12 (2 * n) m" q] data by simp
  moreover have "tx_sequence s' = tx_sequence s + 1"
    using send by (auto simp: imp_send_message_def Let_def split: if_splits)
  ultimately show ?thesis
    unfolding imp_receive_message_def
    using t b(1) f old c assms(2) flags_ready [of "imp_flags s"] flags_last [of "imp_flags s"]
    by (simp add: Let_def m_def [symmetric] xor_zero)
qed

theorem imp_round_trip_witness:
  "\<exists>bs d' s'. imp_send_message 200 (\<lambda>_. 7) 3 imp_init = Some (bs, d', s') \<and>
   (\<exists>p st calls. imp_receive_message 200 (\<lambda>_. 0) imp_init [Rx_datagram bs] =
      Some (Rx_return p 3 st calls) \<and> get_bytes 0 6 p = [7, 7, 7, 7, 7, 7])"
proof -
  have "imp_send_message 200 (\<lambda>_. 7) 3 imp_init \<noteq> None"
    by (simp add: imp_send_message_def Let_def)
  then obtain bs d' s' where s: "imp_send_message 200 (\<lambda>_. 7) 3 imp_init = Some (bs, d', s')"
    by auto
  have "get_bytes 12 6 (\<lambda>_. 7) = [7, 7, 7, 7, 7, 7]"
    by (simp add: get_bytes_def upt_rec)
  with s imp_round_trip [OF s, of 200 imp_init "\<lambda>_. 0" "[]"] show ?thesis
    by (auto simp: imp_init_def)
qed

text \<open>
  A datagram of an old sequence number is dropped: the length is 0, the caller's array and
  the expected sequence number are as before, whatever else the datagram says.
\<close>

theorem imp_drops_old:
  assumes "12 \<le> length bs" and "length bs \<le> MESSAGE_CAP"
    and "take 4 bs = [0x48, 0x33, 0x31, 0x36]"
    and "word_of_bytes (bs ! 4) (bs ! 5) (bs ! 6) (bs ! 7) = x" and "x \<noteq> 0" and "x < rx_sequence r"
  shows "imp_receive_message cap q r (Rx_datagram bs # rs) =
    Some (Rx_return q 0 (r\<lparr>message := put_bytes 0 bs (message r)\<rparr>) [])"
proof -
  have "magic (put_bytes 0 bs (message r))" "bs \<noteq> []"
    using magic_of_take assms(1,3) by auto
  then show ?thesis
    using assms by (auto simp: imp_receive_message_def Let_def put_bytes_def)
qed

theorem imp_drops_old_witness:
  "imp_receive_message 200 (\<lambda>_. 5) (imp_init\<lparr>rx_sequence := 9\<rparr>)
     [Rx_datagram [0x48, 0x33, 0x31, 0x36, 0, 0, 0, 8, 0, 3, 0, 1, 1, 2, 3, 4]] =
   Some (Rx_return (\<lambda>_. 5) 0 (imp_init\<lparr>rx_sequence := 9, message :=
     put_bytes 0 [0x48, 0x33, 0x31, 0x36, 0, 0, 0, 8, 0, 3, 0, 1, 1, 2, 3, 4] (\<lambda>_. 0)\<rparr>) [])"
  using imp_drops_old [of "[0x48, 0x33, 0x31, 0x36, 0, 0, 0, 8, 0, 3, 0, 1, 1, 2, 3, 4]" 8
      "imp_init\<lparr>rx_sequence := 9\<rparr>" 200 "\<lambda>_. 5" "[]"]
  by (simp add: word_of_bytes_def imp_init_def)

text \<open>
  A datagram that starts with the magic but ends before the data is not refused: the missing
  part of the header is read from the previous message, and if that is in sequence and not empty,
  the size given to \<open>memcpy\<close> is negative and the copy runs out of range.
\<close>

theorem imp_short_datagram_faults:
  assumes "4 \<le> length bs" and "length bs < 12"
    and "take 4 bs = [0x48, 0x33, 0x31, 0x36]"
    and m: "m = put_bytes 0 bs (message r)"
    and "rx_sequence r \<le> word_of_bytes (m 4) (m 5) (m 6) (m 7)"
    and "256 * uint (m 8) + uint (m 9) \<noteq> 1"
  shows "imp_receive_message cap q r (Rx_datagram bs # rs) = None"
proof -
  have "magic m" using magic_of_take assms(1,3) m by auto
  moreover have "memcpy cap MESSAGE_CAP 0 12 (int (length bs) - 12) q m = None"
    using assms(2) by (simp add: memcpy_def)
  moreover have "take MESSAGE_CAP bs = bs" "bs \<noteq> []" using assms(1,2) by auto
  ultimately show ?thesis
    using assms(5,6) by (auto simp: imp_receive_message_def Let_def m [symmetric])
qed

theorem imp_short_datagram_faults_witness:
  "imp_receive_message 200 (\<lambda>_. 0) imp_init [Rx_datagram [0x48, 0x33, 0x31, 0x36, 0, 0, 0, 7, 0, 3]] = None"
  by (rule imp_short_datagram_faults [OF _ _ _ refl])
    (simp_all add: imp_init_def put_bytes_def)

section \<open>The ready bit\<close>

text \<open>
  \<open>imp_host_ready\<close> tells the IMP about a change of the ready bit exactly once: a change
  sends one datagram and sets the flag, and asking for the state the bit is in sends nothing.
\<close>

theorem imp_host_ready_once:
  assumes "imp_flags s = 0 \<or> imp_flags s = FLAG_READY"
  shows "\<exists>ds st. imp_host_ready f s = Some (ds, st) \<and>
    imp_flags st = (if f then FLAG_READY else 0) \<and>
    length ds = (if f = (imp_flags s AND FLAG_READY \<noteq> 0) then 0 else 1) \<and>
    imp_host_ready f st = Some ([], st)"
  using assms by (auto simp: imp_host_ready_def imp_send_message_def Let_def)

theorem imp_host_ready_once_witness:
  "\<exists>ds st. imp_host_ready True imp_init = Some (ds, st) \<and> length ds = 1 \<and>
    imp_host_ready True st = Some ([], st)"
  using imp_host_ready_once [of imp_init True] by (auto simp: imp_init_def)

end
