(* ===== verification/Ncp_Data.thy ===== *)
theory Ncp_Data
  imports Ncp_Flow
begin

text \<open>
  Sending data on a connection: how \<open>check_all\<close> cuts what an application wants to write into
  messages that fit the allocation the peer has given, and when it runs out of the \<open>packet\<close> array.
\<close>

section \<open>A message with data\<close>

text \<open>A regular message of \<open>w\<close> words that fits \<open>packet\<close>, as an equation.\<close>

lemma send_imp_data:
  assumes "0 \<le> h" and "h < 256" and "2 \<le> w" and "w \<le> 94" and "src + nat (2 * (w - 2)) \<le> BUFFER_CAP"
  shows "\<exists>t. send_imp 0 IMP_REGULAR h l 0 0 (Some (b, src)) w s = Some t \<and>
    out t = out s @ [To_imp (imp_header (imp s) (nat w) @ [0, word_of_int h, word_of_int l, 0] @
      get_bytes src (nat (2 * (w - 2))) b)] \<and>
    connection t = connection s \<and> time_tick t = time_tick s \<and> listening t = listening s \<and> cur_client t = cur_client s \<and>
    hosts t = (hosts s)(word_of_int h := (hosts s (word_of_int h))\<lparr>outstanding_rfnm :=
      outstanding_rfnm (hosts s (word_of_int h)) + 1\<rparr>)"
proof -
  let ?n = "nat (2 * (w - 2))" and ?lead = "[0, word_of_int h, word_of_int l, 0] :: u8 list"
  let ?p = "put_bytes 16 (get_bytes src ?n b) (put_bytes 12 ?lead (packet s))"
  let ?d = "get_bytes 0 (2 * (nat w + 1) + 10) (put_bytes 0 (imp_header (imp s) (nat w)) ?p)"
  have n: "2 * (nat w + 1) + 10 = 16 + ?n" "16 + ?n \<le> 200" using assms(3,4) by auto
  have hd: "length (imp_header (imp s) (nat w)) = 12" by (simp add: imp_header_def)
  have "?d = imp_header (imp s) (nat w) @ ?lead @ get_bytes src ?n b"
  proof (rule nth_equalityI)
    show "length ?d = length (imp_header (imp s) (nat w) @ ?lead @ get_bytes src ?n b)"
      using n by (simp add: hd)
    fix k
    assume "k < length ?d"
    then have k: "k < 16 + ?n" using n by simp
    consider "k < 12" | "k = 12" | "k = 13" | "k = 14" | "k = 15" | "16 \<le> k" by linarith
    then show "?d ! k = (imp_header (imp s) (nat w) @ ?lead @ get_bytes src ?n b) ! k"
      using k n by cases (auto simp: hd put_bytes_def nth_append)
  qed
  then show ?thesis
    using assms n by (simp add: send_imp_def Let_def write_packet_def leader_def memcpy_def
        count_regular_def upd_host_def imp_send_message_def)
qed

section \<open>Cutting the data\<close>

text \<open>What is left to send.\<close>

definition unsent :: "conn \<Rightarrow> u8 list" where
  "unsent c = get_bytes (nat (ptr c)) (nat (remaining c)) (buffer c)"

text \<open>The leader and the message header in front of the data.\<close>

definition data_header :: "conn \<Rightarrow> u8 list" where
  "data_header c =
     (let count = c_div (8 * sendable c) (bsize (snd c)) in
      [0, word_of_int (host c), word_of_int (link (snd c)), 0,
       0, word_of_int (bsize (snd c)), word_of_int (count div 256), word_of_int count, 0])"

text \<open>What \<open>check_all\<close> does to the buffer, and to the connection, when it sends.\<close>

definition headed :: "conn \<Rightarrow> conn" where
  "headed c = c\<lparr>buffer := put_bytes (nat (ptr c - 5)) (drop 4 (data_header c)) (buffer c)\<rparr>"

definition advanced :: "conn \<Rightarrow> conn" where
  "advanced c = (headed c)\<lparr>all_msgs := all_msgs c - 1,
     all_bits := all_bits c - bsize (snd c) * c_div (8 * sendable c) (bsize (snd c)),
     remaining := remaining c - sendable c, ptr := ptr c + sendable c\<rparr>"

definition data_datagram :: "imp_state \<Rightarrow> conn \<Rightarrow> u8 list" where
  "data_datagram st c = imp_header st (nat (2 + (sendable c + 6) div 2)) @ data_header c @
     get_bytes (nat (ptr c)) (nat (2 * ((sendable c + 6) div 2)) - 5) (buffer c)"

lemma length_data_header [simp]: "length (data_header c) = 9"
  by (simp add: data_header_def Let_def)

lemma data_datagram_front: "take 9 (drop 12 (data_datagram st c)) = data_header c"
  by (simp add: data_datagram_def imp_header_def)

lemma all_bits_left:
  assumes "0 \<le> b" and "0 < z" and "8 * n \<le> (b :: int)" and "0 \<le> n"
  shows "0 \<le> b - z * c_div (8 * n) z"
proof -
  have "z * (8 * n div z) \<le> 8 * n" using assms by (simp add: minus_mod_eq_mult_div [symmetric])
  then show ?thesis using assms by (simp add: c_div_pos)
qed

lemma words_even: "5 + n \<le> 2 * ((n + 6) div 2)" "2 * ((n + 6) div 2) \<le> n + 6" for n :: int
  by presburger+

text \<open>The bounds of a well-formed connection that waits for an allocation.\<close>

lemma window_bounds:
  assumes "wf_conn c" and "all_callback c \<noteq> None" and "8 \<le> all_bits c"
  shows "0 \<le> sendable c" and "sendable c \<le> remaining c" and "5 \<le> ptr c"
    and "ptr c + remaining c \<le> 203" and "host c < 256" and "8 * sendable c \<le> all_bits c"
  using assms by (auto simp: wf_defs sendable_def)

text \<open>The piece that is sent, followed by what is left, is what was there before.\<close>

lemma advanced_unsent:
  assumes "wf_conn c" and "all_callback c \<noteq> None" and "8 \<le> all_bits c"
  shows "take (nat (sendable c)) (drop 21 (data_datagram st c)) @ unsent (advanced c) = unsent c"
proof -
  note b = window_bounds [OF assms]
  let ?n = "sendable c"
  have n: "nat ?n \<le> nat (2 * ((?n + 6) div 2)) - 5" using words_even(1) [of ?n] b(1) by linarith
  have k: "nat (ptr c - 5) + 5 = nat (ptr c)" using b(3) by simp
  have s: "nat (remaining c) = nat ?n + nat (remaining c - ?n)"
    "nat (ptr c + ?n) = nat (ptr c) + nat ?n" using b by simp_all
  have "take (nat ?n) (drop 21 (data_datagram st c)) = get_bytes (nat (ptr c)) (nat ?n) (buffer c)"
    using n by (simp add: data_datagram_def imp_header_def get_bytes_def take_map)
  moreover have "unsent (advanced c) = get_bytes (nat (ptr c) + nat ?n) (nat (remaining c - ?n)) (buffer c)"
    using b k by (simp add: unsent_def advanced_def headed_def s get_put_bytes_disjoint)
  ultimately show ?thesis by (simp add: unsent_def s(1) get_bytes_append)
qed

text \<open>\<open>check_all\<close> up to the call of the call-back.\<close>

lemma check_all_sends:
  assumes w: "wf_conn c" and g: "get i s = Some c" and cb: "all_callback c = Some cb"
    and a: "1 \<le> all_msgs c" "8 \<le> all_bits c"
    and z: "bsize (snd c) \<noteq> 0" and fit: "sendable c < 180"
  shows "\<exists>u. connection u = (connection s)(i := advanced c) \<and> time_tick u = time_tick s \<and>
    listening u = listening s \<and> cur_client u = cur_client s \<and>
    out u = out s @ [To_imp (data_datagram (imp s) c)] \<and>
    hosts u = (hosts s)(word_of_int (host c) := (hosts s (word_of_int (host c)))\<lparr>outstanding_rfnm :=
      outstanding_rfnm (hosts s (word_of_int (host c))) + 1\<rparr>) \<and>
    check_all i s = (if remaining c = sendable c then
         do { s \<leftarrow> run cb i u; upd i (\<lambda>c. c\<lparr>all_callback := None, all_timeout := None\<rparr>) s }
       else upd i (\<lambda>c. c\<lparr>all_time := time_tick u + ALL_TIMEOUT\<rparr>) u)"
proof -
  let ?n = "sendable c" and ?k = "nat (ptr c - 5)" and ?w = "2 + (sendable c + 6) div 2"
  let ?count = "c_div (8 * ?n) (bsize (snd c))" and ?b = "buffer (headed c)"
  have i: "0 \<le> i" "i < CONNECTIONS" "c = connection s i" using g by (auto dest: get_SomeD)
  have h: "0 \<le> host c" using w a(1) by (auto simp: wf_defs)
  have "all_callback c \<noteq> None" using cb by simp
  note p = window_bounds [OF w this a(2)]
  have even: "5 + ?n \<le> 2 * (?w - 2)" "2 * (?w - 2) \<le> ?n + 6" by (simp_all add: words_even)
  have ww: "2 \<le> ?w" "?w \<le> 94" "?k + nat (2 * (?w - 2)) \<le> BUFFER_CAP" using even p fit by linarith+
  define m where "m = nat (2 * ((?n + 6) div 2)) - 5"
  have m: "nat (2 * (?w - 2)) = 5 + m" using even p(1) by (simp add: m_def)
  have "get_bytes ?k (5 + m) ?b = drop 4 (data_header c) @ get_bytes (?k + 5) m (buffer c)"
    by (simp add: get_bytes_append get_put_bytes_disjoint get_put_bytes_len headed_def)
  moreover have "?k + 5 = nat (ptr c)" using p by simp
  ultimately have d: "imp_header (imp s) (nat ?w) @ [0, word_of_int (host c), word_of_int (link (snd c)), 0] @
      get_bytes ?k (nat (2 * (?w - 2))) ?b = data_datagram (imp s) c"
    unfolding m by (simp add: data_datagram_def m_def [symmetric] data_header_def Let_def)
  obtain s1 where s1: "upd i (\<lambda>c. c\<lparr>buffer := ?b\<rparr>) s = Some s1" "connection s1 = (connection s)(i := headed c)"
    "out s1 = out s" "imp s1 = imp s" "time_tick s1 = time_tick s" "hosts s1 = hosts s"
    "listening s1 = listening s" "cur_client s1 = cur_client s"
    using i by (simp add: upd_def headed_def)
  obtain s2 where s2: "send_imp 0 IMP_REGULAR (host c) (link (snd c)) 0 0 (Some (?b, ?k)) ?w s1 = Some s2"
    "out s2 = out s @ [To_imp (data_datagram (imp s) c)]" "connection s2 = connection s1"
    "time_tick s2 = time_tick s" "listening s2 = listening s" "cur_client s2 = cur_client s"
    "hosts s2 = (hosts s)(word_of_int (host c) := (hosts s (word_of_int (host c)))\<lparr>outstanding_rfnm :=
      outstanding_rfnm (hosts s (word_of_int (host c))) + 1\<rparr>)"
    using send_imp_data [OF h p(5) ww, of "link (snd c)" ?b s1] s1(3-) d by auto
  obtain u where u: "upd i (\<lambda>c'. c'\<lparr>all_msgs := all_msgs c' - 1,
      all_bits := all_bits c' - bsize (snd c') * ?count,
      remaining := remaining c' - ?n, ptr := ptr c' + ?n\<rparr>) s2 = Some u"
    "connection u = (connection s)(i := advanced c)" "out u = out s2" "time_tick u = time_tick s2"
    "hosts u = hosts s2" "listening u = listening s2" "cur_client u = cur_client s2"
    using i s1(2) s2(3) by (simp add: upd_def advanced_def headed_def)
  have ok: "\<not> all_msgs c < 1" "\<not> all_bits c < 8"
    "\<not> (bsize (snd c) = 0 \<or> ptr c < 5 \<or> int BUFFER_CAP < ptr c)"
    using a z p by auto
  have b: "put_bytes ?k [0, word_of_int (bsize (snd c)), word_of_int (?count div 256), word_of_int ?count, 0]
      (buffer c) = ?b"
    by (simp add: headed_def data_header_def Let_def)
  have "check_all i s = (if remaining c - ?n = 0 then
         do { s \<leftarrow> run cb i u; upd i (\<lambda>c. c\<lparr>all_callback := None, all_timeout := None\<rparr>) s }
       else upd i (\<lambda>c. c\<lparr>all_time := time_tick u + ALL_TIMEOUT\<rparr>) u)"
    unfolding check_all_def Let_def g cb bind.bind_lunit option.case if_not_P [OF ok(1)]
      if_not_P [OF ok(2)] if_not_P [OF ok(3)] b s1(1) s2(1) u(1) ..
  with u s2(2,4-) show ?thesis by (intro exI [of _ u]) simp
qed

text \<open>Two connections of host 5 in the middle of a write, one with a piece that is too long.\<close>

definition writing_conn :: "int \<Rightarrow> int \<Rightarrow> conn" where
  "writing_conn n bits = zero_conn\<lparr>host := 5, all_callback := Some Send_data, all_msgs := 3,
     all_bits := bits, snd := \<lparr>link = 2, bsize = 8, lsock = 3, rsock = 4\<rparr>,
     ptr := 5, wlength := n, remaining := n, buffer := (\<lambda>k. word_of_nat k)\<rparr>"

definition writing_ncp :: ncp where
  "writing_ncp = zero_ncp\<lparr>connection := (\<lambda>_. zero_conn)(2 := writing_conn 20 80, 7 := writing_conn 190 2000)\<rparr>"

lemma writing_wf: "wf_ncp writing_ncp"
  by (simp add: wf_ncp_def writing_ncp_def writing_conn_def zero_ncp_def zero_conn_def wf_defs)

text \<open>
  C8. Data goes out in order, within the allocation. If the peer has allocated a message and at
  least eight bits, and if the piece that goes next, as long as the data and the allocation make it, has less than 180 bytes
  and the connection a byte size, then the next message carries the leader and the header that this size needs, and
  the piece, taken from the front of the data. What is left is
  still to be sent, one message and the bits of the piece are taken off the allocation, and when
  nothing is left the writer's answer waits for the RFNM. (A longer piece, which a write of 180 to 198 bytes and a large
  allocation give, is not sent: that is the fault of \<open>data_overflow\<close>.)
\<close>

theorem data_in_order:
  assumes "wf_ncp s" and "get i s = Some c" and cb: "all_callback c = Some Send_data"
    and a: "1 \<le> all_msgs c" "8 \<le> all_bits c"
    and z: "0 < bsize (snd c)" and fit: "sendable c < 180"
  shows "\<exists>t d. check_all i s = Some t \<and> out t = out s @ [To_imp d] \<and>
    take 9 (drop 12 d) = data_header c \<and>
    sendable c = min (remaining c) (all_bits c div 8) \<and>
    take (nat (sendable c)) (drop 21 d) @ unsent (connection t i) = unsent c \<and>
    remaining (connection t i) = remaining c - sendable c \<and>
    all_msgs (connection t i) = all_msgs c - 1 \<and> 0 \<le> all_bits (connection t i) \<and>
    (if sendable c = remaining c
     then all_callback (connection t i) = None \<and> rfnm_callback (connection t i) = Some Send_data_now
     else all_callback (connection t i) = Some Send_data)"
proof -
  have w: "wf_conn c" using assms(1,2) by (auto dest: get_wf)
  have i: "0 \<le> i" "i < CONNECTIONS" using assms(2) by (auto dest: get_SomeD)
  obtain u where u: "connection u = (connection s)(i := advanced c)"
    "out u = out s @ [To_imp (data_datagram (imp s) c)]"
    "check_all i s = (if remaining c = sendable c then
         do { s \<leftarrow> run Send_data i u; upd i (\<lambda>c. c\<lparr>all_callback := None, all_timeout := None\<rparr>) s }
       else upd i (\<lambda>c. c\<lparr>all_time := time_tick u + ALL_TIMEOUT\<rparr>) u)"
    using check_all_sends [OF w assms(2) cb a _ fit] z by auto
  have "all_callback c \<noteq> None" using cb by simp
  then have n: "0 \<le> sendable c" "8 * sendable c \<le> all_bits c"
    and split: "take (nat (sendable c)) (drop 21 (data_datagram (imp s) c)) @ unsent (advanced c) = unsent c"
    using window_bounds [OF w _ a(2)] advanced_unsent [OF w _ a(2)] by simp_all
  have adv: "remaining (advanced c) = remaining c - sendable c" "all_msgs (advanced c) = all_msgs c - 1"
    "0 \<le> all_bits (advanced c)" "all_callback (advanced c) = Some Send_data"
    using all_bits_left [of "all_bits c" "bsize (snd c)" "sendable c"] a(2) z n cb
    by (simp_all add: advanced_def headed_def)
  have min: "sendable c = min (remaining c) (all_bits c div 8)" by (auto simp: sendable_def)
  obtain t where t: "check_all i s = Some t" "out t = out u"
    and same: "unsent (connection t i) = unsent (advanced c)"
      "remaining (connection t i) = remaining (advanced c)"
      "all_msgs (connection t i) = all_msgs (advanced c)"
      "all_bits (connection t i) = all_bits (advanced c)"
    and cbs: "if sendable c = remaining c
     then all_callback (connection t i) = None \<and> rfnm_callback (connection t i) = Some Send_data_now
     else all_callback (connection t i) = Some Send_data"
    using u(1,3) i adv(4) by (cases "remaining c = sendable c")
      (auto simp: run_def send_data_def when_rfnm_def upd_def unsent_def)
  show ?thesis
    using t u(2) split data_datagram_front min same adv cbs
    by (intro exI [of _ t] exI [of _ "data_datagram (imp s) c"]) simp
qed

theorem data_in_order_witness:
  "\<exists>t d. check_all 2 writing_ncp = Some t \<and> out t = [To_imp d] \<and>
     take 10 (drop 21 d) @ unsent (connection t 2) = unsent (writing_conn 20 80) \<and>
     remaining (connection t 2) = 10 \<and> 0 \<le> all_bits (connection t 2)"
proof -
  have "get 2 writing_ncp = Some (writing_conn 20 80)" by (simp add: get_def writing_ncp_def)
  then show ?thesis
    using data_in_order [OF writing_wf, of 2 "writing_conn 20 80"]
    by (auto simp: writing_conn_def sendable_def writing_ncp_def zero_ncp_def)
qed

lemma check_all_fails:
  assumes "get i s = Some c" "all_callback c = Some cb" "1 \<le> all_msgs c" "8 \<le> all_bits c" "bsize (snd c) = 0 \<or> 180 \<le> sendable c"
  shows "check_all i s = None"
proof -
  have "send_imp 0 IMP_REGULAR h l 0 0 (Some (b, k)) (2 + (sendable c + 6) div 2) v = None"
    if "180 \<le> sendable c" for h l b k v
  proof -
    have "93 \<le> (sendable c + 6) div 2" using that by linarith
    then have "\<not> nat (2 * ((sendable c + 6) div 2)) \<le> 184" by linarith
    then show ?thesis by (simp add: send_imp_def memcpy_def Let_def)
  qed
  then show ?thesis
    using assms by (auto simp: check_all_def get_def Let_def bind_eq_None_conv split: if_splits)
qed

text \<open>
  C25. The bound on a message that the code does not check. When the next message of a connection
  with a byte size can go out, \<open>check_all\<close> fails exactly when the piece has 180 bytes or more: then
  it is copied past the end of the \<open>packet\<close> array. (With a byte size of zero it divides by zero.)
\<close>

theorem data_overflow:
  assumes "wf_ncp s" and "get i s = Some c" and cb: "all_callback c = Some Send_data"
    and a: "1 \<le> all_msgs c" "8 \<le> all_bits c"
  shows "check_all i s = None \<longleftrightarrow> bsize (snd c) = 0 \<or> 180 \<le> sendable c"
proof -
  have w: "wf_conn c" using assms(1,2) by (auto dest: get_wf)
  have i: "0 \<le> i" "i < CONNECTIONS" using assms(2) by (auto dest: get_SomeD)
  show ?thesis
  proof (cases "bsize (snd c) = 0 \<or> 180 \<le> sendable c")
    case False
    then obtain u where "check_all i s = (if remaining c = sendable c then
         do { s \<leftarrow> run Send_data i u; upd i (\<lambda>c. c\<lparr>all_callback := None, all_timeout := None\<rparr>) s }
       else upd i (\<lambda>c. c\<lparr>all_time := time_tick u + ALL_TIMEOUT\<rparr>) u)"
      using check_all_sends [OF w assms(2) cb a] by auto
    then show ?thesis
      using False i by (auto simp: run_def send_data_def when_rfnm_def upd_def)
  next
    case True
    then show ?thesis using check_all_fails [OF assms(2) cb a] by simp
  qed
qed

theorem data_overflow_witness: "check_all 7 writing_ncp = None"
proof -
  have "get 7 writing_ncp = Some (writing_conn 190 2000)" by (simp add: get_def writing_ncp_def)
  then show ?thesis
    using data_overflow [OF writing_wf, of 7 "writing_conn 190 2000"]
    by (simp add: writing_conn_def sendable_def)
qed

end
