(* ===== verification/Ncp_Conn.thy ===== *)
theory Ncp_Conn
  imports Ncp_Flow
begin

text \<open>
  The life of a connection in the table: taking a free entry and finding it again, closing it with
  an exchange of CLS, and freeing everything that belongs to a host that died or was reset.
\<close>

section \<open>Taking an entry\<close>

abbreviation (input) free_entry :: "ncp \<Rightarrow> int \<Rightarrow> bool" where
  "free_entry s j \<equiv> host (connection s j) = - 1 \<and>
     (link (rcv (connection s j)) = - 1 \<or> link (snd (connection s j)) = - 1)"

lemma find_free_iff:
  "find_link (- 1) (- 1) s = - 1 \<longleftrightarrow> (\<forall>j. 0 \<le> j \<and> j < CONNECTIONS \<longrightarrow> \<not> free_entry s j)"
  by (auto simp: find_link_def scan_eq_minus1 Let_def)

lemma make_open_cases:
  obtains (full) "make_open h rl rr sl sr s = Some (- 1, s)"
      "\<forall>j. 0 \<le> j \<and> j < CONNECTIONS \<longrightarrow> \<not> free_entry s j"
  | (taken) i where "0 \<le> i" "i < CONNECTIONS" "free_entry s i"
      "\<forall>j. 0 \<le> j \<and> j < i \<longrightarrow> \<not> free_entry s j"
      "make_open h rl rr sl sr s = Some (i, s\<lparr>connection := (connection s)
         (i := open_conn h rl rr sl sr (time_tick s) (connection s i))\<rparr>)"
proof (cases "find_link (- 1) (- 1) s = - 1")
  case True
  then show ?thesis using full find_free_iff by (simp add: make_open_def)
next
  case False
  let ?i = "find_link (- 1) (- 1) s"
  have "0 \<le> ?i" "?i < CONNECTIONS" "free_entry s ?i"
    using scan_hit False unfolding find_link_def Let_def by blast+
  moreover have "\<forall>j. 0 \<le> j \<and> j < ?i \<longrightarrow> \<not> free_entry s j"
    using scan_least unfolding find_link_def Let_def by blast
  ultimately show ?thesis using taken [of ?i] False by (simp add: make_open_def Let_def upd_def)
qed

text \<open>
  \<open>make_open\<close> takes the first free entry and leaves all others alone; it returns -1, with
  nothing changed, exactly when no entry is free. Afterwards the look-ups by socket pair find the
  new entry, unless the pair was in use before.
\<close>

theorem make_open_lookup:
  assumes "make_open h rl rr sl sr s = Some (i, t)" and "0 \<le> h"
  shows "if i = - 1 then t = s \<and> (\<forall>j. 0 \<le> j \<and> j < CONNECTIONS \<longrightarrow> \<not> free_entry s j)
    else 0 \<le> i \<and> i < CONNECTIONS \<and> free_entry s i \<and>
      (\<forall>j. 0 \<le> j \<and> j < i \<longrightarrow> \<not> free_entry s j) \<and>
      (\<forall>j. j \<noteq> i \<longrightarrow> connection t j = connection s j) \<and>
      (find_rcv_sockets h rl rr s = - 1 \<longrightarrow> find_rcv_sockets h rl rr t = i) \<and>
      (find_snd_sockets h sl sr s = - 1 \<longrightarrow> find_snd_sockets h sl sr t = i)"
proof (cases rule: make_open_cases [of h rl rr sl sr s])
  case full
  with assms(1) show ?thesis by simp
next
  case (taken k)
  with assms(1) have i: "i = k" and t: "t = s\<lparr>connection := (connection s)
         (k := open_conn h rl rr sl sr (time_tick s) (connection s k))\<rparr>" by auto
  have "find_rcv_sockets h rl rr t = k" if "find_rcv_sockets h rl rr s = - 1"
    unfolding find_rcv_sockets_def Let_def
    using that taken(1,2)
    by (intro scan_eqI) (auto simp: t open_conn_def find_rcv_sockets_def scan_eq_minus1 Let_def)
  moreover have "find_snd_sockets h sl sr t = k" if "find_snd_sockets h sl sr s = - 1"
    unfolding find_snd_sockets_def Let_def
    using that taken(1,2)
    by (intro scan_eqI) (auto simp: t open_conn_def find_snd_sockets_def scan_eq_minus1 Let_def)
  ultimately show ?thesis using taken by (simp add: i t)
qed

text \<open>A table with free entries only, and one with an open connection to host 5 in entry 4.\<close>

definition empty_ncp :: ncp where
  "empty_ncp = zero_ncp\<lparr>connection := (\<lambda>_. destroy_conn zero_conn)\<rparr>"

definition established :: conn where
  "established = zero_conn\<lparr>host := 5, rcv := \<lparr>link = 45, bsize = 8, lsock = 10, rsock = 21\<rparr>,
     snd := \<lparr>link = 46, bsize = 8, lsock = 11, rsock = 20\<rparr>\<rparr>"

definition open_ncp :: ncp where
  "open_ncp = empty_ncp\<lparr>connection := (\<lambda>_. destroy_conn zero_conn)(4 := established),
     app := put_bytes 0 [WIRE_CLOSE, 4] (\<lambda>_. 0)\<rparr>"

lemma open_ncp_find:
  "find_rcv_sockets 5 10 21 (open_ncp\<lparr>packet := p\<rparr>) = 4" "find_rcv_sockets 5 10 21 open_ncp = 4"
  "find_snd_sockets 5 11 20 open_ncp = 4" "find_rcv_sockets 5 11 20 open_ncp = - 1"
proof -
  show "find_rcv_sockets 5 10 21 (open_ncp\<lparr>packet := p\<rparr>) = 4" "find_rcv_sockets 5 10 21 open_ncp = 4"
    "find_snd_sockets 5 11 20 open_ncp = 4"
    unfolding find_rcv_sockets_def find_snd_sockets_def Let_def
    by (rule scan_eqI; simp add: open_ncp_def established_def destroy_conn_def)+
  show "find_rcv_sockets 5 11 20 open_ncp = - 1"
    by (simp add: find_rcv_sockets_def scan_eq_minus1 open_ncp_def established_def destroy_conn_def)
qed

theorem make_open_lookup_witness:
  "\<exists>t. make_open 5 128 7 129 6 empty_ncp = Some (0, t) \<and> find_rcv_sockets 5 128 7 t = 0 \<and>
     find_snd_sockets 5 129 6 t = 0"
proof (cases rule: make_open_cases [of 5 128 7 129 6 empty_ncp])
  case full
  from full(2) [rule_format, of 0] show ?thesis by (simp add: empty_ncp_def destroy_conn_def)
next
  case (taken i)
  have "i = 0"
    using taken(1) taken(4) [rule_format, of 0] by (cases "0 < i") (auto simp: empty_ncp_def destroy_conn_def)
  moreover have "find_rcv_sockets 5 128 7 empty_ncp = - 1" "find_snd_sockets 5 129 6 empty_ncp = - 1"
    by (simp_all add: find_rcv_sockets_def find_snd_sockets_def scan_eq_minus1 empty_ncp_def destroy_conn_def)
  ultimately show ?thesis using make_open_lookup [OF taken(5)] taken(5) by auto
qed

section \<open>Freeing the entries of a host\<close>

definition free_host :: "int \<Rightarrow> ncp \<Rightarrow> ncp" where
  "free_host h s = s\<lparr>connection := (\<lambda>k. if 0 \<le> k \<and> k < CONNECTIONS \<and> host (connection s k) = h
     then destroy_conn (connection s k) else connection s k)\<rparr>"

lemma reset_host_eq: "reset_host h s = Some (free_host h s)"
proof -
  have "for_each xs (\<lambda>i s. do { c \<leftarrow> get i s; if host c \<noteq> h then Some s else destroy i s }) s =
      Some (s\<lparr>connection := (\<lambda>k. if k \<in> set xs \<and> host (connection s k) = h
         then destroy_conn (connection s k) else connection s k)\<rparr>)"
    if "distinct xs" "\<forall>k \<in> set xs. 0 \<le> k \<and> k < CONNECTIONS" for xs
    using that
  proof (induction xs arbitrary: s)
    case Nil
    then show ?case by simp
  next
    case (Cons x xs)
    then show ?case by (auto simp: get_def destroy_def upd_def fun_eq_iff intro!: arg_cong [of _ _ "\<lambda>f. s\<lparr>connection := f\<rparr>"])
  qed
  from this [of "[0..CONNECTIONS - 1]"] show ?thesis
    unfolding reset_host_def free_host_def by (simp add: zle_diff1_eq [of _ CONNECTIONS, simplified])
qed

lemma hosts_free_host [simp]: "hosts (free_host h s) = hosts s" "out (free_host h s) = out s"
  by (simp_all add: free_host_def)

text \<open>What an application that waits for an echo is told.\<close>

definition echo_failed :: "u8 \<Rightarrow> u8 \<Rightarrow> ncp \<Rightarrow> effect list" where
  "echo_failed h e s = (if addr_len (echo (hosts s h)) > 0
     then [To_app (echo (hosts s h)) [WIRE_ECHO + 1, h, 0, e]] else [])"

lemma fail_echo_effect:
  "out (fail_echo h e s) = out s @ echo_failed h e s" "connection (fail_echo h e s) = connection s"
  "addr_len (echo (hosts (fail_echo h e s) h)) = 0"
  "g \<noteq> h \<Longrightarrow> hosts (fail_echo h e s) g = hosts s g"
  "ho_flags (hosts (fail_echo h e s) g) = ho_flags (hosts s g)"
  "packet (fail_echo h e s) = packet s"
  by (auto simp: fail_echo_def echo_failed_def clear_echo_def upd_host_def reply_echo_def deliver_def)

text \<open>
  C23. The death of a host. The daemon frees exactly the connections to the host that the IMP
  reports dead, notes that it is not alive, answers the application that waits for an echo of it
  with the reason, and does nothing else: all other connections and hosts are as before and
  nothing is sent to the IMP.
\<close>

theorem host_dead_frees:
  "\<exists>t. process_host_dead s = Some t \<and>
    (\<forall>k. 0 \<le> k \<and> k < CONNECTIONS \<longrightarrow> connection t k =
      (if host (connection s k) = uint (packet s 1) then destroy_conn (connection s k) else connection s k)) \<and>
    ho_flags (hosts t (packet s 1)) AND HOST_ALIVE = 0 \<and>
    addr_len (echo (hosts t (packet s 1))) = 0 \<and>
    (\<forall>g. g \<noteq> packet s 1 \<longrightarrow> hosts t g = hosts s g) \<and>
    out t = out s @ echo_failed (packet s 1) (packet s 3 AND 0x0F) s"
proof -
  let ?h = "packet s 1"
  let ?u = "fail_echo ?h (packet s 3 AND 0x0F) s"
  let ?v = "upd_host ?h (\<lambda>x. x\<lparr>ho_flags := ho_flags x AND NOT HOST_ALIVE\<rparr>) ?u"
  have "process_host_dead s = Some (free_host (uint ?h) ?v)"
    by (simp add: process_host_dead_def Let_def reset_host_eq)
  then show ?thesis
    by (simp add: fail_echo_effect upd_host_def free_host_def word_bw_assocs)
qed

theorem host_dead_frees_witness:
  "\<exists>t. process_host_dead (open_ncp\<lparr>packet := put_bytes 0 [7, 5, 0, 1] (\<lambda>_. 0)\<rparr>) = Some t \<and>
     host (connection t 4) = - 1 \<and> out t = []"
  using host_dead_frees [of "open_ncp\<lparr>packet := put_bytes 0 [7, 5, 0, 1] (\<lambda>_. 0)\<rparr>"]
  by (auto simp: put_bytes_def open_ncp_def established_def destroy_conn_def echo_failed_def
      empty_ncp_def zero_ncp_def zero_client_def)

text \<open>
  The datagram of a control message: the leader with the destination, the header with the number
  of bytes, the command, and its parameters.
\<close>

definition control :: "u8 \<Rightarrow> u8 \<Rightarrow> u8 list \<Rightarrow> effect \<Rightarrow> bool" where
  "control dest type params e \<longleftrightarrow> (\<exists>d. e = To_imp d \<and>
     take (10 + length params) (drop 12 d) =
       [0, dest, 0, 0, 0, 8, 0, word_of_nat (length params + 1), 0, type] @ params)"

lemma after_control_effect:
  assumes "length params + 1 = unat count" and "unat count \<le> 178"
    and "\<And>k. k < length params \<Longrightarrow> packet s (22 + k) = params ! k"
  shows "\<exists>e. out (after_control dest 8 count type s) = out s @ [e] \<and> control dest type params e"
proof -
  have u: "int (unat count) = int (length params) + 1" by (simp add: assms(1) [symmetric])
  then have c: "uint count = int (length params) + 1" by simp
  then have n: "nat ((uint count + 10) div 2) = (length params + 11) div 2" by (simp add: nat_div_distrib)
  let ?d = "get_bytes 0 (12 + 2 * ((length params + 11) div 2)) (sent_packet dest 8 count type s)"
  have "unat (drop_bit 8 count) = 0" using assms(2) by (simp only: unat_drop_bit_eq) (simp add: drop_bit_eq_div)
  then have bytes: "drop_bit 8 count = 0" "ucast count = (word_of_nat (length params + 1) :: u8)"
    by (simp_all only: unat_eq_0 assms(1) of_nat_unat)
  have len: "10 + length params \<le> 2 * ((length params + 11) div 2)" by presburger
  have "take (10 + length params) (drop 12 ?d) = get_bytes 12 (10 + length params) (sent_packet dest 8 count type s)"
    using len by (simp add: take_drop_get_bytes)
  also have "\<dots> = [0, dest, 0, 0] @ [0, 8, 0, word_of_nat (length params + 1), 0, type] @ params"
  proof -
    let ?p = "put_bytes 12 [0, dest, 0, 0] (put_bytes 16 [0, 8, ucast (drop_bit 8 count), ucast count, 0, type] (packet s))"
    have "get_bytes 12 (10 + length params) (sent_packet dest 8 count type s) = get_bytes 12 (10 + length params) ?p"
      by (rule nth_equalityI) (simp_all add: sent_packet_def put_bytes_def imp_header_def)
    also have "\<dots> = get_bytes 12 (4 + (6 + length params)) ?p" by simp
    also have "\<dots> = [0, dest, 0, 0] @ [0, 8, 0, word_of_nat (length params + 1), 0, type] @ get_bytes 22 (length params) (packet s)"
      unfolding get_bytes_append by (simp add: get_put_bytes_len get_put_bytes_disjoint bytes)
    also have "get_bytes 22 (length params) (packet s) = params"
      using assms(3) by (intro nth_equalityI) simp_all
    finally show ?thesis .
  qed
  finally show ?thesis
    unfolding control_def using n by (auto simp: after_control_def upd_host_def)
qed

text \<open>Sending a control message changes nothing but the output, the counters and \<open>packet\<close>.\<close>

definition sends :: "u8 \<Rightarrow> u8 \<Rightarrow> u8 list \<Rightarrow> ncp \<Rightarrow> ncp \<Rightarrow> bool" where
  "sends dest type params s t \<longleftrightarrow> (\<exists>e. out t = out s @ [e] \<and> control dest type params e) \<and>
     connection t = connection s \<and> listening t = listening s \<and> time_tick t = time_tick s \<and>
     cur_client t = cur_client s \<and> app t = app s \<and>
     hosts t = (hosts s)(dest := (hosts s dest)\<lparr>outstanding_rfnm := outstanding_rfnm (hosts s dest) + 1\<rparr>)"

lemma send_command:
  assumes "length params + 1 = unat count" and "unat count \<le> 178"
  shows "\<exists>t. send_ncp dest 8 count type (write_packet 22 params s) = Some t \<and> sends dest type params s t"
proof -
  let ?u = "write_packet 22 params s"
  have c: "uint count \<le> 178" by (subst uint_nat) (use assms(2) in linarith)
  obtain e where "out (after_control dest 8 count type ?u) = out ?u @ [e]" "control dest type params e"
    using after_control_effect [of params count ?u dest type] assms
    by (auto simp: write_packet_def put_bytes_def)
  then have "sends dest type params s (after_control dest 8 count type ?u)"
    by (auto simp: sends_def after_control_def upd_host_def write_packet_def)
  then show ?thesis using send_ncp_eq [OF c] by auto
qed

lemma send_command_empty:
  "\<exists>t. send_ncp dest 8 1 type s = Some t \<and> sends dest type [] s t"
  using send_command [of "[]" 1 dest type s] by (simp add: write_packet_def)

lemma commands_send:
  "\<exists>t. ncp_str d ls rs z s = Some t \<and> sends d NCP_STR (bytes_of ls @ bytes_of rs @ [z]) s t"
  "\<exists>t. ncp_rts d ls rs l s = Some t \<and> sends d NCP_RTS (bytes_of ls @ bytes_of rs @ [l]) s t"
  "\<exists>t. ncp_cls d ls rs s = Some t \<and> sends d NCP_CLS (bytes_of ls @ bytes_of rs) s t"
  "\<exists>t. ncp_all d l ms b s = Some t \<and>
     sends d NCP_ALL ([l, ucast (drop_bit 8 ms), ucast ms] @ bytes_of b) s t"
  "\<exists>t. ncp_ins d l s = Some t \<and> sends d NCP_INS [l] s t"
  "\<exists>t. ncp_erp d x s = Some t \<and> sends d NCP_ERP [x] s t"
  "\<exists>t. ncp_rst d s = Some t \<and> sends d NCP_RST [] s t"
  "\<exists>t. ncp_rrp d s = Some t \<and> sends d NCP_RRP [] s t"
  unfolding ncp_command_defs by (rule send_command send_command_empty; simp)+

lemma eco_sends: "\<exists>t. ncp_eco d x s = Some t \<and> sends d NCP_ECO [x] s t"
  using send_command [of "[x]" 2 d NCP_ECO "s\<lparr>packet := (\<lambda>_. 0)\<rparr>"]
  by (auto simp: ncp_eco_def sends_def)

text \<open>
  A peer that resets: RST frees exactly the connections to that host, marks it alive, fails
  the echo that an application waits for, and is answered with RRP.
\<close>

theorem rst_frees:
  "\<exists>t e. process_rst h off s = Some (0, t) \<and>
    (\<forall>k. 0 \<le> k \<and> k < CONNECTIONS \<longrightarrow> connection t k =
      (if host (connection s k) = uint h then destroy_conn (connection s k) else connection s k)) \<and>
    ho_flags (hosts t h) AND HOST_ALIVE \<noteq> 0 \<and> addr_len (echo (hosts t h)) = 0 \<and>
    (\<forall>g. g \<noteq> h \<longrightarrow> hosts t g = hosts s g) \<and>
    out t = out s @ echo_failed h 0x10 s @ [e] \<and> control h NCP_RRP [] e"
proof -
  let ?u = "free_host (uint h) (fail_echo h 0x10 (set_alive h s))"
  obtain t e where t: "ncp_rrp h ?u = Some t" "sends h NCP_RRP [] ?u t"
    and e: "out t = out ?u @ [e]" "control h NCP_RRP [] e"
    using commands_send(8) [of h ?u] by (auto simp: sends_def)
  have "echo_failed h 0x10 (set_alive h s) = echo_failed h 0x10 s"
    "\<And>g. g \<noteq> h \<Longrightarrow> hosts (set_alive h s) g = hosts s g" "out (set_alive h s) = out s"
    "connection (set_alive h s) = connection s"
    by (simp_all add: set_alive_def upd_host_def echo_failed_def)
  moreover have "ho_flags (hosts (set_alive h s) h) AND HOST_ALIVE \<noteq> 0"
    by (simp add: set_alive_def upd_host_def)
  ultimately show ?thesis
    using t e by (intro exI [of _ t] exI [of _ e])
      (simp add: process_rst_def reset_host_eq sends_def fail_echo_effect free_host_def)
qed

theorem rst_frees_witness:
  "\<exists>t e. process_rst 5 10 open_ncp = Some (0, t) \<and> host (connection t 4) = - 1 \<and>
     out t = [e] \<and> control 5 NCP_RRP [] e"
  using rst_frees [of 5 10 open_ncp]
  by (fastforce simp: open_ncp_def established_def destroy_conn_def echo_failed_def
      empty_ncp_def zero_ncp_def zero_client_def)

end
