(* ===== verification/Ncp_Close.thy ===== *)
theory Ncp_Close
  imports Ncp_Conn
begin

text \<open>
  Closing a connection. Each direction is closed by a CLS of either side, answered with a CLS of
  the other; the entry is freed when both have been sent and received for both directions.
\<close>

section \<open>One CLS\<close>

text \<open>The connection after a CLS for one of its directions came in and was answered.\<close>

definition closed_rcv :: "conn \<Rightarrow> conn" where
  "closed_rcv c = set_rcv_link (- 1) (set_rcv_size (- 1) c)"

definition closed_snd :: "conn \<Rightarrow> conn" where
  "closed_snd c = set_snd_link (- 1) (set_snd_size (- 1) c)"

lemma half_link_same: "link h = - 1 \<Longrightarrow> h\<lparr>link := - 1\<rparr> = h"
  by (cases h) simp

lemma closed_same:
  "sent_rcv_cls c \<Longrightarrow> set_rcv_size (- 1) c = closed_rcv c"
  "sent_snd_cls c \<Longrightarrow> set_snd_size (- 1) c = closed_snd c"
  using half_link_same [of "(rcv c)\<lparr>bsize := - 1\<rparr>"] half_link_same [of "(snd c)\<lparr>bsize := - 1\<rparr>"]
  by (simp_all add: closed_rcv_def closed_snd_def setter_defs sent_rcv_cls_def sent_snd_cls_def)

text \<open>The answer: nothing if this side has sent its CLS before, else a CLS.\<close>

definition cls_answer :: "bool \<Rightarrow> conn \<Rightarrow> u32 \<Rightarrow> u32 \<Rightarrow> effect list \<Rightarrow> bool" where
  "cls_answer sent c ls rs es \<longleftrightarrow> (if sent then es = []
     else \<exists>e. es = [e] \<and> control (word_of_int (host c)) NCP_CLS (bytes_of ls @ bytes_of rs) e)"

lemma cls_rcv_effect:
  assumes "get i s = Some c"
  shows "\<exists>t es. cls_rcv ls rs i s = Some t \<and> connection t = (connection s)(i := closed_rcv c) \<and>
    out t = out s @ es \<and> cls_answer (sent_rcv_cls c) c ls rs es"
proof -
  have i: "0 \<le> i" "i < CONNECTIONS" "c = connection s i" using assms by (auto dest: get_SomeD)
  have sent: "sent_rcv_cls (set_rcv_size (- 1) c) = sent_rcv_cls c"
    by (simp add: sent_rcv_cls_def setter_defs)
  have h: "host (closed_rcv c) = host c" "host (set_rcv_size (- 1) c) = host c"
    by (simp_all add: closed_rcv_def setter_defs)
  show ?thesis
  proof (cases "sent_rcv_cls c")
    case True
    then show ?thesis
      using i sent closed_same(1) by (simp add: cls_rcv_def upd_def get_def cls_answer_def)
  next
    case False
    let ?u = "s\<lparr>connection := (connection s)(i := closed_rcv c)\<rparr>"
    obtain t where "ncp_cls (word_of_int (host c)) ls rs ?u = Some t"
      "sends (word_of_int (host c)) NCP_CLS (bytes_of ls @ bytes_of rs) ?u t"
      using commands_send(3) by blast
    then show ?thesis
      using i sent False h by (auto simp: cls_rcv_def upd_def get_def cls_answer_def sends_def
          closed_rcv_def)
  qed
qed

lemma cls_snd_effect:
  assumes "get i s = Some c"
  shows "\<exists>t es. cls_snd ls rs i s = Some t \<and> connection t = (connection s)(i := closed_snd c) \<and>
    out t = out s @ es \<and> cls_answer (sent_snd_cls c) c ls rs es"
proof -
  have i: "0 \<le> i" "i < CONNECTIONS" "c = connection s i" using assms by (auto dest: get_SomeD)
  have sent: "sent_snd_cls (set_snd_size (- 1) c) = sent_snd_cls c"
    by (simp add: sent_snd_cls_def setter_defs)
  have h: "host (closed_snd c) = host c" "host (set_snd_size (- 1) c) = host c"
    by (simp_all add: closed_snd_def setter_defs)
  show ?thesis
  proof (cases "sent_snd_cls c")
    case True
    then show ?thesis
      using i sent closed_same(2) by (simp add: cls_snd_def upd_def get_def cls_answer_def)
  next
    case False
    let ?u = "s\<lparr>connection := (connection s)(i := closed_snd c)\<rparr>"
    obtain t where "ncp_cls (word_of_int (host c)) ls rs ?u = Some t"
      "sends (word_of_int (host c)) NCP_CLS (bytes_of ls @ bytes_of rs) ?u t"
      using commands_send(3) by blast
    then show ?thesis
      using i sent False h by (auto simp: cls_snd_def upd_def get_def cls_answer_def sends_def
          closed_snd_def)
  qed
qed

text \<open>Applications are told something; nothing is sent and no connection changes its ends.\<close>

definition replied :: "ncp \<Rightarrow> ncp \<Rightarrow> bool" where
  "replied s t \<longleftrightarrow> (\<forall>k. host (connection t k) = host (connection s k) \<and>
       rcv (connection t k) = rcv (connection s k) \<and> snd (connection t k) = snd (connection s k)) \<and>
     (\<exists>es. out t = out s @ es \<and> filter is_to_imp es = [])"

lemma replied_refl: "replied s s"
  by (auto simp: replied_def)

lemma replied_trans: "replied s t \<Longrightarrow> replied t u \<Longrightarrow> replied s u"
  by (auto simp: replied_def)

lemma replied_fields:
  assumes "replied s t"
  shows "host (connection t k) = host (connection s k)" "rcv (connection t k) = rcv (connection s k)"
    "snd (connection t k) = snd (connection s k)"
  using assms by (auto simp: replied_def)

lemma replies_replied:
  "reply_open h k n z e s = Some t \<Longrightarrow> replied s t"
  "reply_read n off l s = Some t \<Longrightarrow> replied s t"
  "reply_write n w s = Some t \<Longrightarrow> replied s t"
  "reply_close n s = Some t \<Longrightarrow> replied s t"
  by (auto simp: reply_open_def reply_read_def reply_write_def reply_close_def deliver_def
      replied_def bind_eq_Some_conv clear_flags_def dest!: upd_SomeD)

text \<open>The end of a CLS: the entry is freed if it was the last of the four.\<close>

lemma cls_finish_effect:
  assumes "get i s = Some c"
  shows "\<exists>t es. cls_finish h rs i s = Some t \<and> out t = out s @ es \<and> filter is_to_imp es = [] \<and>
    host (connection t i) = (if all_cls c then - 1 else host c) \<and>
    (\<not> all_cls c \<longrightarrow> rcv (connection t i) = rcv c \<and> snd (connection t i) = snd c)"
proof -
  have i: "0 \<le> i" "i < CONNECTIONS" "c = connection s i" using assms by (auto dest: get_SomeD)
  let ?r = "if has CONN_OPEN c then reply_open h rs 0 0 255 s
      else if has CONN_READ c then reply_read (word_of_int i) 0 0 s
      else if has CONN_WRITE c then reply_write (word_of_int i) 0 s else Some s"
  have "?r \<noteq> None" by (intro defined_intros i(1,2)) (simp_all add: i)
  then obtain u where u: "?r = Some u" by blast
  then have r: "replied s u" using replied_refl by (auto split: if_splits dest: replies_replied)
  let ?d = "connection u i"
  let ?q = "if has CONN_CLOSE ?d then reply_close (word_of_int i) u else Some u"
  have "?q \<noteq> None" by (intro defined_intros) (simp add: i)
  then obtain v where v: "?q = Some v" by blast
  then have rv: "replied u v" using replied_refl by (auto split: if_splits dest: replies_replied)
  have g: "get i u = Some ?d" using i by (simp add: get_def)
  have cls: "all_cls ?d = all_cls c"
    by (simp add: all_cls_def got_rcv_cls_def got_snd_cls_def sent_rcv_cls_def sent_snd_cls_def
        replied_fields [OF r] i(3))
  have fin: "cls_finish h rs i s = (if all_cls ?d then do { s \<leftarrow> ?q; destroy i s } else Some u)"
    unfolding cls_finish_def assms bind.bind_lunit u g ..
  show ?thesis
  proof (cases "all_cls c")
    case True
    have "replied s v" using replied_trans [OF r rv] .
    then show ?thesis
      using True i by (auto simp: fin cls v destroy_def upd_def destroy_conn_def replied_def)
  next
    case False
    then show ?thesis using r replied_fields [OF r, of i] i(3)
      by (auto simp: fin cls replied_def)
  qed
qed

text \<open>
  C21. One CLS. When a CLS for an existing pair of sockets comes in, the direction it names is
  closed; it is answered with a CLS for the same pair if and only if this side had not sent its
  own before, and with nothing else to the IMP. The entry is freed exactly when that completes
  the four CLS of both directions; otherwise the other direction stays as it was.
\<close>

theorem cls_closes:
  assumes "off + 8 \<le> PACKET_CAP"
    and rs: "rs = sock (\<lambda>k. packet s (off + k))" and ls: "ls = sock (\<lambda>k. packet s (off + (4 + k)))"
    and f: "f = find_rcv_sockets (uint h) ls rs s"
    and i: "i = (if f \<noteq> - 1 then f else find_snd_sockets (uint h) ls rs s)" "i \<noteq> - 1"
    and c: "c = connection s i" and c': "c' = (if f \<noteq> - 1 then closed_rcv c else closed_snd c)"
    and sent: "sent = (if f \<noteq> - 1 then sent_rcv_cls c else sent_snd_cls c)"
  shows "\<exists>t es. process_cls h off s = Some (8, t) \<and> out t = out s @ es \<and>
    cls_answer sent c ls rs (filter is_to_imp es) \<and>
    host (connection t i) = (if all_cls c' then - 1 else host c) \<and>
    (\<not> all_cls c' \<longrightarrow> rcv (connection t i) = rcv c' \<and> snd (connection t i) = snd c')"
proof -
  have r: "0 \<le> i" "i < CONNECTIONS"
    using i scan_hit unfolding f find_rcv_sockets_def find_snd_sockets_def by (auto split: if_splits)
  then have g: "get i s = Some c" by (simp add: get_def c)
  have h: "host c' = host c" by (simp add: c' closed_rcv_def closed_snd_def setter_defs)
  obtain u es where u: "(if f \<noteq> - 1 then cls_rcv ls rs i s else cls_snd ls rs i s) = Some u"
    "connection u = (connection s)(i := c')" "out u = out s @ es" "cls_answer sent c ls rs es"
    using cls_rcv_effect [OF g, of ls rs] cls_snd_effect [OF g, of ls rs] unfolding c' sent
    by (cases "f = - 1") auto
  then have "get i u = Some c'" using r by (simp add: get_def)
  then obtain t es' where t: "cls_finish h rs i u = Some t" "out t = out u @ es'" "filter is_to_imp es' = []"
    "host (connection t i) = (if all_cls c' then - 1 else host c')"
    "\<not> all_cls c' \<longrightarrow> rcv (connection t i) = rcv c' \<and> snd (connection t i) = snd c'"
    using cls_finish_effect by blast
  have imp: "filter is_to_imp es = es" using u(4) by (auto simp: cls_answer_def control_def split: if_splits)
  have "process_cls h off s = Some (8, t)"
    using assms(1) u(1) t(1) i by (auto simp: process_cls_def args_def Let_def rs [symmetric] ls [symmetric]
        f [symmetric] split: if_splits)
  then show ?thesis
    using t(2-5) u(3,4) imp h by (intro exI [of _ t] exI [of _ "es @ es'"]) simp
qed

theorem cls_closes_witness:
  "\<exists>t es. process_cls 5 10 (open_ncp\<lparr>packet := put_bytes 10 (bytes_of 21 @ bytes_of 10) (\<lambda>_. 0)\<rparr>) = Some (8, t) \<and>
     out t = es \<and> length (filter is_to_imp es) = 1 \<and> host (connection t 4) = 5"
proof -
  let ?s = "open_ncp\<lparr>packet := put_bytes 10 (bytes_of 21 @ bytes_of 10) (\<lambda>_. 0)\<rparr>"
  have p: "21 = sock (\<lambda>k. packet ?s (10 + k))" "10 = sock (\<lambda>k. packet ?s (10 + (4 + k)))"
    by (simp_all add: sock_eq put_bytes_def nth_append bytes_of_def word_of_bytes_of)
  have f: "4 = find_rcv_sockets (uint (5 :: u8)) 10 21 ?s" using open_ncp_find(1) by simp
  have c: "established = connection ?s 4" by (simp add: open_ncp_def)
  have sent: "False = (if (4 :: int) \<noteq> - 1 then sent_rcv_cls established else sent_snd_cls established)"
    by (simp add: established_def sent_rcv_cls_def)
  have "\<not> all_cls (closed_rcv established)" "host established = 5"
    by (simp_all add: all_cls_def closed_rcv_def setter_defs got_snd_cls_def established_def)
  moreover obtain t es where "process_cls 5 10 ?s = Some (8, t)" "out t = out ?s @ es"
    "cls_answer False established 10 21 (filter is_to_imp es)"
    "host (connection t 4) = (if all_cls (closed_rcv established) then - 1 else host established)"
    using cls_closes [OF _ p f _ _ c refl sent] by auto
  ultimately show ?thesis by (auto simp: cls_answer_def open_ncp_def empty_ncp_def zero_ncp_def)
qed

section \<open>A close that an application asks for\<close>

text \<open>The connection after the request: both CLS are out, no other request is pending.\<close>

definition closing :: "client_t \<Rightarrow> conn \<Rightarrow> conn" where
  "closing a c = set_snd_link (- 1) (set_rcv_link (- 1)
     ((set_flags CONN_CLOSE (clear_flags CONN_APPS c))\<lparr>client := a\<rparr>))"

lemma closing_flags:
  "\<not> has CONN_OPEN (closing a c)" "\<not> has CONN_READ (closing a c)" "\<not> has CONN_WRITE (closing a c)"
  "has CONN_CLOSE (closing a c)"
  by (simp_all add: closing_def has_def setter_defs word_ao_dist word_bw_assocs)

lemma has_cong: "flags d = flags c \<Longrightarrow> has m d = has m c"
  by (simp add: has_def)

lemma cls_finish_closing:
  assumes "get i s = Some c" and f: "flags c = flags (closing a d)"
  shows "cls_finish h rs i s = (if all_cls c
    then Some (s\<lparr>connection := (connection s)(i := destroy_conn c),
      out := out s @ [To_app (client c) [WIRE_CLOSE + 1, word_of_int i]]\<rparr>) else Some s)"
proof -
  have i: "0 \<le> i" "i < CONNECTIONS" "c = connection s i" using assms by (auto dest: get_SomeD)
  note flags = closing_flags [of a d, folded has_cong [OF f]]
  have "destroy_conn (clear_flags CONN_CLOSE c) = destroy_conn c" "client (clear_flags CONN_CLOSE c) = client c"
    by (simp_all add: destroy_conn_def clear_flags_def)
  then show ?thesis
    using i flags by (simp add: cls_finish_def get_def reply_close_def upd_def deliver_def destroy_def)
qed

lemma app_close_effect:
  assumes "get (uint (app s 1)) s = Some c" and "h = word_of_int (host c)" and "i = uint (app s 1)"
  shows "\<exists>t e1 e2. app_close s = Some t \<and> out t = out s @ [e1, e2] \<and>
    control h NCP_CLS (bytes_of (lsock (rcv c)) @ bytes_of (rsock (rcv c))) e1 \<and>
    control h NCP_CLS (bytes_of (lsock (snd c)) @ bytes_of (rsock (snd c))) e2 \<and>
    connection t = (connection s)(i := (closing (cur_client s) c)
      \<lparr>cls_timeout := Some Cls_timeout, cls_time := time_tick s + CLS_TIMEOUT\<rparr>)"
proof -
  have i: "0 \<le> i" "i < CONNECTIONS" "c = connection s i" using assms by (auto dest: get_SomeD)
  let ?d = "closing (cur_client s) c"
  let ?u = "s\<lparr>connection := (connection s)(i := ?d)\<rparr>"
  have d: "host ?d = host c" "lsock (rcv ?d) = lsock (rcv c)" "rsock (rcv ?d) = rsock (rcv c)"
    "lsock (snd ?d) = lsock (snd c)" "rsock (snd ?d) = rsock (snd c)"
    by (simp_all add: closing_def setter_defs)
  obtain v where v: "ncp_cls h (lsock (rcv c)) (rsock (rcv c)) ?u = Some v"
    "sends h NCP_CLS (bytes_of (lsock (rcv c)) @ bytes_of (rsock (rcv c))) ?u v"
    using commands_send(3) by blast
  obtain w where w: "ncp_cls h (lsock (snd c)) (rsock (snd c)) v = Some w"
    "sends h NCP_CLS (bytes_of (lsock (snd c)) @ bytes_of (rsock (snd c))) v w"
    using commands_send(3) by blast
  have u: "upd i (\<lambda>c. set_snd_link (- 1) (set_rcv_link (- 1)
      ((set_flags CONN_CLOSE (clear_flags CONN_APPS c))\<lparr>client := cur_client s\<rparr>))) s = Some ?u"
    "get i ?u = Some ?d"
    using i by (simp_all add: upd_def get_def closing_def)
  have "app_close s = unless_cls i Cls_timeout w"
    unfolding app_close_def Let_def assms(3) [symmetric] u bind.bind_lunit d assms(2) [symmetric] v(1) w(1) ..
  then show ?thesis
    using i v(2) w(2) by (auto simp: unless_cls_def upd_def sends_def)
qed

text \<open>The look-ups only see hosts and sockets.\<close>

definition same_sockets :: "ncp \<Rightarrow> ncp \<Rightarrow> bool" where
  "same_sockets s t \<longleftrightarrow> (\<forall>k. host (connection t k) = host (connection s k) \<and>
     lsock (rcv (connection t k)) = lsock (rcv (connection s k)) \<and>
     rsock (rcv (connection t k)) = rsock (rcv (connection s k)) \<and>
     lsock (snd (connection t k)) = lsock (snd (connection s k)) \<and>
     rsock (snd (connection t k)) = rsock (snd (connection s k)))"

lemma find_same:
  assumes "same_sockets s t"
  shows "find_rcv_sockets h ls rs t = find_rcv_sockets h ls rs s"
    "find_snd_sockets h ls rs t = find_snd_sockets h ls rs s"
  using assms by (simp_all add: same_sockets_def find_rcv_sockets_def find_snd_sockets_def Let_def)

text \<open>A CLS for a connection that the application is closing.\<close>

lemma process_cls_closing:
  assumes c: "get i s = Some c" "flags c = flags (closing a d)" "sent_rcv_cls c" "sent_snd_cls c"
    and p: "off + 8 \<le> PACKET_CAP" "sock (\<lambda>k. packet s (off + k)) = rs" "sock (\<lambda>k. packet s (off + (4 + k))) = ls"
    and f: "f = find_rcv_sockets (uint h) ls rs s"
      "(if f \<noteq> - 1 then f else find_snd_sockets (uint h) ls rs s) = i"
    and c': "c' = (if f \<noteq> - 1 then closed_rcv c else closed_snd c)"
  shows "\<exists>t. process_cls h off s = Some (8, t) \<and>
    connection t = (connection s)(i := if all_cls c' then destroy_conn c' else c') \<and>
    out t = out s @ (if all_cls c' then [To_app (client c) [WIRE_CLOSE + 1, word_of_int i]] else [])"
proof -
  have i: "0 \<le> i" "i < CONNECTIONS" using c(1) by (auto dest: get_SomeD)
  obtain u where u: "(if f \<noteq> - 1 then cls_rcv ls rs i s else cls_snd ls rs i s) = Some u"
    "connection u = (connection s)(i := c')" "out u = out s"
    using cls_rcv_effect [OF c(1), of ls rs] cls_snd_effect [OF c(1), of ls rs] c(3,4)
    unfolding c' cls_answer_def by (cases "f = - 1") auto
  have g: "get i u = Some c'" using u(2) i by (simp add: get_def)
  have "flags c' = flags (closing a d)" "client c' = client c"
    using c(2) by (simp_all add: c' closed_rcv_def closed_snd_def setter_defs)
  with cls_finish_closing [OF g this(1), of h rs]
  obtain t where t: "cls_finish h rs i u = Some t"
    "connection t = (connection s)(i := if all_cls c' then destroy_conn c' else c')"
    "out t = out s @ (if all_cls c' then [To_app (client c) [WIRE_CLOSE + 1, word_of_int i]] else [])"
    using u(2,3) by (cases "all_cls c'") auto
  have "process_cls h off s = Some (8, t)"
    using p u(1) t(1) f i by (auto simp: process_cls_def args_def Let_def split: if_splits)
  with t(2,3) show ?thesis by blast
qed

text \<open>
  C9. The close handshake. When an application closes a connection and the peer answers both CLS,
  the daemon sends exactly the two CLS for the connection's pairs of sockets, keeps the entry until
  the second answer, then frees it, and then tells the application that asked, and only then.
\<close>

theorem close_handshake:
  assumes g: "get i s = Some c" and i: "app s 1 = word_of_int i" and "host c = uint h"
    and "bsize (snd c) \<noteq> - 1"
    and unique: "find_rcv_sockets (uint h) (lsock (rcv c)) (rsock (rcv c)) s = i"
      "find_rcv_sockets (uint h) (lsock (snd c)) (rsock (snd c)) s = - 1"
      "find_snd_sockets (uint h) (lsock (snd c)) (rsock (snd c)) s = i"
    and p: "off + 8 \<le> PACKET_CAP"
      "sock (\<lambda>k. p (off + k)) = rsock (rcv c)" "sock (\<lambda>k. p (off + (4 + k))) = lsock (rcv c)"
      "sock (\<lambda>k. p' (off + k)) = rsock (snd c)" "sock (\<lambda>k. p' (off + (4 + k))) = lsock (snd c)"
  shows "\<exists>s1 s2 s3 e1 e2. app_close s = Some s1 \<and>
    process_cls h off (s1\<lparr>packet := p\<rparr>) = Some (8, s2) \<and>
    process_cls h off (s2\<lparr>packet := p'\<rparr>) = Some (8, s3) \<and>
    host (connection s2 i) = uint h \<and> out s2 = out s @ [e1, e2] \<and>
    host (connection s3 i) = - 1 \<and> (\<forall>j. j \<noteq> i \<longrightarrow> connection s3 j = connection s j) \<and>
    out s3 = out s @ [e1, e2, To_app (cur_client s) [WIRE_CLOSE + 1, word_of_int i]] \<and>
    control h NCP_CLS (bytes_of (lsock (rcv c)) @ bytes_of (rsock (rcv c))) e1 \<and>
    control h NCP_CLS (bytes_of (lsock (snd c)) @ bytes_of (rsock (snd c))) e2"
proof -
  have r: "0 \<le> i" "i < CONNECTIONS" and c: "c = connection s i" using g by (auto dest: get_SomeD)
  then have iu: "uint (app s 1) = i" using i by simp
  let ?a = "cur_client s"
  let ?d = "(closing ?a c)\<lparr>cls_timeout := Some Cls_timeout, cls_time := time_tick s + CLS_TIMEOUT\<rparr>"
  have h: "h = word_of_int (host c)" using assms(3) by simp
  obtain s1 e1 e2 where s1: "app_close s = Some s1" "out s1 = out s @ [e1, e2]"
    "control h NCP_CLS (bytes_of (lsock (rcv c)) @ bytes_of (rsock (rcv c))) e1"
    "control h NCP_CLS (bytes_of (lsock (snd c)) @ bytes_of (rsock (snd c))) e2"
    "connection s1 = (connection s)(i := ?d)"
    using app_close_effect [OF g [folded iu] h iu [symmetric]] by auto
  have d: "host ?d = uint h" "lsock (rcv ?d) = lsock (rcv c)" "rsock (rcv ?d) = rsock (rcv c)"
    "lsock (snd ?d) = lsock (snd c)" "rsock (snd ?d) = rsock (snd c)" "sent_rcv_cls ?d" "sent_snd_cls ?d"
    "client ?d = ?a" "flags ?d = flags (closing ?a c)" "bsize (snd ?d) = bsize (snd c)"
    using assms(3) by (simp_all add: closing_def setter_defs sent_rcv_cls_def sent_snd_cls_def)
  let ?s1 = "s1\<lparr>packet := p\<rparr>"
  have f1: "same_sockets s ?s1" using s1(5) d assms(3) c by (simp add: same_sockets_def)
  have g1: "get i ?s1 = Some ?d" using r s1(5) by (simp add: get_def)
  have c1: "\<not> all_cls (closed_rcv ?d)" using assms(4) d(10)
    by (simp add: all_cls_def closed_rcv_def setter_defs got_snd_cls_def)
  obtain s2 where s2: "process_cls h off ?s1 = Some (8, s2)"
    "connection s2 = (connection s)(i := closed_rcv ?d)" "out s2 = out s1"
    using process_cls_closing [OF g1 d(9,6,7) p(1), of "rsock (rcv c)" "lsock (rcv c)" i h "closed_rcv ?d"]
      p(2,3) unique(1) find_same [OF f1] r c1 s1(5) by auto
  let ?s2 = "s2\<lparr>packet := p'\<rparr>" and ?e = "closed_rcv ?d"
  have e: "flags ?e = flags (closing ?a c)" "sent_rcv_cls ?e" "sent_snd_cls ?e" "client ?e = ?a"
    "host ?e = uint h" "lsock (rcv ?e) = lsock (rcv c)" "rsock (rcv ?e) = rsock (rcv c)"
    "lsock (snd ?e) = lsock (snd c)" "rsock (snd ?e) = rsock (snd c)" "got_rcv_cls ?e"
    using d by (simp_all add: closed_rcv_def setter_defs sent_rcv_cls_def sent_snd_cls_def got_rcv_cls_def)
  have f2: "same_sockets s ?s2" using s2(2) e assms(3) c by (simp add: same_sockets_def)
  have g2: "get i ?s2 = Some ?e" using r s2(2) by (simp add: get_def)
  have c2: "all_cls (closed_snd ?e)" using e(2,10)
    by (simp add: all_cls_def closed_snd_def setter_defs got_snd_cls_def sent_snd_cls_def
        got_rcv_cls_def sent_rcv_cls_def)
  obtain s3 where s3: "process_cls h off ?s2 = Some (8, s3)"
    "connection s3 = (connection s)(i := destroy_conn (closed_snd ?e))"
    "out s3 = out s2 @ [To_app ?a [WIRE_CLOSE + 1, word_of_int i]]"
    using process_cls_closing [OF g2 e(1,2,3) p(1), of "rsock (snd c)" "lsock (snd c)" "- 1" h "closed_snd ?e"]
      p(4,5) unique(2,3) find_same [OF f2] r c2 s2(2) e(4) by auto
  show ?thesis
    using s1(1-4) s2 s3 e(5)
    by (intro exI [of _ s1] exI [of _ s2] exI [of _ s3] exI [of _ e1] exI [of _ e2])
      (simp add: destroy_conn_def)
qed

theorem close_handshake_witness:
  "\<exists>s1 s2 s3 e1 e2. app_close open_ncp = Some s1 \<and>
    process_cls 5 10 (s1\<lparr>packet := put_bytes 10 (bytes_of 21 @ bytes_of 10) (\<lambda>_. 0)\<rparr>) = Some (8, s2) \<and>
    process_cls 5 10 (s2\<lparr>packet := put_bytes 10 (bytes_of 20 @ bytes_of 11) (\<lambda>_. 0)\<rparr>) = Some (8, s3) \<and>
    host (connection s3 4) = - 1 \<and> out s3 = [e1, e2, To_app zero_client [WIRE_CLOSE + 1, 4]]"
proof -
  let ?p = "put_bytes 10 (bytes_of 21 @ bytes_of 10) (\<lambda>_. 0)" and ?q = "put_bytes 10 (bytes_of 20 @ bytes_of 11) (\<lambda>_. 0)"
  have p: "sock (\<lambda>k. ?p (10 + k)) = rsock (rcv established)" "sock (\<lambda>k. ?p (10 + (4 + k))) = lsock (rcv established)"
    "sock (\<lambda>k. ?q (10 + k)) = rsock (snd established)" "sock (\<lambda>k. ?q (10 + (4 + k))) = lsock (snd established)"
    by (simp_all add: sock_eq put_bytes_def nth_append bytes_of_def word_of_bytes_of established_def)
  have "get 4 open_ncp = Some established" by (simp add: get_def open_ncp_def)
  from close_handshake [OF this _ _ _ _ _ _ _ p, of 5] open_ncp_find(2-4) show ?thesis
    by (fastforce simp: established_def open_ncp_def empty_ncp_def zero_ncp_def put_bytes_def)
qed

end
