(* ===== verification/Ncp_Protocol.thy ===== *)
theory Ncp_Protocol
  imports Ncp_Conn
begin

text \<open>
  The protocol between two hosts: a control message that one daemon sends is the command that the
  other one carries out. The network between them, which is no part of the program, is described
  by \<open>carried\<close>: it delivers the bytes behind the UDP header, with the number of the source host in
  place of the destination.
\<close>

section \<open>Delivery\<close>

definition carried :: "u8 \<Rightarrow> u8 list \<Rightarrow> mem \<Rightarrow> bool" where
  "carried source d p \<longleftrightarrow> p 1 = source \<and> (\<forall>k. k \<noteq> 1 \<and> 12 + k < length d \<longrightarrow> p k = d ! (12 + k))"

lemma carried_control:
  assumes "control dest type params (To_imp d)" and "carried source d p"
  shows "p 0 = 0" "p 1 = source" "p 2 = 0" "p 6 = 0" "p 7 = word_of_nat (length params + 1)" "p 9 = type"
    and "k < length params \<Longrightarrow> p (10 + k) = params ! k"
proof -
  let ?l = "[0, dest, 0, 0, 0, 8, 0, word_of_nat (length params + 1), 0, type] @ params"
  have d: "take (10 + length params) (drop 12 d) = ?l" using assms(1) by (simp add: control_def)
  then have "length (take (10 + length params) (drop 12 d)) = length ?l" by simp
  then have len: "22 + length params \<le> length d" by simp
  have n: "p k = ?l ! k" if "k < 10 + length params" "k \<noteq> 1" for k
  proof -
    have "p k = d ! (12 + k)" using assms(2) that len by (simp add: carried_def)
    also have "\<dots> = take (10 + length params) (drop 12 d) ! k" using that len by simp
    finally show ?thesis by (simp only: d)
  qed
  show "p 1 = source" using assms(2) by (simp add: carried_def)
  show "p 0 = 0" "p 2 = 0" "p 6 = 0" "p 7 = word_of_nat (length params + 1)" "p 9 = type"
    using n [of 0] n [of 2] n [of 6] n [of 7] n [of 9] by simp_all
  show "k < length params \<Longrightarrow> p (10 + k) = params ! k" using n [of "10 + k"] by (simp add: nth_append)
qed

text \<open>A message with one command is that command, run on the parameters at \<open>packet + 10\<close>.\<close>

lemma one_command:
  assumes "control dest type params (To_imp d)" and "carried source d p" and "2 \<le> n" and "length params < 178"
  shows "process_imp n (s\<lparr>packet := p\<rparr>) = process_ncp_loop source 9 (length params + 1) 0 (s\<lparr>packet := p\<rparr>)"
proof -
  note f = carried_control [OF assms(1,2)]
  let ?count = "push_bit 8 (ucast (p 6)) OR ucast (p 7) :: u16"
  have "unat (word_of_nat (length params + 1) :: u8) = length params + 1"
    using assms(4) by (simp only: unsigned_of_nat) (simp add: take_bit_eq_mod)
  then have "unat (ucast (word_of_nat (length params + 1) :: u8) :: u16) = length params + 1"
    using assms(4) by (simp only: unsigned_ucast_eq) (simp add: take_bit_eq_mod)
  then have "unat ?count = length params + 1" using f by simp
  then show ?thesis using assms(3) f by (simp add: process_imp_def process_regular_def process_ncp_def Let_def)
qed

lemma process_control:
  assumes "control dest type params (To_imp d)" and "carried source d p" and "2 \<le> n"
    and "length params < 178" and "type \<le> NCP_MAX"
    and run: "ncp_message type source 10 (s\<lparr>packet := p\<rparr>) = Some (length params, t)"
  shows "process_imp n (s\<lparr>packet := p\<rparr>) = Some t"
proof -
  have "\<not> NCP_MAX < type" using assms(5) by (simp add: not_less)
  then show ?thesis
    unfolding one_command [OF assms(1-4)] using carried_control(6) [OF assms(1,2)] run
    by (simp add: process_ncp_loop.simps [of source 9 _ 0] process_ncp_loop.simps [of source 9 _ "Suc (length params)"]
        args_def)
qed

lemma process_control_fails:
  assumes "control dest type params (To_imp d)" and "carried source d p" and "2 \<le> n"
    and "length params < 178" and "type \<le> NCP_MAX" and run: "ncp_message type source 10 (s\<lparr>packet := p\<rparr>) = None"
  shows "process_imp n (s\<lparr>packet := p\<rparr>) = None"
proof -
  have "\<not> NCP_MAX < type" using assms(5) by (simp add: not_less)
  then show ?thesis
    unfolding one_command [OF assms(1-4)] using carried_control(6) [OF assms(1,2)] run
    by (simp add: process_ncp_loop.simps [of source 9 _ 0] args_def)
qed

section \<open>Echo\<close>

lemma eco_answered:
  assumes "control hb NCP_ECO [x] (To_imp d)" and "carried ha d p" and "2 \<le> n"
  shows "\<exists>t e. process_imp n (s\<lparr>packet := p\<rparr>) = Some t \<and> out t = out s @ [To_imp e] \<and>
    control ha NCP_ERP [x] (To_imp e)"
proof -
  obtain t where t: "ncp_erp ha x (s\<lparr>packet := p\<rparr>) = Some t" "sends ha NCP_ERP [x] (s\<lparr>packet := p\<rparr>) t"
    using commands_send(6) by blast
  have "p 10 = x" using carried_control(7) [OF assms(1,2), of 0] by simp
  then have "process_eco ha 10 (s\<lparr>packet := p\<rparr>) = Some (1, t)"
    using t(1) by (simp add: process_eco_def args_def)
  then have "process_imp n (s\<lparr>packet := p\<rparr>) = Some t"
    by (intro process_control [OF assms]) (simp_all add: ncp_message_def)
  with t(2) show ?thesis by (auto simp: sends_def control_def)
qed

lemma erp_delivered:
  assumes "control ha NCP_ERP [x] (To_imp d)" and "carried hb d p" and "2 \<le> n"
  shows "\<exists>t. process_imp n (s\<lparr>packet := p\<rparr>) = Some t \<and>
    out t = out s @ [To_app (echo (hosts s hb)) [WIRE_ECHO + 1, hb, x, 0x10]] \<and>
    addr_len (echo (hosts t hb)) = 0"
proof -
  let ?t = "clear_echo hb (reply_echo hb x 0x10 (s\<lparr>packet := p\<rparr>))"
  have "p 10 = x" using carried_control(7) [OF assms(1,2), of 0] by simp
  then have "process_erp hb 10 (s\<lparr>packet := p\<rparr>) = Some (1, ?t)"
    by (simp add: process_erp_def args_def)
  then have "process_imp n (s\<lparr>packet := p\<rparr>) = Some ?t"
    by (intro process_control [OF assms]) (simp_all add: ncp_message_def)
  then show ?thesis by (simp add: clear_echo_def reply_echo_def deliver_def upd_host_def)
qed

text \<open>
  C10. An echo through two daemons. An application asks its daemon for an echo of a host that no
  other application waits for. Whatever the states of the daemons, the ECO that is sent makes the
  other daemon send one ERP with the same byte, and that ERP makes the first daemon give the
  application its reply, free of error and with the byte, and wait for the echo no longer.
\<close>

theorem echo_returns:
  assumes idle: "addr_len (echo (hosts a hb)) = 0" and "0 < addr_len c"
  shows "\<exists>a1 d1. application c [WIRE_ECHO, hb, x] a = Some a1 \<and> out a1 = out a @ [To_imp d1] \<and>
    echo (hosts a1 hb) = c \<and>
    (\<forall>b p1 n1. carried ha d1 p1 \<longrightarrow> 2 \<le> n1 \<longrightarrow>
      (\<exists>b1 d2. process_imp n1 (b\<lparr>packet := p1\<rparr>) = Some b1 \<and> out b1 = out b @ [To_imp d2] \<and>
        (\<forall>p2 n2. carried hb d2 p2 \<longrightarrow> 2 \<le> n2 \<longrightarrow>
          (\<exists>a2. process_imp n2 (a1\<lparr>packet := p2\<rparr>) = Some a2 \<and>
            out a2 = out a1 @ [To_app c [WIRE_ECHO + 1, hb, x, 0x10]] \<and>
            addr_len (echo (hosts a2 hb)) = 0))))"
proof -
  let ?r = "receive_request c [WIRE_ECHO, hb, x] a"
  let ?u = "upd_host hb (\<lambda>h. h\<lparr>echo := c, erp_time := time_tick a + ERP_TIMEOUT\<rparr>) ?r"
  have r: "app ?r 0 = WIRE_ECHO" "app ?r 1 = hb" "app ?r 2 = x" "cur_client ?r = c" "hosts ?r = hosts a"
    "out ?u = out a" "time_tick ?r = time_tick a"
    by (simp_all add: receive_request_def put_bytes_def upd_host_def)
  obtain a1 where a1: "ncp_eco hb x ?u = Some a1" "sends hb NCP_ECO [x] ?u a1"
    using eco_sends by blast
  have app: "application c [WIRE_ECHO, hb, x] a = Some a1"
    using idle a1(1) r by (simp add: application_def wire_check_def app_echo_def Let_def)
  obtain d1 where d1: "out a1 = out a @ [To_imp d1]" "control hb NCP_ECO [x] (To_imp d1)"
    using a1(2) r(6) by (auto simp: sends_def control_def)
  have h: "echo (hosts a1 hb) = c" using a1(2) by (simp add: sends_def upd_host_def)
  have "\<forall>b p1 n1. carried ha d1 p1 \<longrightarrow> 2 \<le> n1 \<longrightarrow>
      (\<exists>b1 d2. process_imp n1 (b\<lparr>packet := p1\<rparr>) = Some b1 \<and> out b1 = out b @ [To_imp d2] \<and>
        (\<forall>p2 n2. carried hb d2 p2 \<longrightarrow> 2 \<le> n2 \<longrightarrow>
          (\<exists>a2. process_imp n2 (a1\<lparr>packet := p2\<rparr>) = Some a2 \<and>
            out a2 = out a1 @ [To_app c [WIRE_ECHO + 1, hb, x, 0x10]] \<and>
            addr_len (echo (hosts a2 hb)) = 0)))"
  proof (intro allI impI)
    fix b p1 n1
    assume "carried ha d1 p1" "2 \<le> (n1 :: int)"
    from eco_answered [OF d1(2) this] obtain b1 d2 where "process_imp n1 (b\<lparr>packet := p1\<rparr>) = Some b1"
      "out b1 = out b @ [To_imp d2]" "control ha NCP_ERP [x] (To_imp d2)" by blast
    with erp_delivered [OF this(3), of hb _ _ a1] h show "\<exists>b1 d2. process_imp n1 (b\<lparr>packet := p1\<rparr>) = Some b1 \<and>
        out b1 = out b @ [To_imp d2] \<and> (\<forall>p2 n2. carried hb d2 p2 \<longrightarrow> 2 \<le> n2 \<longrightarrow>
          (\<exists>a2. process_imp n2 (a1\<lparr>packet := p2\<rparr>) = Some a2 \<and>
            out a2 = out a1 @ [To_app c [WIRE_ECHO + 1, hb, x, 0x10]] \<and>
            addr_len (echo (hosts a2 hb)) = 0))" by blast
  qed
  then show ?thesis using app d1(1) h by blast
qed

text \<open>What the network makes of a datagram.\<close>

definition carry :: "u8 \<Rightarrow> u8 list \<Rightarrow> mem" where
  "carry source d = (\<lambda>k. if k = 1 then source else if 12 + k < length d then d ! (12 + k) else 0)"

lemma carried_carry: "carried source d (carry source d)"
  by (simp add: carried_def carry_def)

theorem echo_returns_witness:
  "\<exists>a1 d1 b1 d2 a2. application \<lparr>sun_path = ''/tmp/client.7'', addr_len = 110\<rparr> [WIRE_ECHO, 5, 42] zero_ncp = Some a1 \<and>
    out a1 = [To_imp d1] \<and> process_imp 6 (zero_ncp\<lparr>packet := carry 9 d1\<rparr>) = Some b1 \<and>
    out b1 = [To_imp d2] \<and> process_imp 6 (a1\<lparr>packet := carry 5 d2\<rparr>) = Some a2 \<and>
    out a2 = [To_imp d1, To_app \<lparr>sun_path = ''/tmp/client.7'', addr_len = 110\<rparr> [WIRE_ECHO + 1, 5, 42, 0x10]]"
proof -
  let ?c = "\<lparr>sun_path = ''/tmp/client.7'', addr_len = 110\<rparr>"
  have idle: "addr_len (echo (hosts zero_ncp 5)) = 0" "out zero_ncp = []"
    by (simp_all add: zero_ncp_def zero_client_def)
  have "0 < addr_len ?c" by simp
  from echo_returns [OF idle(1) this, of 42 9]
  obtain a1 d1 where a: "application ?c [WIRE_ECHO, 5, 42] zero_ncp = Some a1" "out a1 = [To_imp d1]"
    and b: "\<And>b p1 n1. carried 9 d1 p1 \<Longrightarrow> 2 \<le> n1 \<Longrightarrow>
      (\<exists>b1 d2. process_imp n1 (b\<lparr>packet := p1\<rparr>) = Some b1 \<and> out b1 = out b @ [To_imp d2] \<and>
        (\<forall>p2 n2. carried 5 d2 p2 \<longrightarrow> 2 \<le> n2 \<longrightarrow>
          (\<exists>a2. process_imp n2 (a1\<lparr>packet := p2\<rparr>) = Some a2 \<and>
            out a2 = out a1 @ [To_app ?c [WIRE_ECHO + 1, 5, 42, 0x10]] \<and>
            addr_len (echo (hosts a2 5)) = 0)))"
    unfolding idle(2) by auto
  obtain b1 d2 where b1: "process_imp 6 (zero_ncp\<lparr>packet := carry 9 d1\<rparr>) = Some b1" "out b1 = [To_imp d2]"
    and c: "\<And>p2 n2. carried 5 d2 p2 \<Longrightarrow> 2 \<le> n2 \<Longrightarrow>
          (\<exists>a2. process_imp n2 (a1\<lparr>packet := p2\<rparr>) = Some a2 \<and>
            out a2 = out a1 @ [To_app ?c [WIRE_ECHO + 1, 5, 42, 0x10]] \<and>
            addr_len (echo (hosts a2 5)) = 0)"
    using b [OF carried_carry, of 6 zero_ncp] idle(2) by auto
  from c [OF carried_carry, of 6] a b1 show ?thesis by auto
qed

end
