(* ===== verification/Ncp_Icp.thy ===== *)
theory Ncp_Icp
  imports Ncp_Conn Ncp_Data
begin

text \<open>
  The Initial Connection Protocol on the side of the server: a listening socket, the RTS of a
  client for it, and the two connections that the daemon makes of it.
\<close>

section \<open>Listening\<close>

lemma find_listen_hit:
  "find_listen socket s \<noteq> - 1 \<Longrightarrow> 0 \<le> find_listen socket s \<and> find_listen socket s < CONNECTIONS \<and>
     l_sock (listening s (find_listen socket s)) = socket"
  unfolding find_listen_def by (rule scan_hit)

text \<open>
  Listening. A request to listen to a socket that nobody listens to takes the first free slot,
  without an answer yet, and from then on the look-up of that socket finds it; the look-ups of all
  other sockets in use are as before. If somebody listens already, or no slot is free, the table
  stays as it is and the application is told so at once.
\<close>

theorem listen_registers:
  assumes "socket \<noteq> 0" and "k = find_listen 0 s"
  shows "\<exists>t. application a (WIRE_LISTEN # bytes_of socket @ [z]) s = Some t \<and>
    (if find_listen socket s = - 1 \<and> k \<noteq> - 1
     then listening t = (listening s)(k := \<lparr>l_sock = socket, l_size = z\<rparr>) \<and> find_listen socket t = k \<and>
       (\<forall>x. x \<noteq> socket \<and> x \<noteq> 0 \<longrightarrow> find_listen x t = find_listen x s) \<and> out t = out s
     else listening t = listening s \<and>
       out t = out s @ [To_app a ([WIRE_LISTEN + 1, 0] @ bytes_of socket @ [0, 0])])"
proof -
  let ?r = "receive_request a (WIRE_LISTEN # bytes_of socket @ [z]) s"
  have r: "app ?r 0 = WIRE_LISTEN" "word_of_bytes (app ?r 1) (app ?r 2) (app ?r 3) (app ?r 4) = socket"
    "app ?r 5 = z" "cur_client ?r = a" "listening ?r = listening s" "out ?r = out s"
    by (simp_all add: receive_request_def put_bytes_def bytes_of_def)
  have f: "find_listen x ?r = find_listen x s" for x by (simp add: find_listen_def r)
  have app: "application a (WIRE_LISTEN # bytes_of socket @ [z]) s = app_listen ?r"
    using r(1) by (simp add: application_def wire_check_def Let_def)
  show ?thesis
  proof (cases "find_listen socket s = - 1 \<and> k \<noteq> - 1")
    case True
    then have k: "0 \<le> k" "k < CONNECTIONS" "l_sock (listening s k) = 0"
      using find_listen_hit [of 0 s] assms(2) by auto
    obtain t where t: "app_listen ?r = Some t" "listening t = (listening s)(k := \<lparr>l_sock = socket, l_size = z\<rparr>)"
      "out t = out s"
      using True k r by (simp add: app_listen_def f assms(2) [symmetric] upd_def)
    have none: "\<forall>i. 0 \<le> i \<and> i < CONNECTIONS \<longrightarrow> l_sock (listening s i) \<noteq> socket"
      using True by (simp add: find_listen_def scan_eq_minus1)
    have "find_listen socket t = k"
      unfolding find_listen_def using k none by (intro scan_eqI) (auto simp: t)
    moreover have "find_listen x t = find_listen x s" if "x \<noteq> socket" "x \<noteq> 0" for x
    proof -
      have "(\<lambda>i. l_sock (listening t i) = x) = (\<lambda>i. l_sock (listening s i) = x)"
        using that k(3) by (auto simp: t fun_eq_iff)
      then show ?thesis by (simp add: find_listen_def)
    qed
    ultimately show ?thesis using True t by (simp add: app)
  next
    case False
    have "\<exists>t. app_listen ?r = Some t \<and> listening t = listening s \<and>
        out t = out s @ [To_app a ([WIRE_LISTEN + 1, 0] @ bytes_of socket @ [0, 0])]"
      using False r f assms(2) by (auto simp: app_listen_def reply_listen_def upd_def deliver_def Let_def)
    then show ?thesis using False by (auto simp: app)
  qed
qed

theorem listen_registers_witness:
  "\<exists>t. application zero_client (WIRE_LISTEN # bytes_of 23 @ [8]) zero_ncp = Some t \<and>
     find_listen 23 t = 0 \<and> out t = []"
proof -
  have "find_listen 0 zero_ncp = 0" "find_listen 23 zero_ncp = - 1" "out zero_ncp = []"
    unfolding find_listen_def by (rule scan_eqI; simp add: zero_ncp_def) (simp_all add: scan_eq_minus1 zero_ncp_def)
  then show ?thesis using listen_registers [of 23 0 zero_ncp zero_client 8] by auto
qed

section \<open>The RTS of a client\<close>

text \<open>Data handed to a connection without an allocation waits for one.\<close>

lemma when_all_waits:
  assumes "get i s = Some c" and "all_msgs c < 1" and "c_div (bits + 7) 8 = int n"
    and "off + n \<le> cap" and "5 + n \<le> BUFFER_CAP"
  shows "when_all i src cap off bits cb to s = upd i (\<lambda>c. c\<lparr>all_callback := Some cb, all_timeout := Some to,
     all_time := time_tick s + ALL_TIMEOUT, wlength := int n, remaining := int n, ptr := 5,
     buffer := put_bytes 5 (get_bytes off n src) (buffer c)\<rparr>) s"
proof -
  have i: "0 \<le> i" "i < CONNECTIONS" "c = connection s i" using assms(1) by (auto dest: get_SomeD)
  then show ?thesis
    using assms by (simp add: when_all_def memcpy_def check_all_def get_def upd_def Let_def)
qed

lemma waiting_unsent:
  "unsent (c\<lparr>all_callback := cb, all_timeout := to, all_time := x, wlength := int n, remaining := int n,
     ptr := 5, buffer := put_bytes 5 (get_bytes off n src) b\<rparr>) = get_bytes off n src"
  by (simp add: unsent_def get_put_bytes_len)

text \<open>The connection on which the server's socket number will be sent, and the data connection.\<close>

definition icp_conn :: "u8 \<Rightarrow> u32 \<Rightarrow> u32 \<Rightarrow> u8 \<Rightarrow> conn \<Rightarrow> bool" where
  "icp_conn h ls rs lnk c \<longleftrightarrow> host c = uint h \<and> snd c = \<lparr>link = uint lnk, bsize = 32, lsock = ls, rsock = rs\<rparr> \<and>
     flags c = CONN_SERVER OR CONN_SENT_STR \<and> all_callback c = Some Send_socket \<and> unsent c = bytes_of 128 \<and> ptr c = 5"

definition icp_data_conn :: "u8 \<Rightarrow> u32 \<Rightarrow> u32 \<Rightarrow> u8 \<Rightarrow> conn \<Rightarrow> bool" where
  "icp_data_conn h ls rs z c \<longleftrightarrow> host c = uint h \<and>
     rcv c = \<lparr>link = 46, bsize = 0, lsock = 128, rsock = rs + 3\<rparr> \<and>
     snd c = \<lparr>link = 0, bsize = uint z, lsock = 129, rsock = rs + 2\<rparr> \<and>
     flags c = CONN_LISTEN \<and> listen c = ls \<and> rfc_timeout c = Some Just_drop"

text \<open>Nothing of what the peer allocates, or of what waits for it, has changed.\<close>

definition same_allocation :: "conn \<Rightarrow> conn \<Rightarrow> bool" where
  "same_allocation c d \<longleftrightarrow> all_msgs d = all_msgs c \<and> all_bits d = all_bits c \<and> all_callback d = all_callback c"

text \<open>What else there is to say of two entries that were taken while one message to \<open>h\<close> was sent.\<close>

definition opened_beside :: "u8 \<Rightarrow> int \<Rightarrow> int \<Rightarrow> ncp \<Rightarrow> ncp \<Rightarrow> bool" where
  "opened_beside h i j s t \<longleftrightarrow> (\<forall>k. k \<noteq> i \<and> k \<noteq> j \<longrightarrow> connection t k = connection s k) \<and>
     rcv (connection t i) = (rcv (connection s i))\<lparr>lsock := 0, rsock := 0\<rparr> \<and>
     rfnm_callback (connection t i) = rfnm_callback (connection s i) \<and>
     rfnm_callback (connection t j) = rfnm_callback (connection s j) \<and> same_allocation (connection s j) (connection t j) \<and>
     all_msgs (connection t i) = all_msgs (connection s i) \<and> all_bits (connection t i) = all_bits (connection s i) \<and>
     listening t = listening s \<and> cur_client t = cur_client s \<and>
     outstanding_rfnm (hosts t h) = outstanding_rfnm (hosts s h) + 1"

lemma rts_listening_opens:
  assumes wf: "wf_ncp s" and i: "0 \<le> i" "i < CONNECTIONS" "free_entry s i"
    and two: "0 \<le> i'" "i' < CONNECTIONS" "free_entry s i'" "i' \<noteq> i"
    and open1: "make_open (uint h) 0 0 ls rs s = Some (i, s\<lparr>connection := (connection s)
         (i := open_conn (uint h) 0 0 ls rs (time_tick s) (connection s i))\<rparr>)"
  shows "\<exists>t e j. rts_listening h ls rs lnk k s = Some t \<and> out t = out s @ [e] \<and>
    control h NCP_STR (bytes_of ls @ bytes_of rs @ [32]) e \<and>
    0 \<le> j \<and> j < CONNECTIONS \<and> j \<noteq> i \<and> free_entry s j \<and> icp_conn h ls rs lnk (connection t i) \<and>
    icp_data_conn h ls rs (l_size (listening s k)) (connection t j) \<and> opened_beside h i j s t"
proof -
  let ?c0 = "open_conn (uint h) 0 0 ls rs (time_tick s) (connection s i)"
  let ?c1 = "set_snd_link (uint lnk) (set_snd_size 32 (set_flags CONN_SERVER ?c0))"
  let ?c3 = "set_flags CONN_SENT_STR ?c1"
  let ?b = "put_bytes 5 (get_bytes 0 4 (put_bytes 0 (bytes_of 128) (\<lambda>_. 0))) (buffer ?c3)"
  let ?c4 = "?c3\<lparr>all_callback := Some Send_socket, all_timeout := Some Send_socket_timeout,
     all_time := time_tick s + ALL_TIMEOUT, wlength := 4, remaining := 4, ptr := 5, buffer := ?b\<rparr>"
  let ?u1 = "s\<lparr>connection := (connection s)(i := ?c1)\<rparr>"
  have c1: "host ?c1 = uint h" "lsock (snd ?c1) = ls" "rsock (snd ?c1) = rs" "bsize (snd ?c1) = 32"
    by (simp_all add: setter_defs open_conn_def)
  have msgs: "all_msgs ?c3 < 1" using wfD [OF wf i(1,2)] i(3) by (simp add: wf_defs setter_defs open_conn_def)
  obtain u2 where u2: "ncp_str h ls rs 32 ?u1 = Some u2" "sends h NCP_STR (bytes_of ls @ bytes_of rs @ [32]) ?u1 u2"
    using commands_send(1) by blast
  then have v2: "connection u2 i = ?c1" "time_tick u2 = time_tick s" "connection u2 = connection ?u1"
    "listening u2 = listening s" by (simp_all add: sends_def)
  define u3 where "u3 = u2\<lparr>connection := (connection u2)(i := ?c3)\<rparr>"
  define u4 where "u4 = u3\<lparr>connection := (connection u3)(i := ?c4)\<rparr>"
  have g3: "get i u3 = Some ?c3" and g4: "get i u4 = Some ?c4" using i by (simp_all add: get_def u3_def u4_def)
  have wall: "when_all i (put_bytes 0 (bytes_of 128) (\<lambda>_. 0)) 4 0 32 Send_socket Send_socket_timeout u3 = Some u4"
    using when_all_waits [OF g3 msgs, of 32 4 0 4] i v2
    by (simp add: c_div_pos upd_def u4_def u3_def)
  have s4: "rsock (snd ?c4) = rs" "host ?c4 = uint h" by (simp_all add: setter_defs open_conn_def)
  have first: "rts_listening h ls rs lnk k s = (do { (j, s') \<leftarrow> make_open (uint h) 128 (rs + 3) (128 + 1) (rs + 2) u4;
      s' \<leftarrow> upd j (\<lambda>c. (set_snd_link 0 (set_rcv_size 0 (set_rcv_link 46
                 (set_snd_size (uint (l_size (listening s k))) (set_flags CONN_LISTEN c)))))\<lparr>listen := ls\<rparr>) s';
      unless_rfc j Just_drop s' })"
  proof -
    have up1: "upd i (\<lambda>c. set_snd_link (uint lnk) (set_snd_size 32 (set_flags CONN_SERVER c)))
        (s\<lparr>connection := (connection s)(i := ?c0)\<rparr>) = Some ?u1" "get i ?u1 = Some ?c1"
      "upd i (set_flags CONN_SENT_STR) u2 = Some u3"
      using i by (simp_all add: upd_def get_def u3_def v2)
    have w: "word_of_int (uint h) = h" "word_of_int 32 = (32 :: u8)" by simp_all
    show ?thesis
      unfolding rts_listening_def Let_def open1 bind.bind_lunit prod.case up1 c1 w u2(1) wall g4 s4 ..
  qed
  have conn4: "connection u4 = (connection s)(i := ?c4)" by (simp add: u4_def u3_def v2)
  show ?thesis
  proof (cases rule: make_open_cases [of "uint h" 128 "rs + 3" "128 + 1" "rs + 2" u4])
    case full
    then show ?thesis using two by (auto simp: conn4)
  next
    case (taken j)
    have ji: "j \<noteq> i" using taken(3) s4(2) by (auto simp: conn4)
    let ?d = "((set_snd_link 0 (set_rcv_size 0 (set_rcv_link 46 (set_snd_size (uint (l_size (listening s k)))
       (set_flags CONN_LISTEN (open_conn (uint h) 128 (rs + 3) (128 + 1) (rs + 2) (time_tick u4) (connection u4 j)))))))
       \<lparr>listen := ls\<rparr>)\<lparr>rfc_timeout := Some Just_drop, rfc_time := time_tick u4 + RFC_TIMEOUT\<rparr>"
    let ?t = "u4\<lparr>connection := (connection u4)(j := ?d)\<rparr>"
    have "rts_listening h ls rs lnk k s = Some ?t"
      unfolding first taken(5) using taken(1,2) by (simp add: upd_def unless_rfc_def)
    moreover obtain e where "out ?t = out s @ [e]" "control h NCP_STR (bytes_of ls @ bytes_of rs @ [32]) e"
      using u2(2) by (auto simp: sends_def u4_def u3_def)
    moreover have "icp_conn h ls rs lnk (connection ?t i)"
      using ji waiting_unsent [where c = ?c3 and n = 4 and off = 0 and src = "put_bytes 0 (bytes_of 128) (\<lambda>_. 0)"]
      by (simp add: icp_conn_def conn4 get_put_bytes_len) (simp add: setter_defs open_conn_def or.commute)
    moreover have "icp_data_conn h ls rs (l_size (listening s k)) (connection ?t j)"
      by (simp add: icp_data_conn_def setter_defs open_conn_def)
    moreover have "free_entry s j" using taken(3) ji by (simp add: conn4)
    moreover have "opened_beside h i j s ?t"
      using ji u2(2) by (simp add: opened_beside_def conn4)
        (simp add: setter_defs open_conn_def sends_def u4_def u3_def v2 conn4 same_allocation_def)
    ultimately show ?thesis using taken(1,2) ji by blast
  qed
qed

lemma rts_for_listener:
  assumes wf: "wf_ncp s" and k: "find_listen ls s \<noteq> - 1" and l: "LINK_MIN \<le> lnk" "lnk \<le> LINK_MAX"
    and p: "off + 9 \<le> PACKET_CAP" "sock (\<lambda>k. packet s (off + k)) = rs"
      "sock (\<lambda>k. packet s (off + (4 + k))) = ls" "packet s (off + 8) = lnk"
    and free: "free_entry s i1" "free_entry s i2" "i1 \<noteq> i2" "0 \<le> i1" "i1 < CONNECTIONS" "0 \<le> i2" "i2 < CONNECTIONS"
  shows "\<exists>t e i j. process_rts h off s = Some (9, t) \<and> out t = out s @ [e] \<and>
    control h NCP_STR (bytes_of ls @ bytes_of rs @ [32]) e \<and>
    0 \<le> i \<and> i < CONNECTIONS \<and> 0 \<le> j \<and> j < CONNECTIONS \<and>
    free_entry s i \<and> free_entry s j \<and> i \<noteq> j \<and> icp_conn h ls rs lnk (connection t i) \<and>
    icp_data_conn h ls rs (l_size (listening s (find_listen ls s))) (connection t j) \<and> opened_beside h i j s t"
proof (cases rule: make_open_cases [of "uint h" 0 0 ls rs s])
  case full
  then show ?thesis using free by blast
next
  case (taken i)
  obtain i' where i': "0 \<le> i'" "i' < CONNECTIONS" "free_entry s i'" "i' \<noteq> i"
    using free by (cases "i1 = i") auto
  obtain t e j where t: "rts_listening h ls rs lnk (find_listen ls s) s = Some t" "out t = out s @ [e]"
    "control h NCP_STR (bytes_of ls @ bytes_of rs @ [32]) e" "free_entry s j" "j \<noteq> i" "0 \<le> j" "j < CONNECTIONS"
    "icp_conn h ls rs lnk (connection t i)"
    "icp_data_conn h ls rs (l_size (listening s (find_listen ls s))) (connection t j)" "opened_beside h i j s t"
    using rts_listening_opens [OF wf taken(1,2,3) i' taken(5)] by blast
  have "process_rts h off s = Some (9, t)"
    using k l p t(1) by (simp add: process_rts_def args_def Let_def not_less [symmetric])
  then show ?thesis using t taken(1-3) by blast
qed

text \<open>
  C11. The start of the ICP at the server. An RTS with a legal link for a socket that is listened
  to, while two entries are free, is answered with exactly one message: the STR that confirms it,
  with byte size 32. One entry becomes the connection on which the server's data socket waits to be
  sent, as four bytes, until the client allocates; another one the data connection for that socket
  with the sockets the protocol prescribes, which is dropped unless the client confirms it in time.
\<close>

theorem server_icp_starts:
  assumes wf: "wf_ncp s" and k: "find_listen ls s \<noteq> - 1" and l: "LINK_MIN \<le> lnk" "lnk \<le> LINK_MAX"
    and p: "off + 9 \<le> PACKET_CAP" "sock (\<lambda>k. packet s (off + k)) = rs"
      "sock (\<lambda>k. packet s (off + (4 + k))) = ls" "packet s (off + 8) = lnk"
    and free: "free_entry s i1" "free_entry s i2" "i1 \<noteq> i2" "0 \<le> i1" "i1 < CONNECTIONS" "0 \<le> i2" "i2 < CONNECTIONS"
  shows "\<exists>t e i j. process_rts h off s = Some (9, t) \<and> out t = out s @ [e] \<and>
    control h NCP_STR (bytes_of ls @ bytes_of rs @ [32]) e \<and>
    free_entry s i \<and> free_entry s j \<and> i \<noteq> j \<and> icp_conn h ls rs lnk (connection t i) \<and>
    icp_data_conn h ls rs (l_size (listening s (find_listen ls s))) (connection t j)"
  using rts_for_listener [OF assms] by blast

text \<open>Somebody listens to socket 23, and nothing else is going on.\<close>

definition listening_ncp :: ncp where
  "listening_ncp = empty_ncp\<lparr>listening := (listening empty_ncp)(0 := \<lparr>l_sock = 23, l_size = 8\<rparr>),
     packet := put_bytes 10 (bytes_of 200 @ bytes_of 23 @ [30]) (\<lambda>_. 0)\<rparr>"

theorem server_icp_starts_witness:
  "\<exists>t e i j. process_rts 5 10 listening_ncp = Some (9, t) \<and> out t = [e] \<and>
     control 5 NCP_STR (bytes_of 23 @ bytes_of 200 @ [32]) e \<and>
     icp_conn 5 23 200 30 (connection t i) \<and> icp_data_conn 5 23 200 8 (connection t j)"
proof -
  have wf: "wf_ncp listening_ncp"
    by (simp add: wf_ncp_def listening_ncp_def empty_ncp_def zero_ncp_def zero_conn_def destroy_conn_def wf_defs)
  have k: "find_listen 23 listening_ncp = 0"
    unfolding find_listen_def by (rule scan_eqI) (simp_all add: listening_ncp_def)
  have p: "sock (\<lambda>k. packet listening_ncp (10 + k)) = 200" "sock (\<lambda>k. packet listening_ncp (10 + (4 + k))) = 23"
    "packet listening_ncp (10 + 8) = 30"
    by (simp_all add: listening_ncp_def put_bytes_def sock_eq bytes_of_def)
  have f: "free_entry listening_ncp i" for i by (simp add: listening_ncp_def empty_ncp_def destroy_conn_def)
  have "l_size (listening listening_ncp 0) = 8" "out listening_ncp = []"
    by (simp_all add: listening_ncp_def empty_ncp_def zero_ncp_def)
  then show ?thesis
    using server_icp_starts [OF wf, of 23 30 10 200 0 1 5] k p f by auto
qed

end
