(* ===== verification/Ncp_Icp_Queue.thy ===== *)
theory Ncp_Icp_Queue
  imports Ncp_Icp
begin

text \<open>
  What both sides of the Initial Connection Protocol share: the two entries that wait for a RFNM in
  it, the ICP connection for its CLS and the data connection for its STR and RTS, and the STR and RTS
  that come from the other side.
\<close>

section \<open>The queue, entry by entry\<close>

text \<open>No entry of \<open>ks\<close> for host \<open>h\<close> waits for a RFNM.\<close>

definition idle :: "int \<Rightarrow> int list \<Rightarrow> ncp \<Rightarrow> bool" where
  "idle h ks s \<longleftrightarrow> (\<forall>k \<in> set ks. 0 \<le> k \<and> k < CONNECTIONS \<and>
     (host (connection s k) = h \<longrightarrow> rfnm_callback (connection s k) = None))"

lemma loop_skip: "idle h ks s \<Longrightarrow> check_rfnm_loop n h (ks @ is) s = check_rfnm_loop n h is s"
  by (induction ks) (auto simp: idle_def get_def)

lemma loop_idle: "idle h ks s \<Longrightarrow> check_rfnm_loop n h ks s = Some s"
  using loop_skip [of h ks s n "[]"] by simp

definition dequeued :: "conn \<Rightarrow> conn" where
  "dequeued c = c\<lparr>rfnm_callback := None, rfnm_timeout := None\<rparr>"

lemma loop_hit:
  assumes "idle (uint x) ks s" and "0 \<le> i" and "i < CONNECTIONS"
    and "host (connection s i) = uint x" and "rfnm_callback (connection s i) = Some cb"
    and "outstanding_rfnm (hosts s x) < 4"
  shows "check_rfnm_loop (Suc n) (uint x) (ks @ i # is) s =
    do { s \<leftarrow> call n cb i (s\<lparr>connection := (connection s)(i := dequeued (connection s i))\<rparr>);
         check_rfnm_loop (Suc n) (uint x) is s }"
proof -
  have "0 \<le> uint x \<and> uint x < 256" by simp
  then show ?thesis
    using assms by (simp add: loop_skip get_def upd_def dequeued_def del: call.simps)
qed

section \<open>The call-backs\<close>

text \<open>One message to \<open>x\<close> was sent, and entry \<open>i\<close> is now \<open>c\<close>.\<close>

definition moved :: "u8 \<Rightarrow> int \<Rightarrow> conn \<Rightarrow> effect \<Rightarrow> ncp \<Rightarrow> ncp \<Rightarrow> bool" where
  "moved x i c e s t \<longleftrightarrow> out t = out s @ [e] \<and> connection t = (connection s)(i := c) \<and>
     time_tick t = time_tick s \<and> listening t = listening s \<and> cur_client t = cur_client s \<and>
     outstanding_rfnm (hosts t x) = outstanding_rfnm (hosts s x) + 1"

definition half_of :: "handler \<Rightarrow> conn \<Rightarrow> half" where
  "half_of cb c = (if cb = Send_cls_snd then snd c else rcv c)"

definition closing :: "handler \<Rightarrow> u64 \<Rightarrow> conn \<Rightarrow> conn" where
  "closing cb now c = (if cb = Send_cls_snd then set_snd_link (- 1) c else set_rcv_link (- 1) c)
     \<lparr>cls_timeout := Some Cls_timeout, cls_time := now + CLS_TIMEOUT\<rparr>"

definition requested :: "u32 \<Rightarrow> u64 \<Rightarrow> conn \<Rightarrow> conn" where
  "requested m now c = (set_flags m c)\<lparr>rfc_timeout := Some Rfc_timeout, rfc_time := now + RFC_TIMEOUT\<rparr>"

lemma send_cls_moved:
  assumes cb: "cb \<in> {Send_cls_snd, Send_cls_rcv}" and i: "0 \<le> i" "i < CONNECTIONS" "host (connection s i) = uint x"
  shows "\<exists>t e. (\<forall>n. call n cb i s = Some t) \<and> moved x i (closing cb (time_tick s) (connection s i)) e s t \<and>
    control x NCP_CLS (bytes_of (lsock (half_of cb (connection s i))) @ bytes_of (rsock (half_of cb (connection s i)))) e"
proof -
  let ?c = "connection s i" and ?h = "half_of cb (connection s i)"
  let ?u = "s\<lparr>connection := (connection s)
    (i := if cb = Send_cls_snd then set_snd_link (- 1) (connection s i) else set_rcv_link (- 1) (connection s i))\<rparr>"
  obtain t where "ncp_cls x (lsock ?h) (rsock ?h) ?u = Some t"
    "sends x NCP_CLS (bytes_of (lsock ?h) @ bytes_of (rsock ?h)) ?u t"
    using commands_send(3) by blast
  then show ?thesis
    using cb i by (auto simp: send_cls_snd_def send_cls_rcv_def unless_cls_def upd_def get_def sends_def moved_def
        closing_def half_of_def set_snd_link_def set_rcv_link_def)
qed

lemma send_rts_moved:
  assumes "0 \<le> i" and "i < CONNECTIONS" and "c = connection s i" and "host c = uint x"
    and "\<not> has CONN_SENT_RTS c"
  shows "\<exists>t e. send_rts i s = Some t \<and> moved x i (requested CONN_SENT_RTS (time_tick s) c) e s t \<and>
    control x NCP_RTS (bytes_of (lsock (rcv c)) @ bytes_of (rsock (rcv c)) @ [word_of_int (link (rcv c))]) e"
proof -
  obtain t where "ncp_rts x (lsock (rcv c)) (rsock (rcv c)) (word_of_int (link (rcv c))) s = Some t"
    "sends x NCP_RTS (bytes_of (lsock (rcv c)) @ bytes_of (rsock (rcv c)) @ [word_of_int (link (rcv c))]) s t"
    using commands_send(2) by blast
  then show ?thesis
    using assms by (auto simp: send_rts_def unless_rfc_def upd_def get_def sends_def moved_def requested_def)
qed

lemma send_icp_str_moved:
  assumes "0 \<le> i" and "i < CONNECTIONS" and "c = connection s i" and "host c = uint x"
    and "\<not> has CONN_SENT_STR c"
  shows "\<exists>t e. send_icp_str i s = Some t \<and> moved x i (requested CONN_SENT_STR (time_tick s) c) e s t \<and>
    control x NCP_STR (bytes_of (lsock (snd c)) @ bytes_of (rsock (snd c)) @ [word_of_int (bsize (snd c))]) e"
proof -
  obtain t where "ncp_str x (lsock (snd c)) (rsock (snd c)) (word_of_int (bsize (snd c))) s = Some t"
    "sends x NCP_STR (bytes_of (lsock (snd c)) @ bytes_of (rsock (snd c)) @ [word_of_int (bsize (snd c))]) s t"
    using commands_send(1) by blast
  then show ?thesis
    using assms by (auto simp: send_icp_str_def unless_rfc_def upd_def get_def sends_def moved_def requested_def)
qed

text \<open>The data connection after its STR and RTS.\<close>

definition offered :: "u64 \<Rightarrow> conn \<Rightarrow> conn" where
  "offered now c = requested CONN_SENT_RTS now (dequeued ((requested CONN_SENT_STR now c)
     \<lparr>rfnm_callback := Some Send_rts, rfnm_timeout := Some Send_cls_snd, rfnm_time := now + RFNM_TIMEOUT\<rparr>))"

text \<open>The STR and RTS of a data connection, in the state that follows them.\<close>

definition offers :: "u8 \<Rightarrow> conn \<Rightarrow> effect list \<Rightarrow> bool" where
  "offers x c es \<longleftrightarrow> (\<exists>e e'. es = [e, e'] \<and>
     control x NCP_STR (bytes_of (lsock (snd c)) @ bytes_of (rsock (snd c)) @ [word_of_int (bsize (snd c))]) e \<and>
     control x NCP_RTS (bytes_of (lsock (rcv c)) @ bytes_of (rsock (rcv c)) @ [word_of_int (link (rcv c))]) e')"

lemma table_split: "0 \<le> i \<Longrightarrow> i < CONNECTIONS \<Longrightarrow> [0..CONNECTIONS - 1] = [0..i - 1] @ i # [i + 1..CONNECTIONS - 1]"
  by (rule upto_split3) simp_all

lemma str_and_rts:
  assumes j: "0 \<le> j" "j < CONNECTIONS" and c: "c = connection s j" "host c = uint x"
    and flags: "flags c AND (CONN_SENT_STR OR CONN_SENT_RTS) = 0"
    and before: "idle (uint x) [0..j - 1] s" and few: "outstanding_rfnm (hosts s x) < 3"
  shows "\<exists>u es. call (Suc n) Send_str_and_rts j s = check_rfnm_loop (Suc n) (uint x) [j + 1..CONNECTIONS - 1] u \<and>
    out u = out s @ es \<and> offers x c es \<and> connection u = (connection s)(j := offered (time_tick s) c) \<and>
    time_tick u = time_tick s \<and> listening u = listening s \<and> cur_client u = cur_client s \<and>
    outstanding_rfnm (hosts u x) = outstanding_rfnm (hosts s x) + 2"
proof -
  have f: "\<not> has CONN_SENT_STR c" "\<not> has CONN_SENT_RTS c"
    using flags and.assoc [of "flags c" "CONN_SENT_STR OR CONN_SENT_RTS" CONN_SENT_STR]
      and.assoc [of "flags c" "CONN_SENT_STR OR CONN_SENT_RTS" CONN_SENT_RTS] by (simp_all add: has_def)
  obtain s1 e1 where s1: "send_icp_str j s = Some s1" "moved x j (requested CONN_SENT_STR (time_tick s) c) e1 s s1"
    "control x NCP_STR (bytes_of (lsock (snd c)) @ bytes_of (rsock (snd c)) @ [word_of_int (bsize (snd c))]) e1"
    using send_icp_str_moved [OF j c f(1)] by blast
  let ?d = "(requested CONN_SENT_STR (time_tick s) c)\<lparr>rfnm_callback := Some Send_rts,
     rfnm_timeout := Some Send_cls_snd, rfnm_time := time_tick s + RFNM_TIMEOUT\<rparr>"
  define s2 where "s2 = s1\<lparr>connection := (connection s1)(j := ?d)\<rparr>"
  have s2: "when_rfnm j Send_rts Send_cls_snd s1 = Some s2" "connection s2 = (connection s)(j := ?d)"
    "get j s2 = Some ?d" "time_tick s2 = time_tick s" "out s2 = out s @ [e1]"
    "outstanding_rfnm (hosts s2 x) = outstanding_rfnm (hosts s x) + 1"
    "listening s2 = listening s" "cur_client s2 = cur_client s"
    using j s1(2) by (simp_all add: when_rfnm_def upd_def get_def s2_def moved_def)
  have d: "host ?d = uint x" "\<not> has CONN_SENT_RTS (dequeued ?d)" "rcv (dequeued ?d) = rcv c"
    "host (dequeued ?d) = uint x"
    using c(2) f(2) by (simp_all add: requested_def set_flags_def has_def dequeued_def bit.conj_disj_distrib2)
  let ?s3 = "s2\<lparr>connection := (connection s2)(j := dequeued ?d)\<rparr>"
  obtain u e2 where u: "send_rts j ?s3 = Some u" "moved x j (requested CONN_SENT_RTS (time_tick s) (dequeued ?d)) e2 ?s3 u"
    "control x NCP_RTS (bytes_of (lsock (rcv c)) @ bytes_of (rsock (rcv c)) @ [word_of_int (link (rcv c))]) e2"
    using send_rts_moved [OF j, of "dequeued ?d" ?s3 x] d s2(4) by auto
  have "idle (uint x) [0..j - 1] s2" using before by (auto simp: idle_def s2)
  then have "check_rfnm_loop (Suc n) (uint x) [0..CONNECTIONS - 1] s2 =
      check_rfnm_loop (Suc n) (uint x) [j + 1..CONNECTIONS - 1] u"
    unfolding table_split [OF j]
    by (subst loop_hit [where cb = Send_rts]) (use j few d u(1) s2 in \<open>simp_all del: upto.simps\<close>)
  then have "call (Suc n) Send_str_and_rts j s = check_rfnm_loop (Suc n) (uint x) [j + 1..CONNECTIONS - 1] u"
    by (simp only: call.simps s1(1) s2(1,3) bind.bind_lunit d(1))
  moreover have "offers x c [e1, e2]" using s1(3) u(3) by (simp add: offers_def)
  ultimately show ?thesis
    using u(2) s2 by (intro exI [of _ u] exI [of _ "[e1, e2]"]) (simp add: moved_def offered_def)
qed

text \<open>The two entries that \<open>send_socket\<close> queues, in the order of the table.\<close>

lemma icp_queue:
  assumes cb: "cb \<in> {Send_cls_snd, Send_cls_rcv}" and i: "0 \<le> i" "i < CONNECTIONS" "host (connection s i) = uint x"
      "rfnm_callback (connection s i) = Some cb"
    and j: "0 \<le> j" "j < CONNECTIONS" "host (connection s j) = uint x" "rfnm_callback (connection s j) = Some Send_str_and_rts"
    and flags: "flags (connection s j) AND (CONN_SENT_STR OR CONN_SENT_RTS) = 0"
    and rest: "\<And>k. 0 \<le> k \<Longrightarrow> k < CONNECTIONS \<Longrightarrow> k \<noteq> i \<Longrightarrow> k \<noteq> j \<Longrightarrow> host (connection s k) = uint x \<Longrightarrow>
      rfnm_callback (connection s k) = None"
    and few: "outstanding_rfnm (hosts s x) < 2"
  shows "\<exists>t e es. check_rfnm_loop (Suc (Suc n)) (uint x) [0..CONNECTIONS - 1] s = Some t \<and>
    out t = out s @ (if i < j then e # es else es @ [e]) \<and> offers x (connection s j) es \<and>
    control x NCP_CLS (bytes_of (lsock (half_of cb (connection s i))) @ bytes_of (rsock (half_of cb (connection s i)))) e \<and>
    connection t = (connection s)(i := closing cb (time_tick s) (dequeued (connection s i)),
      j := offered (time_tick s) (dequeued (connection s j))) \<and>
    outstanding_rfnm (hosts t x) = outstanding_rfnm (hosts s x) + 3 \<and> listening t = listening s \<and> cur_client t = cur_client s"
proof -
  let ?ci = "dequeued (connection s i)" and ?cj = "dequeued (connection s j)"
  have ij: "i \<noteq> j" using cb i(4) j(4) by auto
  have q: "host (dequeued c) = host c" "snd (dequeued c) = snd c" "rcv (dequeued c) = rcv c"
    "flags (dequeued c) = flags c" "half_of cb (dequeued c) = half_of cb c" "rfnm_callback (dequeued c) = None" for c
    by (simp_all add: dequeued_def half_of_def)
  have off: "offers x (dequeued c) es = offers x c es" for c es by (simp add: offers_def q)
  have qq: "rfnm_callback (closing cb w (dequeued c)) = None" "rfnm_callback (offered w c) = None" for w c
    by (simp_all add: closing_def offered_def requested_def dequeued_def setter_defs)
  show ?thesis
  proof (cases "i < j")
    case True
    let ?s1 = "s\<lparr>connection := (connection s)(i := ?ci)\<rparr>"
    obtain s2 e where s2: "\<forall>n. call n cb i ?s1 = Some s2" "moved x i (closing cb (time_tick s) ?ci) e ?s1 s2"
      "control x NCP_CLS (bytes_of (lsock (half_of cb ?ci)) @ bytes_of (rsock (half_of cb ?ci))) e"
      using send_cls_moved [OF cb i(1,2), of ?s1 x] i(3) q by auto
    have c2: "connection s2 = (connection s)(i := closing cb (time_tick s) ?ci)" using s2(2) by (simp add: moved_def)
    let ?s3 = "s2\<lparr>connection := (connection s2)(j := ?cj)\<rparr>"
    have b3: "idle (uint x) [0..j - 1] ?s3" using rest j(1,2) qq(1) by (auto simp: idle_def c2)
    obtain u es where u: "call (Suc n) Send_str_and_rts j ?s3 = check_rfnm_loop (Suc n) (uint x) [j + 1..CONNECTIONS - 1] u"
      "out u = out ?s3 @ es" "offers x ?cj es" "connection u = (connection ?s3)(j := offered (time_tick ?s3) ?cj)"
      "outstanding_rfnm (hosts u x) = outstanding_rfnm (hosts ?s3 x) + 2" "listening u = listening ?s3" "cur_client u = cur_client ?s3"
      using str_and_rts [OF j(1,2), of ?cj ?s3 x n] b3 j(3) flags few s2(2) q
      by (auto simp: moved_def)
    have split: "[0..CONNECTIONS - 1] = [0..i - 1] @ i # [i + 1..j - 1] @ j # [j + 1..CONNECTIONS - 1]"
      using table_split [OF i(1,2)] upto_split3 [of "i + 1" j "CONNECTIONS - 1"] True j(2) by simp
    have b0: "idle (uint x) [0..i - 1] s" using rest i(2) True by (auto simp: idle_def)
    have b2: "idle (uint x) [i + 1..j - 1] s2" using rest i(1) j(2) by (auto simp: idle_def c2)
    have b4: "idle (uint x) [j + 1..CONNECTIONS - 1] u" using rest j(1) True by (auto simp: idle_def u(4) c2)
    have "check_rfnm_loop (Suc (Suc n)) (uint x) [0..CONNECTIONS - 1] s =
        check_rfnm_loop (Suc (Suc n)) (uint x) ([i + 1..j - 1] @ j # [j + 1..CONNECTIONS - 1]) s2"
      unfolding split by (subst loop_hit [OF b0 i]) (use few s2(1) in simp_all)
    also have "\<dots> = Some u"
    proof -
      have same: "connection s2 j = connection s j" using ij c2 by simp
      have o2: "outstanding_rfnm (hosts s2 x) < 4" using few s2(2) by (simp add: moved_def)
      note hit = loop_hit [OF b2 j(1,2) j(3,4) [folded same] o2]
      show ?thesis unfolding hit same by (simp only: u(1) bind.bind_lunit loop_idle [OF b4])
    qed
    finally show ?thesis
      using True u s2 ij by (intro exI [of _ u] exI [of _ e] exI [of _ es]) (simp add: moved_def off q)
  next
    case False
    then have ji: "j < i" using ij by simp
    let ?s1 = "s\<lparr>connection := (connection s)(j := ?cj)\<rparr>"
    have b1: "idle (uint x) [0..j - 1] ?s1" using rest j(2) ji by (auto simp: idle_def)
    obtain u es where u: "call (Suc n) Send_str_and_rts j ?s1 = check_rfnm_loop (Suc n) (uint x) [j + 1..CONNECTIONS - 1] u"
      "out u = out s @ es" "offers x ?cj es" "connection u = (connection s)(j := offered (time_tick s) ?cj)"
      "time_tick u = time_tick s" "outstanding_rfnm (hosts u x) = outstanding_rfnm (hosts s x) + 2"
      "listening u = listening s" "cur_client u = cur_client s"
      using str_and_rts [OF j(1,2), of ?cj ?s1 x n] b1 j(3) flags few q by auto
    let ?s3 = "u\<lparr>connection := (connection u)(i := ?ci)\<rparr>"
    have ui: "connection u i = connection s i" using ij u(4) by simp
    obtain t e where t: "\<forall>n. call n cb i ?s3 = Some t" "moved x i (closing cb (time_tick s) ?ci) e ?s3 t"
      "control x NCP_CLS (bytes_of (lsock (half_of cb ?ci)) @ bytes_of (rsock (half_of cb ?ci))) e"
      using send_cls_moved [OF cb i(1,2), of ?s3 x] i(3) u(5) q by auto
    have ct: "connection t = (connection s)(i := closing cb (time_tick s) ?ci, j := offered (time_tick s) ?cj)"
      using t(2) u(4) ij by (simp add: moved_def fun_upd_twist)
    have split: "[j + 1..CONNECTIONS - 1] = [j + 1..i - 1] @ i # [i + 1..CONNECTIONS - 1]"
      using upto_split3 [of "j + 1" i "CONNECTIONS - 1"] ji i(2) by simp
    have b2: "idle (uint x) [j + 1..i - 1] u" using rest j(1) i(2) by (auto simp: idle_def u(4))
    have b3: "idle (uint x) [i + 1..CONNECTIONS - 1] t" "idle (uint x) [j + 1..CONNECTIONS - 1] t"
      using rest j(1) i(1) qq by (auto simp: idle_def ct)
    have b0: "idle (uint x) [0..j - 1] s" using rest j(2) ji by (auto simp: idle_def)
    have nested: "check_rfnm_loop (Suc n) (uint x) [j + 1..CONNECTIONS - 1] u = Some t"
    proof -
      have o2: "outstanding_rfnm (hosts u x) < 4" using few u(6) by simp
      note hit = loop_hit [OF b2 i(1,2) i(3,4) [folded ui] o2]
      show ?thesis unfolding split hit ui by (simp only: t(1) [rule_format] bind.bind_lunit loop_idle [OF b3(1)])
    qed
    have "check_rfnm_loop (Suc (Suc n)) (uint x) [0..CONNECTIONS - 1] s = Some t"
      unfolding table_split [OF j(1,2)]
      by (subst loop_hit [OF b0 j]) (use few u(1) nested b3(2) in \<open>simp_all add: loop_idle del: call.simps upto.simps\<close>)
    then show ?thesis
      using False u t ct by (intro exI [of _ t] exI [of _ e] exI [of _ es]) (simp add: moved_def off q)
  qed
qed

section \<open>The requests of the other side\<close>

text \<open>The parameters of an STR or RTS: the socket of the sender, that of the receiver, and a byte.\<close>

definition request_at :: "mem \<Rightarrow> nat \<Rightarrow> u32 \<Rightarrow> u32 \<Rightarrow> u8 \<Rightarrow> bool" where
  "request_at p off rs ls b \<longleftrightarrow> off + 9 \<le> PACKET_CAP \<and> sock (\<lambda>k. p (off + k)) = rs \<and>
     sock (\<lambda>k. p (off + (4 + k))) = ls \<and> p (off + 8) = b"

definition got_str :: "u8 \<Rightarrow> conn \<Rightarrow> conn" where
  "got_str sz c = set_flags CONN_GOT_STR (set_rcv_size (uint sz) c)"

definition got_rts :: "u8 \<Rightarrow> conn \<Rightarrow> conn" where
  "got_rts lnk c = (set_flags CONN_GOT_RTS (set_snd_link (uint lnk) c))\<lparr>rfc_timeout := None\<rparr>"

lemma got_defs: "got_str sz c = c\<lparr>rcv := (rcv c)\<lparr>bsize := uint sz\<rparr>, flags := flags c OR CONN_GOT_STR\<rparr>"
  "got_rts l c = c\<lparr>snd := (snd c)\<lparr>link := uint l\<rparr>, flags := flags c OR CONN_GOT_RTS, rfc_timeout := None\<rparr>"
  by (simp_all add: got_str_def got_rts_def setter_defs)

lemma str_arrives:
  assumes "request_at (packet s) off rs ls sz" and "find_rcv_sockets (uint h) ls rs s = j" and "j \<noteq> - 1"
    and "0 \<le> j" "j < CONNECTIONS"
    and "has CONN_SENT_RTS (connection s j)" and "\<not> has CONN_CLIENT (connection s j)"
  shows "process_str h off s = map_option (Pair 9)
    (maybe_reply j (s\<lparr>connection := (connection s)(j := got_str sz (connection s j))\<rparr>))"
proof -
  have "has CONN_SENT_RTS (got_str sz (connection s j))" "\<not> has CONN_CLIENT (got_str sz (connection s j))"
    using assms(6,7) by (simp_all add: has_def got_defs bit.conj_disj_distrib2)
  then show ?thesis
    using assms(1-5) by (simp add: process_str_def args_def request_at_def str_existing_def upd_def get_def
        got_str_def map_option_case Let_def bind_eq_None_conv split: option.split)
qed

lemma rts_arrives:
  assumes "request_at (packet s) off rs ls lnk" and "find_snd_sockets (uint h) ls rs s = j" and "j \<noteq> - 1"
    and "0 \<le> j" "j < CONNECTIONS" and "find_listen ls s = - 1" and "LINK_MIN \<le> lnk" "lnk \<le> LINK_MAX"
    and "has CONN_SENT_STR (connection s j)"
  shows "process_rts h off s = map_option (Pair 9)
    (maybe_reply j (s\<lparr>connection := (connection s)(j := got_rts lnk (connection s j))\<rparr>))"
proof -
  have "has CONN_SENT_STR (set_flags CONN_GOT_RTS (set_snd_link (uint lnk) (connection s j)))"
    using assms(9) by (simp add: has_def setter_defs bit.conj_disj_distrib2)
  then show ?thesis
    using assms(1-8) by (simp add: process_rts_def args_def request_at_def rts_existing_def upd_def get_def
        got_rts_def map_option_case Let_def not_less [symmetric] split: option.split)
qed

text \<open>\<open>maybe_reply\<close> waits until both have come, and then answers the latest requester.\<close>

lemma maybe_reply_waits:
  assumes "0 \<le> j" "j < CONNECTIONS" and "\<not> (has CONN_GOT_RTS (connection s j) \<and> has CONN_GOT_STR (connection s j))"
  shows "maybe_reply j s = Some s"
proof -
  have "flags (connection s j) AND m \<noteq> m" if "flags (connection s j) AND b = 0" "m AND b = b" "b \<noteq> 0" for m b
    using that and.assoc [of "flags (connection s j)" m b] by auto
  then show ?thesis using assms by (auto simp: maybe_reply_def get_def has_def)
qed

lemma maybe_reply_listen:
  assumes "0 \<le> j" "j < CONNECTIONS" and "c = connection s j" and "host c = uint h" and "bsize (rcv c) = uint sz"
    and "flags c AND CONN_GOT_BOTH = CONN_GOT_BOTH"
  shows "maybe_reply j s = Some (s\<lparr>connection := (connection s)(j := clear_flags CONN_LISTEN (c\<lparr>rfc_timeout := None\<rparr>)),
     out := out s @ [To_app (cur_client s) ([WIRE_LISTEN + 1, h] @ bytes_of (listen c) @ [word_of_int j, sz])]\<rparr>)"
proof -
  have "uint (word_of_int j :: u8) = j" using assms(1,2) by (simp add: uint_word_of_int)
  then show ?thesis
    using assms by (simp add: maybe_reply_def get_def upd_def reply_listen_def deliver_def)
qed

lemma maybe_reply_open:
  assumes "0 \<le> j" "j < CONNECTIONS" and "c = connection s j" and "host c = uint h" and "bsize (rcv c) = uint sz"
    and "flags c AND CONN_GOT_ALL = CONN_GOT_ALL" and "\<not> has CONN_LISTEN c"
  shows "maybe_reply j s = Some (s\<lparr>connection := (connection s)(j := clear_flags CONN_OPEN (c\<lparr>rfc_timeout := None\<rparr>)),
     out := out s @ [To_app (cur_client s) ([WIRE_OPEN + 1, h] @ bytes_of (listen c) @ [word_of_int j, sz, 0])]\<rparr>)"
proof -
  have "uint (word_of_int j :: u8) = j" using assms(1,2) by (simp add: uint_word_of_int)
  moreover have "flags c AND CONN_GOT_BOTH \<noteq> CONN_GOT_BOTH"
    using assms(7) and.assoc [of "flags c" CONN_GOT_BOTH CONN_LISTEN] by (auto simp: has_def)
  ultimately show ?thesis
    using assms by (simp add: maybe_reply_def get_def upd_def reply_open_def deliver_def)
qed

lemma find_snd_sockets_upd:
  "host c = host (connection s i) \<Longrightarrow> lsock (snd c) = lsock (snd (connection s i)) \<Longrightarrow>
   rsock (snd c) = rsock (snd (connection s i)) \<Longrightarrow> connection t = (connection s)(i := c) \<Longrightarrow>
   find_snd_sockets h ls rs t = find_snd_sockets h ls rs s"
  unfolding find_snd_sockets_def Let_def by (rule arg_cong [of _ _ "scan CONNECTIONS"]) (auto simp: fun_eq_iff)

lemma find_rcv_sockets_upd:
  "host c = host (connection s i) \<Longrightarrow> rcv c = rcv (connection s i) \<Longrightarrow> connection t = (connection s)(i := c) \<Longrightarrow>
   find_rcv_sockets h ls rs t = find_rcv_sockets h ls rs s"
  unfolding find_rcv_sockets_def Let_def by (rule arg_cong [of _ _ "scan CONNECTIONS"]) (auto simp: fun_eq_iff)

text \<open>The two requests for entry \<open>j\<close>, in either order: the first is noted only.\<close>

lemma both_requests:
  assumes j: "find_rcv_sockets (uint h) ls rs s = j" "find_snd_sockets (uint h) ls' rs' s = j" "j \<noteq> - 1"
    and flags: "has CONN_SENT_RTS (connection s j)" "has CONN_SENT_STR (connection s j)"
      "\<not> has CONN_CLIENT (connection s j)" "\<not> has CONN_GOT_RTS (connection s j)" "\<not> has CONN_GOT_STR (connection s j)"
    and none: "find_listen ls' s = - 1" and lnk: "LINK_MIN \<le> lnk" "lnk \<le> LINK_MAX"
    and str: "request_at p off rs ls sz" and rts: "request_at q off' rs' ls' lnk"
  shows "\<exists>u. process_str h off (s\<lparr>packet := p\<rparr>) = Some (9, u) \<and> out u = out s \<and>
      process_rts h off' (u\<lparr>packet := q\<rparr>) = map_option (Pair 9) (maybe_reply j (s\<lparr>packet := q,
        connection := (connection s)(j := got_rts lnk (got_str sz (connection s j)))\<rparr>))"
    and "\<exists>u. process_rts h off' (s\<lparr>packet := q\<rparr>) = Some (9, u) \<and> out u = out s \<and>
      process_str h off (u\<lparr>packet := p\<rparr>) = map_option (Pair 9) (maybe_reply j (s\<lparr>packet := p,
        connection := (connection s)(j := got_str sz (got_rts lnk (connection s j)))\<rparr>))"
proof -
  let ?c = "connection s j"
  let ?s1 = "s\<lparr>packet := p, connection := (connection s)(j := got_str sz ?c)\<rparr>"
  let ?s2 = "s\<lparr>packet := q, connection := (connection s)(j := got_rts lnk ?c)\<rparr>"
  have jr: "0 \<le> j" "j < CONNECTIONS" using j(1,3) scan_hit unfolding find_rcv_sockets_def Let_def by blast+
  have look: "find_rcv_sockets (uint h) ls rs (s\<lparr>packet := p\<rparr>) = j"
    "find_snd_sockets (uint h) ls' rs' (s\<lparr>packet := q\<rparr>) = j" "find_listen ls' (s\<lparr>packet := q\<rparr>) = - 1"
    "find_snd_sockets (uint h) ls' rs' (?s1\<lparr>packet := q\<rparr>) = j" "find_listen ls' (?s1\<lparr>packet := q\<rparr>) = - 1"
    "find_rcv_sockets (uint h) ls rs (?s2\<lparr>packet := p\<rparr>) = j"
    using j none find_snd_sockets_upd [of "got_str sz ?c" s j "?s1\<lparr>packet := q\<rparr>"]
      find_rcv_sockets_upd [of "got_rts lnk ?c" s j "?s2\<lparr>packet := p\<rparr>"]
    by (simp_all add: find_rcv_sockets_def find_snd_sockets_def find_listen_def got_defs)
  have fl: "has m (got_str sz ?c) = has m ?c" "has m (got_rts lnk ?c) = has m ?c" if "m \<in> {CONN_SENT_RTS, CONN_SENT_STR, CONN_CLIENT}" for m
    using that by (auto simp: has_def got_defs bit.conj_disj_distrib2)
  have "\<not> has CONN_GOT_RTS (got_str sz ?c)" "\<not> has CONN_GOT_STR (got_rts lnk ?c)"
    using flags(4,5) by (simp_all add: has_def got_defs bit.conj_disj_distrib2)
  then have "maybe_reply j ?s1 = Some ?s1" "maybe_reply j ?s2 = Some ?s2"
    using maybe_reply_waits [OF jr, of ?s1] maybe_reply_waits [OF jr, of ?s2] by simp_all
  then have first: "process_str h off (s\<lparr>packet := p\<rparr>) = Some (9, ?s1)" "process_rts h off' (s\<lparr>packet := q\<rparr>) = Some (9, ?s2)"
    using str_arrives [of "s\<lparr>packet := p\<rparr>" off rs ls sz h j] rts_arrives [of "s\<lparr>packet := q\<rparr>" off' rs' ls' lnk h j]
      str rts look j(3) jr flags lnk by simp_all
  show "\<exists>u. process_str h off (s\<lparr>packet := p\<rparr>) = Some (9, u) \<and> out u = out s \<and>
      process_rts h off' (u\<lparr>packet := q\<rparr>) = map_option (Pair 9) (maybe_reply j (s\<lparr>packet := q,
        connection := (connection s)(j := got_rts lnk (got_str sz (connection s j)))\<rparr>))"
    using first(1) rts_arrives [of "?s1\<lparr>packet := q\<rparr>" off' rs' ls' lnk h j] rts look j(3) jr flags lnk
    by (simp add: fl)
  show "\<exists>u. process_rts h off' (s\<lparr>packet := q\<rparr>) = Some (9, u) \<and> out u = out s \<and>
      process_str h off (u\<lparr>packet := p\<rparr>) = map_option (Pair 9) (maybe_reply j (s\<lparr>packet := p,
        connection := (connection s)(j := got_str sz (got_rts lnk (connection s j)))\<rparr>))"
    using first(2) str_arrives [of "?s2\<lparr>packet := p\<rparr>" off rs ls sz h j] str look j(3) jr flags
    by (simp add: fl)
qed

end
