(* ===== verification/Ncp_Icp_Run.thy ===== *)
theory Ncp_Icp_Run
  imports Ncp_Icp_Queue
begin

text \<open>
  The rest of the Initial Connection Protocol on the side of the server: the client allocates, the
  socket number goes out, the ICP connection is closed and the data connection is requested in both
  directions; the client's STR and RTS complete it.
\<close>

section \<open>The allocation\<close>

lemma bytes_128: "bytes_of (128 :: u32) = [0, 0, 0, 128]"
  by (simp add: bytes_of_def byte_of_def)

text \<open>The socket number that was put in the buffer is the one that \<open>send_socket\<close> reads there.\<close>

lemma icp_socket_128:
  assumes "unsent c = bytes_of 128" and "ptr c = 5"
  shows "icp_socket (advanced c) = 128"
proof -
  have "length (unsent c) = 4" using assms(1) by simp
  then have r: "remaining c = 4" by (simp add: unsent_def)
  have "get_bytes 5 4 (buffer c) = [0, 0, 0, 128]" using assms r by (simp add: unsent_def bytes_128)
  then have b: "buffer c 5 = 0" "buffer c 6 = 0" "buffer c 7 = 0" "buffer c 8 = 128"
    by (simp_all add: get_bytes_def upt_rec)
  have "buffer (advanced c) k = buffer c k" if "5 \<le> k" for k
    using that assms(2) by (simp add: advanced_def headed_def put_bytes_def)
  then show "icp_socket (advanced c) = 128"
    by (simp add: icp_socket_def b)
qed

text \<open>The header of the message with the socket number, and the number.\<close>

definition icp_datagram :: "u8 \<Rightarrow> u8 \<Rightarrow> effect \<Rightarrow> bool" where
  "icp_datagram x lnk e \<longleftrightarrow> (\<exists>d. e = To_imp d \<and>
     take 13 (drop 12 d) = [0, x, lnk, 0, 0, 32, 0, 1, 0] @ bytes_of 128)"

lemma icp_data_datagram:
  assumes "icp_conn x ls rs lnk c" and "wf_conn c" and "32 \<le> all_bits c"
  shows "icp_datagram x lnk (To_imp (data_datagram st c))" and "sendable c = 4" and "remaining c = 4"
proof -
  have c: "unsent c = bytes_of 128" "ptr c = 5" "bsize (snd c) = 32" "host c = uint x" "link (snd c) = uint lnk"
    "all_callback c = Some Send_socket"
    using assms(1) by (simp_all add: icp_conn_def)
  have "length (unsent c) = 4" using c(1) by simp
  then show r: "remaining c = 4" by (simp add: unsent_def)
  then show z: "sendable c = 4" using assms(3) by (simp add: sendable_def)
  have "data_header c = [0, x, lnk, 0, 0, 32, 0, 1, 0]"
    by (simp add: data_header_def z c c_div_pos)
  moreover have "unsent (advanced c) = []" by (simp add: unsent_def advanced_def headed_def r z)
  then have "take 4 (drop 21 (data_datagram st c)) = bytes_of 128"
    using advanced_unsent [OF assms(2), of st] assms(3) c(1,6) by (simp add: z)
  moreover have "take 13 (drop 12 d) = take 9 (drop 12 d) @ take 4 (drop 21 d)" for d :: "u8 list"
    using take_add [of 9 4 "drop 12 d"] by simp
  ultimately show "icp_datagram x lnk (To_imp (data_datagram st c))"
    using data_datagram_front [of st c] by (simp add: icp_datagram_def)
qed

text \<open>What an ALL of seven bytes at \<open>off\<close> says.\<close>

definition allocates :: "ncp \<Rightarrow> nat \<Rightarrow> u8 \<Rightarrow> u16 \<Rightarrow> u32 \<Rightarrow> bool" where
  "allocates s off lnk msgs bits \<longleftrightarrow> off + 7 \<le> PACKET_CAP \<and> packet s off = lnk \<and>
     push_bit 8 (ucast (packet s (off + 1))) OR ucast (packet s (off + 2)) = msgs \<and>
     word_of_bytes (packet s (off + 3)) (packet s (off + 4)) (packet s (off + 5)) (packet s (off + 6)) = bits"

text \<open>The data connection after both requests of the server.\<close>

definition icp_offered_conn :: "u8 \<Rightarrow> u32 \<Rightarrow> u32 \<Rightarrow> u8 \<Rightarrow> conn \<Rightarrow> bool" where
  "icp_offered_conn h ls rs z c \<longleftrightarrow> host c = uint h \<and>
     rcv c = \<lparr>link = 46, bsize = 0, lsock = 128, rsock = rs + 3\<rparr> \<and>
     snd c = \<lparr>link = 0, bsize = uint z, lsock = 129, rsock = rs + 2\<rparr> \<and>
     flags c = CONN_LISTEN OR CONN_SENT_STR OR CONN_SENT_RTS \<and> listen c = ls"

lemma offered_conn:
  assumes "icp_data_conn h ls rs z c"
  shows "icp_offered_conn h ls rs z (offered now (dequeued (c\<lparr>rfnm_callback := cb, rfnm_timeout := to, rfnm_time := w\<rparr>)))"
  using assms by (simp add: icp_data_conn_def icp_offered_conn_def offered_def requested_def dequeued_def set_flags_def)

lemma add_allocation_keeps:
  "host (add_allocation m b c) = host c" "rcv (add_allocation m b c) = rcv c" "snd (add_allocation m b c) = snd c"
  "rfnm_callback (add_allocation m b c) = rfnm_callback c"
  "icp_conn h ls rs l (add_allocation m b c) = icp_conn h ls rs l c"
  by (simp_all add: add_allocation_def icp_conn_def unsent_def)

lemma advanced_keeps:
  "host (advanced c) = host c" "rcv (advanced c) = rcv c" "snd (advanced c) = snd c"
  by (simp_all add: advanced_def headed_def)

lemma send_socket_runs:
  assumes i: "0 \<le> i" "i < CONNECTIONS" and c: "connection s i = c" "host c = uint h" "icp_socket c = 128" "rsock (snd c) = rs"
    and j: "find_rcv_sockets (uint h) 128 (rs + 3) s = j" "0 \<le> j" "j < CONNECTIONS" "j \<noteq> i"
    and d: "icp_data_conn h ls rs z (connection s j)"
    and rest: "\<And>k. 0 \<le> k \<Longrightarrow> k < CONNECTIONS \<Longrightarrow> k \<noteq> i \<Longrightarrow> k \<noteq> j \<Longrightarrow> host (connection s k) = uint h \<Longrightarrow>
      rfnm_callback (connection s k) = None"
    and few: "outstanding_rfnm (hosts s h) < 2"
  shows "\<exists>t e es c'. run Send_socket i s = Some t \<and> out t = out s @ (if i < j then e # es else es @ [e]) \<and>
    offers h (connection s j) es \<and>
    control h NCP_CLS (bytes_of (lsock (snd c)) @ bytes_of rs) e \<and>
    connection t = (connection s)(i := closing Send_cls_snd (time_tick s) c', j := connection t j) \<and>
    icp_offered_conn h ls rs z (connection t j) \<and> c' = dequeued (c\<lparr>rfnm_callback := Some Send_cls_snd,
      rfnm_timeout := Some Just_drop, rfnm_time := time_tick s + RFNM_TIMEOUT\<rparr>) \<and>
    rfnm_callback (connection t j) = None \<and> same_allocation (connection s j) (connection t j) \<and>
    listening t = listening s \<and> cur_client t = cur_client s \<and>
    outstanding_rfnm (hosts t h) = outstanding_rfnm (hosts s h) + 3"
proof -
  let ?ci = "c\<lparr>rfnm_callback := Some Send_cls_snd, rfnm_timeout := Some Just_drop, rfnm_time := time_tick s + RFNM_TIMEOUT\<rparr>"
  let ?cj = "(connection s j)\<lparr>rfnm_callback := Some Send_str_and_rts, rfnm_timeout := Some Rfnm_timeout,
     rfnm_time := time_tick s + RFNM_TIMEOUT\<rparr>"
  let ?v = "s\<lparr>connection := (connection s)(j := ?cj, i := ?ci)\<rparr>"
  have hj: "host (connection s j) = uint h" and fj: "flags (connection s j) AND (CONN_SENT_STR OR CONN_SENT_RTS) = 0"
    using d by (simp_all add: icp_data_conn_def)
  have "run Send_socket i s = check_rfnm_loop (Suc (Suc 19)) (uint h) [0..CONNECTIONS - 1] ?v"
    using i c j by (simp add: run_def get_def when_rfnm_def upd_def numeral_2_eq_2 del: upto.simps)
  moreover obtain t e es where t: "check_rfnm_loop (Suc (Suc 19)) (uint h) [0..CONNECTIONS - 1] ?v = Some t"
    "out t = out ?v @ (if i < j then e # es else es @ [e])" "offers h (connection ?v j) es"
    "control h NCP_CLS (bytes_of (lsock (half_of Send_cls_snd (connection ?v i))) @ bytes_of (rsock (half_of Send_cls_snd (connection ?v i)))) e"
    "connection t = (connection ?v)(i := closing Send_cls_snd (time_tick ?v) (dequeued (connection ?v i)),
      j := offered (time_tick ?v) (dequeued (connection ?v j)))"
    "listening t = listening ?v" "cur_client t = cur_client ?v" "outstanding_rfnm (hosts t h) = outstanding_rfnm (hosts ?v h) + 3"
    using icp_queue [OF _ i(1,2), of Send_cls_snd ?v h j 19] c(2) j(2,3,4) hj fj rest few by auto
  ultimately have run: "run Send_socket i s = Some t" by simp
  have "connection t j = offered (time_tick s) (dequeued ?cj)"
    "connection t = (connection s)(i := closing Send_cls_snd (time_tick s) (dequeued ?ci), j := connection t j)"
    using j(4) t(5) by (auto simp: fun_eq_iff)
  moreover have "offers h (connection s j) es" using t(3) j(4) by (simp add: offers_def)
  moreover have "control h NCP_CLS (bytes_of (lsock (snd c)) @ bytes_of rs) e" using t(4) c by (simp add: half_of_def)
  moreover have "rfnm_callback (offered (time_tick s) (dequeued ?cj)) = None"
    "same_allocation (connection s j) (offered (time_tick s) (dequeued ?cj))"
    by (simp_all add: offered_def requested_def dequeued_def setter_defs same_allocation_def)
  ultimately show ?thesis
    using run t(2,6-) offered_conn [OF d]
    by (intro exI [of _ t] exI [of _ e] exI [of _ es] exI [of _ "dequeued ?ci"]) simp
qed

text \<open>What else there is to say: the entries of the two connections, and the number of messages.\<close>

definition allocated_beside :: "u8 \<Rightarrow> int \<Rightarrow> int \<Rightarrow> ncp \<Rightarrow> ncp \<Rightarrow> bool" where
  "allocated_beside h i j s t \<longleftrightarrow> host (connection t i) = host (connection s i) \<and>
     rcv (connection t i) = rcv (connection s i) \<and> snd (connection t i) = (snd (connection s i))\<lparr>link := - 1\<rparr> \<and>
     flags (connection t i) = flags (connection s i) \<and>
     rfnm_callback (connection t i) = None \<and> rfnm_callback (connection t j) = None \<and>
     same_allocation (connection s j) (connection t j) \<and>
     listening t = listening s \<and> cur_client t = cur_client s \<and>
     outstanding_rfnm (hosts t h) = outstanding_rfnm (hosts s h) + 4"

lemma icp_allocation:
  assumes wf: "wf_ncp s" and a: "allocates s off lnk msgs bits"
    and i: "find_link (uint h) (uint lnk) s = i" "i \<noteq> - 1" "icp_conn h ls rs lnk (connection s i)"
    and j: "find_rcv_sockets (uint h) 128 (rs + 3) s = j" "j \<noteq> - 1" "icp_data_conn h ls rs z (connection s j)"
    and room: "all_msgs (connection s i) + uint msgs \<le> 2147483647"
      "1 \<le> all_msgs (add_allocation msgs bits (connection s i))"
      "32 \<le> all_bits (add_allocation msgs bits (connection s i))"
    and quiet: "\<forall>k. 0 \<le> k \<and> k < CONNECTIONS \<and> host (connection s k) = uint h \<longrightarrow> rfnm_callback (connection s k) = None"
      "outstanding_rfnm (hosts s h) < 1"
  shows "\<exists>t number cls str rts. process_all h off s = Some (7, t) \<and>
    out t = out s @ (if i < j then [number, cls, str, rts] else [number, str, rts, cls]) \<and>
    icp_datagram h lnk number \<and> control h NCP_CLS (bytes_of ls @ bytes_of rs) cls \<and>
    control h NCP_STR (bytes_of 129 @ bytes_of (rs + 2) @ [z]) str \<and>
    control h NCP_RTS (bytes_of 128 @ bytes_of (rs + 3) @ [46]) rts \<and>
    sent_snd_cls (connection t i) \<and> cls_timeout (connection t i) = Some Cls_timeout \<and>
    all_callback (connection t i) = None \<and> allocated_beside h i j s t \<and> icp_offered_conn h ls rs z (connection t j) \<and>
    (\<forall>k. k \<noteq> i \<and> k \<noteq> j \<longrightarrow> connection t k = connection s k)"
proof -
  let ?c = "add_allocation msgs bits (connection s i)" and ?o = "find_rcv_sockets (uint h) 128 (rs + 3)"
  let ?s = "s\<lparr>connection := (connection s)(i := ?c)\<rparr>"
  have ir: "0 \<le> i" "i < CONNECTIONS" and jr: "0 \<le> j" "j < CONNECTIONS"
    using i(1,2) j(1,2) scan_hit unfolding find_link_def find_rcv_sockets_def Let_def by blast+
  have ij: "j \<noteq> i" using i(3) j(3) by (auto simp: icp_conn_def icp_data_conn_def)
  have c: "icp_conn h ls rs lnk ?c" using i(3) by (simp add: add_allocation_keeps)
  then have f: "host ?c = uint h" "rsock (snd ?c) = rs" "lsock (snd ?c) = ls" "bsize (snd ?c) = 32"
    "all_callback ?c = Some Send_socket" "unsent ?c = bytes_of 128" "ptr ?c = 5"
    by (simp_all add: icp_conn_def)
  have "wf_conn (connection s i)" using wf ir by (rule wfD)
  then have w: "wf_conn ?c" using f(1) by (simp add: wf_defs add_allocation_def)
  note data = icp_data_datagram [OF c w room(3)]
  obtain u where u: "connection u = (connection ?s)(i := advanced ?c)" "out u = out s @ [To_imp (data_datagram (imp s) ?c)]"
    "hosts u = (hosts s)(h := (hosts s h)\<lparr>outstanding_rfnm := outstanding_rfnm (hosts s h) + 1\<rparr>)"
    "listening u = listening s" "cur_client u = cur_client s"
    "check_all i ?s = do { s \<leftarrow> run Send_socket i u; upd i (\<lambda>c. c\<lparr>all_callback := None, all_timeout := None\<rparr>) s }"
    using check_all_sends [OF w, of i ?s Send_socket] ir f(1,4,5) room(2,3) data(2,3) by (auto simp: get_def)
  have uc: "connection u = (connection s)(i := advanced ?c)" using u(1) by simp
  have same: "host (advanced ?c) = host (connection s i)" "rcv (advanced ?c) = rcv (connection s i)"
    by (simp_all add: advanced_keeps add_allocation_keeps)
  obtain v e es c' where v: "run Send_socket i u = Some v" "out v = out u @ (if i < j then e # es else es @ [e])"
    "offers h (connection u j) es" "control h NCP_CLS (bytes_of ls @ bytes_of rs) e"
    "connection v = (connection u)(i := closing Send_cls_snd (time_tick u) c', j := connection v j)"
    "icp_offered_conn h ls rs z (connection v j)"
    "c' = dequeued ((advanced ?c)\<lparr>rfnm_callback := Some Send_cls_snd, rfnm_timeout := Some Just_drop, rfnm_time := time_tick u + RFNM_TIMEOUT\<rparr>)"
    "rfnm_callback (connection v j) = None" "same_allocation (connection u j) (connection v j)"
    "listening v = listening u" "cur_client v = cur_client u"
    "outstanding_rfnm (hosts v h) = outstanding_rfnm (hosts u h) + 3"
    using send_socket_runs [OF ir, where s = u and c = "advanced ?c" and h = h and rs = rs and j = j and z = z and ls = ls] f icp_socket_128 [OF f(6,7)] jr ij j
      find_rcv_sockets_upd [OF same uc] quiet uc u(3)
    by (auto simp: advanced_keeps)
  let ?t = "v\<lparr>connection := (connection v)(i := (connection v i)\<lparr>all_callback := None, all_timeout := None\<rparr>)\<rparr>"
  have "process_all h off s = Some (7, ?t)"
    using a i(1,2) ir room(1) u(6) v(1) by (simp add: process_all_def args_def allocates_def Let_def get_def upd_def)
  moreover obtain str rts where "es = [str, rts]" "control h NCP_STR (bytes_of 129 @ bytes_of (rs + 2) @ [z]) str"
    "control h NCP_RTS (bytes_of 128 @ bytes_of (rs + 3) @ [46]) rts"
    using v(3) j(3) ij uc by (auto simp: offers_def icp_data_conn_def)
  moreover have vi: "connection v i = closing Send_cls_snd (time_tick u) c'" using v(5) ij by (metis fun_upd_apply)
  moreover have "flags (advanced ?c) = flags (connection s i)"
    by (simp add: advanced_def headed_def add_allocation_def)
  then have "allocated_beside h i j s ?t"
    using ij same uc u(3-5) v(7-) by (simp add: allocated_beside_def vi)
      (simp add: closing_def set_snd_link_def dequeued_def advanced_keeps add_allocation_keeps)
  moreover have "connection v k = connection s k" if "k \<noteq> i" "k \<noteq> j" for k
    using that v(5) uc by (metis fun_upd_apply)
  ultimately show ?thesis
    using v(2,4,6) u(2) data(1) ij
    by (intro exI [of _ ?t] exI [of _ "To_imp (data_datagram (imp s) ?c)"] exI [of _ e] exI [of _ str] exI [of _ rts])
      (simp add: closing_def sent_snd_cls_def set_snd_link_def)
qed

text \<open>
  C12. The ICP goes on when the client allocates. If the ALL brings room for one message of 32
  bits, nothing else of that host waits for a RFNM and no RFNM is missing, the daemon sends four
  messages: the data message with the socket number, the CLS that closes the ICP connection, and the
  STR and the RTS of the data connection; the CLS comes before these two or after them, as the
  entries lie in the table. The ICP connection waits for the CLS of the client, the data connection
  for its requests.
\<close>

theorem icp_allocated:
  assumes wf: "wf_ncp s" and a: "allocates s off lnk msgs bits"
    and i: "find_link (uint h) (uint lnk) s = i" "i \<noteq> - 1" "icp_conn h ls rs lnk (connection s i)"
    and j: "find_rcv_sockets (uint h) 128 (rs + 3) s = j" "j \<noteq> - 1" "icp_data_conn h ls rs z (connection s j)"
    and room: "all_msgs (connection s i) + uint msgs \<le> 2147483647"
      "1 \<le> all_msgs (add_allocation msgs bits (connection s i))"
      "32 \<le> all_bits (add_allocation msgs bits (connection s i))"
    and quiet: "\<forall>k. 0 \<le> k \<and> k < CONNECTIONS \<and> host (connection s k) = uint h \<longrightarrow> rfnm_callback (connection s k) = None"
      "outstanding_rfnm (hosts s h) < 1"
  shows "\<exists>t number cls str rts. process_all h off s = Some (7, t) \<and>
    out t = out s @ (if i < j then [number, cls, str, rts] else [number, str, rts, cls]) \<and>
    icp_datagram h lnk number \<and> control h NCP_CLS (bytes_of ls @ bytes_of rs) cls \<and>
    control h NCP_STR (bytes_of 129 @ bytes_of (rs + 2) @ [z]) str \<and>
    control h NCP_RTS (bytes_of 128 @ bytes_of (rs + 3) @ [46]) rts \<and>
    sent_snd_cls (connection t i) \<and> cls_timeout (connection t i) = Some Cls_timeout \<and>
    all_callback (connection t i) = None \<and> icp_offered_conn h ls rs z (connection t j) \<and>
    (\<forall>k. k \<noteq> i \<and> k \<noteq> j \<longrightarrow> connection t k = connection s k)"
  using icp_allocation [OF assms] by blast

text \<open>A client has been given an ICP connection in entry 0, and entry 1 is the data connection.\<close>

definition icp_ncp :: ncp where
  "icp_ncp = empty_ncp\<lparr>connection := (\<lambda>_. destroy_conn zero_conn)
     (0 := zero_conn\<lparr>host := 5, snd := \<lparr>link = 30, bsize = 32, lsock = 23, rsock = 200\<rparr>,
        flags := CONN_SERVER OR CONN_SENT_STR, all_callback := Some Send_socket, wlength := 4,
        remaining := 4, ptr := 5, buffer := put_bytes 5 (bytes_of 128) (\<lambda>_. 0)\<rparr>,
      1 := zero_conn\<lparr>host := 5, rcv := \<lparr>link = 46, bsize = 0, lsock = 128, rsock = 203\<rparr>,
        snd := \<lparr>link = 0, bsize = 8, lsock = 129, rsock = 202\<rparr>,
        flags := CONN_LISTEN, listen := 23, rfc_timeout := Some Just_drop\<rparr>),
     packet := put_bytes 10 [30, 0, 1, 0, 0, 0, 32] (\<lambda>_. 0)\<rparr>"

theorem icp_allocated_witness:
  "\<exists>t number cls str rts. process_all 5 10 icp_ncp = Some (7, t) \<and> out t = [number, cls, str, rts] \<and>
     icp_datagram 5 30 number \<and> control 5 NCP_CLS (bytes_of 23 @ bytes_of 200) cls \<and>
     control 5 NCP_STR (bytes_of 129 @ bytes_of 202 @ [8]) str \<and>
     control 5 NCP_RTS (bytes_of 128 @ bytes_of 203 @ [46]) rts"
proof -
  have wf: "wf_ncp icp_ncp"
    by (simp add: wf_ncp_def icp_ncp_def zero_conn_def destroy_conn_def wf_defs)
  have i: "find_link (uint (5 :: u8)) (uint (30 :: u8)) icp_ncp = 0"
    unfolding find_link_def Let_def by (rule scan_eqI) (simp_all add: icp_ncp_def)
  have j: "find_rcv_sockets (uint (5 :: u8)) 128 (200 + 3) icp_ncp = 1"
    unfolding find_rcv_sockets_def Let_def by (rule scan_eqI) (auto simp: icp_ncp_def zero_conn_def)
  have conns: "icp_conn 5 23 200 30 (connection icp_ncp 0)" "icp_data_conn 5 23 200 8 (connection icp_ncp 1)"
    by (simp_all add: icp_ncp_def icp_conn_def icp_data_conn_def unsent_def get_put_bytes_len)
  have a: "allocates icp_ncp 10 30 1 32"
    by (simp add: allocates_def icp_ncp_def put_bytes_def word_of_bytes_zero_high)
  have q: "\<forall>k. 0 \<le> k \<and> k < CONNECTIONS \<and> host (connection icp_ncp k) = uint (5 :: u8) \<longrightarrow>
      rfnm_callback (connection icp_ncp k) = None"
    by (simp add: icp_ncp_def destroy_conn_def zero_conn_def)
  have r: "all_msgs (connection icp_ncp 0) = 0" "all_bits (connection icp_ncp 0) = 0"
    "outstanding_rfnm (hosts icp_ncp 5) < 1" "out icp_ncp = []"
    by (simp_all add: icp_ncp_def zero_conn_def empty_ncp_def zero_ncp_def)
  then show ?thesis
    using icp_allocated [OF wf a i _ conns(1) j _ conns(2) _ _ _ q] by (simp add: add_allocation_def) blast
qed

section \<open>The requests of the client\<close>

text \<open>The data connection when both requests of the client have come.\<close>

definition icp_open_conn :: "u8 \<Rightarrow> u32 \<Rightarrow> u8 \<Rightarrow> u8 \<Rightarrow> u8 \<Rightarrow> conn \<Rightarrow> bool" where
  "icp_open_conn h rs z sz lnk c \<longleftrightarrow> host c = uint h \<and>
     rcv c = \<lparr>link = 46, bsize = uint sz, lsock = 128, rsock = rs + 3\<rparr> \<and>
     snd c = \<lparr>link = uint lnk, bsize = uint z, lsock = 129, rsock = rs + 2\<rparr> \<and>
     flags c = CONN_SENT_STR OR CONN_SENT_RTS OR CONN_GOT_STR OR CONN_GOT_RTS \<and> rfc_timeout c = None"

text \<open>
  C13. The end of the ICP. The STR and the RTS of the client for the data connection may come in
  either order. The first is only noted; at the second the connection is open, no deadline is left
  on the requests, and exactly one LISTEN reply, with the number of the connection and the byte size
  of the client, goes to the application whose request was the latest.
\<close>

theorem listen_completes:
  assumes j: "find_rcv_sockets (uint h) 128 (rs + 3) s = j" "find_snd_sockets (uint h) 129 (rs + 2) s = j" "j \<noteq> - 1"
    and c: "icp_offered_conn h ls rs z (connection s j)"
    and none: "find_listen 129 s = - 1" and lnk: "LINK_MIN \<le> lnk" "lnk \<le> LINK_MAX"
    and str: "request_at p off (rs + 3) 128 sz" and rts: "request_at q off' (rs + 2) 129 lnk"
    and reply: "reply = To_app (cur_client s) ([WIRE_LISTEN + 1, h] @ bytes_of ls @ [word_of_int j, sz])"
  shows "(\<exists>u t. process_str h off (s\<lparr>packet := p\<rparr>) = Some (9, u) \<and> out u = out s \<and>
      process_rts h off' (u\<lparr>packet := q\<rparr>) = Some (9, t) \<and> out t = out s @ [reply] \<and>
      icp_open_conn h rs z sz lnk (connection t j)) \<and>
    (\<exists>u t. process_rts h off' (s\<lparr>packet := q\<rparr>) = Some (9, u) \<and> out u = out s \<and>
      process_str h off (u\<lparr>packet := p\<rparr>) = Some (9, t) \<and> out t = out s @ [reply] \<and>
      icp_open_conn h rs z sz lnk (connection t j))"
proof -
  let ?c = "connection s j"
  have jr: "0 \<le> j" "j < CONNECTIONS" using j(1,3) scan_hit unfolding find_rcv_sockets_def Let_def by blast+
  note f = c [unfolded icp_offered_conn_def]
  have two: "maybe_reply j (s\<lparr>packet := m, connection := (connection s)(j := d)\<rparr>) = Some t \<Longrightarrow>
      out t = out s @ [reply] \<and> icp_open_conn h rs z sz lnk (connection t j)" "maybe_reply j (s\<lparr>packet := m, connection := (connection s)(j := d)\<rparr>) \<noteq> None"
    if "d = got_rts lnk (got_str sz ?c) \<or> d = got_str sz (got_rts lnk ?c)" for d m t
    using that maybe_reply_listen [OF jr refl, of "s\<lparr>packet := m, connection := (connection s)(j := d)\<rparr>" h sz] f reply
    by (auto simp: has_def got_defs icp_open_conn_def clear_flags_def)
  have flags: "has CONN_SENT_RTS ?c" "has CONN_SENT_STR ?c" "\<not> has CONN_CLIENT ?c" "\<not> has CONN_GOT_RTS ?c" "\<not> has CONN_GOT_STR ?c"
    using f by (simp_all add: has_def)
  show ?thesis
    using both_requests [OF j flags none lnk str rts] two by fastforce
qed

text \<open>The data connection of entry 1 after the requests of the server.\<close>

definition offered_ncp :: ncp where
  "offered_ncp = empty_ncp\<lparr>connection := (\<lambda>_. destroy_conn zero_conn)
     (1 := zero_conn\<lparr>host := 5, rcv := \<lparr>link = 46, bsize = 0, lsock = 128, rsock = 203\<rparr>,
        snd := \<lparr>link = 0, bsize = 8, lsock = 129, rsock = 202\<rparr>,
        flags := CONN_LISTEN OR CONN_SENT_STR OR CONN_SENT_RTS, listen := 23, rfc_timeout := Some Rfc_timeout\<rparr>)\<rparr>"

theorem listen_completes_witness:
  "\<exists>u t. process_str 5 10 (offered_ncp\<lparr>packet := put_bytes 10 (bytes_of 203 @ bytes_of 128 @ [8]) (\<lambda>_. 0)\<rparr>) = Some (9, u) \<and>
     process_rts 5 10 (u\<lparr>packet := put_bytes 10 (bytes_of 202 @ bytes_of 129 @ [50]) (\<lambda>_. 0)\<rparr>) = Some (9, t) \<and>
     out t = [To_app zero_client [6, 5, 0, 0, 0, 23, 1, 8]]"
proof -
  have r: "request_at (put_bytes 10 (bytes_of a @ bytes_of b @ [x]) (\<lambda>_. 0)) 10 a b x" for a b x
    by (simp add: request_at_def put_bytes_def sock_eq bytes_of_def)
  have j: "find_rcv_sockets (uint (5 :: u8)) 128 (200 + 3) offered_ncp = 1"
    "find_snd_sockets (uint (5 :: u8)) 129 (200 + 2) offered_ncp = 1"
    unfolding find_rcv_sockets_def find_snd_sockets_def Let_def
    by (rule scan_eqI; auto simp: offered_ncp_def destroy_conn_def)+
  have c: "icp_offered_conn 5 23 200 8 (connection offered_ncp 1)" by (simp add: offered_ncp_def icp_offered_conn_def)
  have l: "find_listen 129 offered_ncp = - 1"
    by (simp add: find_listen_def scan_eq_minus1 offered_ncp_def empty_ncp_def zero_ncp_def)
  have e: "out offered_ncp = []" "cur_client offered_ncp = zero_client" "bytes_of (23 :: u32) = [0, 0, 0, 23]"
    by (simp_all add: offered_ncp_def empty_ncp_def zero_ncp_def bytes_of_def byte_of_def)
  show ?thesis
    using listen_completes [OF j _ c l _ _ r [of "200 + 3" 128 8] r [of "200 + 2" 129 50] refl] e by auto
qed

end
