(* ===== verification/Ncp_Icp_Client.thy ===== *)
theory Ncp_Icp_Client
  imports Ncp_Icp_Queue
begin

text \<open>
  The Initial Connection Protocol on the side of the client: a request of an application to open a
  connection, the allocation for the socket number, the two connections when the number has come, and
  the reply that tells the application.
\<close>

section \<open>Opening\<close>

text \<open>The ICP connection when the server has confirmed it.\<close>

definition icp_client_conn :: "u8 \<Rightarrow> u32 \<Rightarrow> u8 \<Rightarrow> conn \<Rightarrow> bool" where
  "icp_client_conn h socket sz c \<longleftrightarrow> host c = uint h \<and>
     rcv c = \<lparr>link = 42, bsize = 32, lsock = 1002, rsock = socket\<rparr> \<and>
     flags c = CONN_CLIENT OR CONN_OPEN OR CONN_SENT_RTS OR CONN_GOT_STR \<and>
     data_size c = uint sz \<and> listen c = socket"

text \<open>The ICP connection when the request has been sent, and when the server has confirmed it.\<close>

definition asking :: "u64 \<Rightarrow> u64 \<Rightarrow> client_t \<Rightarrow> u8 \<Rightarrow> u32 \<Rightarrow> u8 \<Rightarrow> conn \<Rightarrow> conn" where
  "asking now now' a h socket sz c = (set_flags CONN_SENT_RTS
     ((set_flags (CONN_CLIENT OR CONN_OPEN) (set_rcv_link 42 (open_conn (uint h) 1002 socket 0 0 now c)))
       \<lparr>data_size := uint sz, listen := socket, client := a\<rparr>))
     \<lparr>rfc_timeout := Some App_open_rfc_failed, rfc_time := now' + RFC_TIMEOUT\<rparr>"

lemma asking_fields:
  "host (asking n n' a h socket sz c) = uint h" "lsock (rcv (asking n n' a h socket sz c)) = 1002"
  "rsock (rcv (asking n n' a h socket sz c)) = socket" "link (rcv (asking n n' a h socket sz c)) = 42"
  "snd (asking n n' a h socket sz c) = (snd c)\<lparr>lsock := 0, rsock := 0\<rparr>"
  "flags (asking n n' a h socket sz c) = CONN_CLIENT OR CONN_OPEN OR CONN_SENT_RTS"
  "data_size (asking n n' a h socket sz c) = uint sz" "listen (asking n n' a h socket sz c) = socket"
  "rfnm_callback (asking n n' a h socket sz c) = rfnm_callback c"
  by (simp_all add: asking_def setter_defs open_conn_def or.assoc)

lemma open_asks:
  assumes alive: "ho_flags (hosts s h) AND HOST_ALIVE \<noteq> 0" and free: "0 \<le> k" "k < CONNECTIONS" "free_entry s k"
    and unused: "find_rcv_sockets (uint h) 1002 socket s = - 1"
  shows "\<exists>t i rts. application a (WIRE_OPEN # h # bytes_of socket @ [sz]) s = Some t \<and> out t = out s @ [rts] \<and>
    control h NCP_RTS (bytes_of 1002 @ bytes_of socket @ [42]) rts \<and> 0 \<le> i \<and> i < CONNECTIONS \<and> free_entry s i \<and>
    connection t = (connection s)(i := asking (time_tick s) (time_tick t) a h socket sz (connection s i)) \<and>
    find_rcv_sockets (uint h) 1002 socket t = i \<and> listening t = listening s \<and> cur_client t = a \<and>
    hosts t = (hosts s)(h := (hosts s h)\<lparr>outstanding_rfnm := outstanding_rfnm (hosts s h) + 1\<rparr>)"
proof -
  let ?r = "receive_request a (WIRE_OPEN # h # bytes_of socket @ [sz]) s"
  have r: "app ?r 0 = WIRE_OPEN" "app ?r 1 = h" "word_of_bytes (app ?r 2) (app ?r 3) (app ?r 4) (app ?r 5) = socket"
    "app ?r 6 = sz" "connection ?r = connection s" "hosts ?r = hosts s" "out ?r = out s" "time_tick ?r = time_tick s"
    "listening ?r = listening s" "cur_client ?r = a"
    by (simp_all add: receive_request_def put_bytes_def bytes_of_def)
  have app: "application a (WIRE_OPEN # h # bytes_of socket @ [sz]) s = app_open ?r"
    using r(1) by (simp add: application_def wire_check_def Let_def)
  show ?thesis
  proof (cases rule: make_open_cases [of "uint h" 1002 socket 0 0 ?r])
    case full
    then show ?thesis using free by (auto simp: r)
  next
    case (taken i)
    let ?c = "(set_flags (CONN_CLIENT OR CONN_OPEN) (set_rcv_link 42 (open_conn (uint h) 1002 socket 0 0 (time_tick s) (connection s i))))
      \<lparr>data_size := uint sz, listen := socket, client := a\<rparr>"
    let ?u = "?r\<lparr>connection := (connection s)(i := ?c)\<rparr>"
    obtain v where v: "ncp_rts h 1002 socket 42 ?u = Some v" "sends h NCP_RTS (bytes_of 1002 @ bytes_of socket @ [42]) ?u v"
      using commands_send(2) by blast
    then obtain rts where rts: "out v = out s @ [rts]" "control h NCP_RTS (bytes_of 1002 @ bytes_of socket @ [42]) rts"
      by (auto simp: sends_def r)
    let ?d = "asking (time_tick s) (time_tick v) a h socket sz (connection s i)"
    let ?t = "v\<lparr>connection := (connection s)(i := ?d)\<rparr>"
    have c: "host ?c = uint h" "lsock (rcv ?c) = 1002" "rsock (rcv ?c) = socket" "link (rcv ?c) = 42"
      by (simp_all add: setter_defs open_conn_def)
    have "app_open ?r = app_open_rts i ?u"
      using taken alive by (simp add: app_open_def Let_def r r(2) [unfolded One_nat_def] upd_def)
    also have "\<dots> = Some ?t"
      using taken(1,2) v c by (simp add: app_open_rts_def get_def upd_def unless_rfc_def sends_def asking_def)
    finally have t: "app_open ?r = Some ?t" .
    have "find_rcv_sockets (uint h) 1002 socket ?t = i"
      unfolding find_rcv_sockets_def Let_def using taken(1,2) unused
      by (intro scan_eqI) (auto simp: find_rcv_sockets_def scan_eq_minus1 Let_def asking_fields)
    then show ?thesis
      using t app rts taken(1-3) v(2) by (intro exI [of _ ?t]) (auto simp: r sends_def)
  qed
qed

lemma str_confirms:
  assumes i: "find_rcv_sockets (uint h) 1002 socket s = i" "0 \<le> i" "i < CONNECTIONS"
    and c: "host (connection s i) = uint h" "link (rcv (connection s i)) = 42" "has CONN_SENT_RTS (connection s i)"
      "has CONN_CLIENT (connection s i)"
    and str: "request_at (packet s) off socket 1002 32"
  shows "\<exists>t allo. process_str h off s = Some (9, t) \<and> out t = out s @ [allo] \<and>
    control h NCP_ALL ([42, 0, 1] @ bytes_of 1000) allo \<and> connection t = (connection s)(i := got_str 32 (connection s i)) \<and>
    listening t = listening s \<and> cur_client t = cur_client s \<and>
    hosts t = (hosts s)(h := (hosts s h)\<lparr>outstanding_rfnm := outstanding_rfnm (hosts s h) + 1\<rparr>)"
proof -
  let ?e = "got_str 32 (connection s i)"
  let ?w = "s\<lparr>connection := (connection s)(i := ?e)\<rparr>"
  have e: "host ?e = uint h" "link (rcv ?e) = 42" "has CONN_SENT_RTS ?e" "has CONN_CLIENT ?e"
    using c by (simp_all add: got_defs has_def bit.conj_disj_distrib2)
  obtain t where t: "ncp_all h 42 1 1000 ?w = Some t" "sends h NCP_ALL ([42, ucast (drop_bit 8 (1 :: u16)), ucast (1 :: u16)] @ bytes_of 1000) ?w t"
    using commands_send(4) by blast
  have "process_str h off s = Some (9, t)"
    using str i t(1) e by (simp add: process_str_def args_def request_at_def str_existing_def Let_def upd_def get_def got_str_def)
  then show ?thesis using t(2) by (auto simp: sends_def)
qed

text \<open>
  C14. The start of the ICP at the client. If the host is known to be alive, an entry is free and the
  pair of sockets is not in use, a request to open a connection sends one message, the RTS for the
  socket asked for with link 42. The STR of the server, with byte size 32, is answered with an
  allocation of one message and 1000 bits on that link.
\<close>

theorem client_icp_starts:
  assumes alive: "ho_flags (hosts s h) AND HOST_ALIVE \<noteq> 0" and free: "0 \<le> k" "k < CONNECTIONS" "free_entry s k"
    and unused: "find_rcv_sockets (uint h) 1002 socket s = - 1" and str: "request_at p off socket 1002 32"
  shows "\<exists>t u i rts allo. application a (WIRE_OPEN # h # bytes_of socket @ [sz]) s = Some t \<and>
    out t = out s @ [rts] \<and> control h NCP_RTS (bytes_of 1002 @ bytes_of socket @ [42]) rts \<and>
    process_str h off (t\<lparr>packet := p\<rparr>) = Some (9, u) \<and> out u = out t @ [allo] \<and>
    control h NCP_ALL ([42, 0, 1] @ bytes_of 1000) allo \<and>
    free_entry s i \<and> find_rcv_sockets (uint h) 1002 socket u = i \<and> icp_client_conn h socket sz (connection u i)"
proof -
  obtain t i rts where t: "application a (WIRE_OPEN # h # bytes_of socket @ [sz]) s = Some t" "out t = out s @ [rts]"
    "control h NCP_RTS (bytes_of 1002 @ bytes_of socket @ [42]) rts" "0 \<le> i" "i < CONNECTIONS" "free_entry s i"
    "connection t = (connection s)(i := asking (time_tick s) (time_tick t) a h socket sz (connection s i))"
    "find_rcv_sockets (uint h) 1002 socket t = i"
    using open_asks [OF alive free unused] by blast
  let ?s = "t\<lparr>packet := p\<rparr>"
  have c: "connection t i = asking (time_tick s) (time_tick t) a h socket sz (connection s i)" by (simp add: t(7))
  have f: "find_rcv_sockets (uint h) 1002 socket ?s = i" using t(8) by (simp add: find_rcv_sockets_def)
  have g: "host (connection ?s i) = uint h" "link (rcv (connection ?s i)) = 42" "has CONN_SENT_RTS (connection ?s i)"
    "has CONN_CLIENT (connection ?s i)" by (simp_all add: c asking_fields has_def)
  have str': "request_at (packet ?s) off socket 1002 32" using str by simp
  obtain u allo where u: "process_str h off ?s = Some (9, u)" "out u = out ?s @ [allo]"
    "control h NCP_ALL ([42, 0, 1] @ bytes_of 1000) allo" "connection u = (connection ?s)(i := got_str 32 (connection ?s i))"
    using str_confirms [OF f t(4,5) g str'] by blast
  have "find_rcv_sockets (uint h) 1002 socket u = find_rcv_sockets (uint h) 1002 socket ?s"
    unfolding find_rcv_sockets_def Let_def u(4) by (rule arg_cong [of _ _ "scan CONNECTIONS"]) (auto simp: got_defs)
  moreover have "icp_client_conn h socket sz (connection u i)"
    by (simp add: u(4) t(7) icp_client_conn_def got_defs asking_fields)
  ultimately show ?thesis using t u f by (intro exI [of _ t] exI [of _ u] exI [of _ i]) auto
qed

text \<open>Host 5 is alive, and all entries are free.\<close>

definition alive_ncp :: ncp where
  "alive_ncp = empty_ncp\<lparr>hosts := (hosts empty_ncp)(5 := (hosts empty_ncp 5)\<lparr>ho_flags := HOST_ALIVE\<rparr>)\<rparr>"

lemma request_at_put: "request_at (put_bytes 10 (bytes_of a @ bytes_of b @ [x]) (\<lambda>_. 0)) 10 a b x"
  by (simp add: request_at_def put_bytes_def sock_eq bytes_of_def)

theorem client_icp_starts_witness:
  "\<exists>t u i rts allo. application zero_client (WIRE_OPEN # 5 # bytes_of 23 @ [8]) alive_ncp = Some t \<and> out t = [rts] \<and>
     process_str 5 10 (t\<lparr>packet := put_bytes 10 (bytes_of 23 @ bytes_of 1002 @ [32]) (\<lambda>_. 0)\<rparr>) = Some (9, u) \<and>
     out u = [rts, allo] \<and> control 5 NCP_ALL ([42, 0, 1] @ bytes_of 1000) allo \<and> icp_client_conn 5 23 8 (connection u i)"
proof -
  have a: "ho_flags (hosts alive_ncp 5) AND HOST_ALIVE \<noteq> 0" "out alive_ncp = []"
    by (simp_all add: alive_ncp_def empty_ncp_def zero_ncp_def)
  have f: "free_entry alive_ncp 0" by (simp add: alive_ncp_def empty_ncp_def destroy_conn_def)
  have u: "find_rcv_sockets (uint (5 :: u8)) 1002 23 alive_ncp = - 1"
    by (simp add: find_rcv_sockets_def scan_eq_minus1 alive_ncp_def empty_ncp_def destroy_conn_def)
  show ?thesis
    using client_icp_starts [OF a(1) _ _ f u request_at_put, where a = zero_client and sz = 8] a(2) by auto
qed

section \<open>The socket number\<close>

text \<open>The data connection when this side has requested it.\<close>

definition icp_asked_conn :: "u8 \<Rightarrow> u32 \<Rightarrow> u32 \<Rightarrow> u8 \<Rightarrow> conn \<Rightarrow> bool" where
  "icp_asked_conn h socket sk sz c \<longleftrightarrow> host c = uint h \<and>
     link (rcv c) = 45 \<and> lsock (rcv c) = 1004 \<and> rsock (rcv c) = sk + 1 \<and>
     link (snd c) = - 1 \<and> bsize (snd c) = uint sz \<and> lsock (snd c) = 1005 \<and> rsock (snd c) = sk \<and>
     flags c = CONN_OPEN OR CONN_GOT_SOCKET OR CONN_SENT_STR OR CONN_SENT_RTS \<and> listen c = socket"

lemma offered_fields:
  "host (offered w c) = host c" "rcv (offered w c) = rcv c" "snd (offered w c) = snd c"
  "flags (offered w c) = flags c OR CONN_SENT_STR OR CONN_SENT_RTS" "listen (offered w c) = listen c"
  by (simp_all add: offered_def requested_def dequeued_def set_flags_def or.assoc)

lemma dequeued_fields:
  "host (dequeued c) = host c" "rcv (dequeued c) = rcv c" "snd (dequeued c) = snd c"
  "flags (dequeued c) = flags c" "listen (dequeued c) = listen c"
  by (simp_all add: dequeued_def)

text \<open>What \<open>icp_data\<close> puts into the two entries before it runs the queue.\<close>

definition icp_closing :: "u64 \<Rightarrow> conn \<Rightarrow> conn" where
  "icp_closing now c = clear_flags CONN_OPEN (c\<lparr>rfnm_callback := Some Send_cls_rcv, rfnm_timeout := Some Just_drop,
     rfnm_time := now + RFNM_TIMEOUT, rfc_timeout := None\<rparr>)"

definition icp_asking :: "u8 \<Rightarrow> u32 \<Rightarrow> u32 \<Rightarrow> u8 \<Rightarrow> u64 \<Rightarrow> conn \<Rightarrow> conn" where
  "icp_asking h socket sk sz now c = set_flags (CONN_GOT_SOCKET OR CONN_OPEN)
     ((set_rcv_link 45 (set_snd_size (uint sz) (open_conn (uint h) 1004 (sk + 1) 1005 sk now c)))
       \<lparr>rfnm_callback := Some Send_str_and_rts, rfnm_timeout := Some Rfnm_timeout,
        rfnm_time := now + RFNM_TIMEOUT, listen := socket\<rparr>)"

lemma icp_asking_fields:
  "host (icp_asking h socket sk sz now c) = uint h" "link (rcv (icp_asking h socket sk sz now c)) = 45"
  "lsock (rcv (icp_asking h socket sk sz now c)) = 1004" "rsock (rcv (icp_asking h socket sk sz now c)) = sk + 1"
  "snd (icp_asking h socket sk sz now c) = \<lparr>link = link (snd c), bsize = uint sz, lsock = 1005, rsock = sk\<rparr>"
  "flags (icp_asking h socket sk sz now c) = CONN_GOT_SOCKET OR CONN_OPEN"
  "listen (icp_asking h socket sk sz now c) = socket"
  "rfnm_callback (icp_asking h socket sk sz now c) = Some Send_str_and_rts"
  by (simp_all add: icp_asking_def setter_defs open_conn_def)

lemma icp_closing_fields:
  "host (icp_closing now c) = host c" "rcv (icp_closing now c) = rcv c" "snd (icp_closing now c) = snd c"
  "rfnm_callback (icp_closing now c) = Some Send_cls_rcv"
  by (simp_all add: icp_closing_def clear_flags_def)

lemma icp_data_opens:
  assumes i: "0 \<le> i" "i < CONNECTIONS" "icp_client_conn h socket sz (connection s i)"
    and sk: "sock (\<lambda>k. packet s (9 + k)) = sk"
    and new: "find_rcv_sockets (uint h) 1004 (sk + 1) s = - 1" "find_snd_sockets (uint h) 1005 sk s = - 1"
    and free: "0 \<le> k" "k < CONNECTIONS" "free_entry s k"
  shows "\<exists>j. free_entry s j \<and> 0 \<le> j \<and> j < CONNECTIONS \<and> j \<noteq> i \<and>
    icp_data h i s = do { s \<leftarrow> check_rfnm (uint h) (s\<lparr>connection := (connection s)(i := icp_closing (time_tick s) (connection s i),
        j := icp_asking h socket sk sz (time_tick s) (connection s j))\<rparr>); maybe_reply j s }"
proof -
  let ?c = "icp_closing (time_tick s) (connection s i)"
  let ?s = "s\<lparr>connection := (connection s)(i := ?c)\<rparr>"
  have c: "host ?c = uint h" "lsock (rcv ?c) = 1002" "rsock (rcv ?c) = socket" "data_size ?c = uint sz"
    using i(3) by (simp_all add: icp_client_conn_def icp_closing_def clear_flags_def)
  have look: "find_rcv_sockets (uint h) 1004 (sk + 1) ?s = - 1" "find_snd_sockets (uint h) 1005 sk ?s = - 1"
    using new find_rcv_sockets_upd [of ?c s i ?s] find_snd_sockets_upd [of ?c s i ?s] by (simp_all add: icp_closing_fields)
  show ?thesis
  proof (cases rule: make_open_cases [of "uint h" 1004 "sk + 1" 1005 sk ?s])
    case full
    have "k \<noteq> i" using free(3) i(3) by (auto simp: icp_client_conn_def)
    then show ?thesis using full(2) [rule_format, of k] free by simp
  next
    case (taken j)
    then have ji: "j \<noteq> i" using c(1) by auto
    have ho: "host (open_conn (uint h) 1004 (sk + 1) 1005 sk w e) = uint h" for w e by (simp add: open_conn_def)
    have "icp_data h i s = do { s \<leftarrow> check_rfnm (uint h) (s\<lparr>connection := (connection s)(i := ?c,
        j := icp_asking h socket sk sz (time_tick s) (connection s j))\<rparr>); maybe_reply j s }"
      using i(1,2) taken(1,2,5) ji c look sk
      by (simp add: icp_data_def Let_def when_rfnm_def upd_def get_def icp_closing_def icp_asking_def ho)
    then show ?thesis using taken ji by auto
  qed
qed

text \<open>What else there is to say: the entries of the two connections, and the number of messages.\<close>

definition numbered_beside :: "u8 \<Rightarrow> int \<Rightarrow> int \<Rightarrow> ncp \<Rightarrow> ncp \<Rightarrow> bool" where
  "numbered_beside h i j s t \<longleftrightarrow> host (connection t i) = host (connection s i) \<and>
     rcv (connection t i) = (rcv (connection s i))\<lparr>link := - 1\<rparr> \<and> snd (connection t i) = snd (connection s i) \<and>
     flags (connection t i) = flags (connection s i) AND NOT CONN_OPEN \<and>
     rfnm_callback (connection t i) = None \<and> rfnm_callback (connection t j) = None \<and>
     same_allocation (connection s j) (connection t j) \<and>
     listening t = listening s \<and> cur_client t = cur_client s \<and>
     outstanding_rfnm (hosts t h) = outstanding_rfnm (hosts s h) + 3"

lemma icp_number:
  assumes wf: "wf_ncp s" and i: "find_link (uint h) 42 s = i" "i \<noteq> - 1" "icp_client_conn h socket sz (connection s i)"
    and m: "packet s 1 = h" "packet s 2 = 42" "packet s 5 = 32" "sock (\<lambda>k. packet s (9 + k)) = sk"
    and new: "find_rcv_sockets (uint h) 1004 (sk + 1) s = - 1" "find_snd_sockets (uint h) 1005 sk s = - 1"
    and free: "0 \<le> k" "k < CONNECTIONS" "free_entry s k"
    and quiet: "\<forall>k. 0 \<le> k \<and> k < CONNECTIONS \<and> host (connection s k) = uint h \<longrightarrow> rfnm_callback (connection s k) = None"
      "outstanding_rfnm (hosts s h) < 2"
  shows "\<exists>t j cls str rts. process_regular s = Some t \<and> free_entry s j \<and> i \<noteq> j \<and>
    out t = out s @ (if i < j then [cls, str, rts] else [str, rts, cls]) \<and>
    control h NCP_CLS (bytes_of 1002 @ bytes_of socket) cls \<and>
    control h NCP_STR (bytes_of 1005 @ bytes_of sk @ [sz]) str \<and>
    control h NCP_RTS (bytes_of 1004 @ bytes_of (sk + 1) @ [45]) rts \<and>
    0 \<le> j \<and> j < CONNECTIONS \<and> sent_rcv_cls (connection t i) \<and> numbered_beside h i j s t \<and> cls_timeout (connection t i) = Some Cls_timeout \<and>
    icp_asked_conn h socket sk sz (connection t j) \<and>
    find_rcv_sockets (uint h) 1004 (sk + 1) t = j \<and> find_snd_sockets (uint h) 1005 sk t = j \<and>
    (\<forall>k. k \<noteq> i \<and> k \<noteq> j \<longrightarrow> connection t k = connection s k)"
proof -
  have ir: "0 \<le> i" "i < CONNECTIONS" using i(1,2) scan_hit unfolding find_link_def Let_def by blast+
  note c = i(3) [unfolded icp_client_conn_def]
  obtain j where j: "free_entry s j" "0 \<le> j" "j < CONNECTIONS" "j \<noteq> i"
    "icp_data h i s = do { s \<leftarrow> check_rfnm (uint h) (s\<lparr>connection := (connection s)(i := icp_closing (time_tick s) (connection s i),
        j := icp_asking h socket sk sz (time_tick s) (connection s j))\<rparr>); maybe_reply j s }"
    using icp_data_opens [OF ir i(3) m(4) new free] by blast
  let ?ci = "icp_closing (time_tick s) (connection s i)" and ?cj = "icp_asking h socket sk sz (time_tick s) (connection s j)"
  let ?v = "s\<lparr>connection := (connection s)(i := ?ci, j := ?cj)\<rparr>"
  have lj: "link (snd (connection s j)) = - 1" using wfD [OF wf j(2,3)] j(1) by (simp add: wf_defs)
  obtain t e es where t: "check_rfnm_loop (Suc (Suc 19)) (uint h) [0..CONNECTIONS - 1] ?v = Some t"
    "out t = out ?v @ (if i < j then e # es else es @ [e])" "offers h (connection ?v j) es"
    "control h NCP_CLS (bytes_of (lsock (half_of Send_cls_rcv (connection ?v i))) @ bytes_of (rsock (half_of Send_cls_rcv (connection ?v i)))) e"
    "connection t = (connection ?v)(i := closing Send_cls_rcv (time_tick ?v) (dequeued (connection ?v i)),
      j := offered (time_tick ?v) (dequeued (connection ?v j)))"
    "listening t = listening ?v" "cur_client t = cur_client ?v" "outstanding_rfnm (hosts t h) = outstanding_rfnm (hosts ?v h) + 3"
    using icp_queue [OF _ ir, of Send_cls_rcv ?v h j 19] j(2-4) c quiet by (auto simp: icp_closing_fields icp_asking_fields)
  have ct: "connection t j = offered (time_tick s) (dequeued ?cj)"
    "connection t i = closing Send_cls_rcv (time_tick s) (dequeued ?ci)"
    "\<And>k. k \<noteq> i \<Longrightarrow> k \<noteq> j \<Longrightarrow> connection t k = connection s k"
    using j(4) t(5) by auto
  have asked: "icp_asked_conn h socket sk sz (connection t j)"
    by (simp add: ct icp_asked_conn_def offered_fields dequeued_fields icp_asking_fields lj ac_simps)
  then have "maybe_reply j t = Some t"
    using maybe_reply_waits [OF j(2,3), of t] by (simp add: icp_asked_conn_def has_def)
  then have "icp_data h i s = Some t" using j(5) t(1) by (simp add: check_rfnm_def)
  moreover have "process_regular s = icp_data h i s"
    using i(1,2) ir c m(1-3) by (simp add: process_regular_def Let_def get_def has_def)
  ultimately have run: "process_regular s = Some t" by simp
  obtain str rts where es: "es = [str, rts]" "control h NCP_STR (bytes_of 1005 @ bytes_of sk @ [sz]) str"
    "control h NCP_RTS (bytes_of 1004 @ bytes_of (sk + 1) @ [45]) rts"
    using t(3) j(4) by (auto simp: offers_def icp_asking_fields)
  have cls: "control h NCP_CLS (bytes_of 1002 @ bytes_of socket) e" using t(4) j(4) c by (simp add: half_of_def icp_closing_fields)
  have halves: "rcv (connection t i) = (rcv (connection s i))\<lparr>link := - 1\<rparr>" "snd (connection t i) = snd (connection s i)"
    by (simp_all add: ct(2) closing_def set_rcv_link_def dequeued_fields icp_closing_fields)
  have old: "find_rcv_sockets (uint h) 1004 (sk + 1) t = j" "find_snd_sockets (uint h) 1005 sk t = j"
  proof -
    have "(host (connection t k) = uint h \<and> lsock (rcv (connection t k)) = 1004 \<and> rsock (rcv (connection t k)) = sk + 1) = (k = j)"
      "(host (connection t k) = uint h \<and> lsock (snd (connection t k)) = 1005 \<and> rsock (snd (connection t k)) = sk) = (k = j)"
      if "0 \<le> k" "k < CONNECTIONS" for k
      using that new asked ct(3) [of k] c halves
      by (cases "k = j"; cases "k = i"; auto simp: icp_asked_conn_def find_rcv_sockets_def find_snd_sockets_def scan_eq_minus1)+
    then show "find_rcv_sockets (uint h) 1004 (sk + 1) t = j" "find_snd_sockets (uint h) 1005 sk t = j"
      unfolding find_rcv_sockets_def find_snd_sockets_def Let_def using j(2,3) by (intro scan_eqI; force)+
  qed
  have "numbered_beside h i j s t"
    using t(6-) by (simp add: numbered_beside_def ct) (simp add: closing_def dequeued_def icp_closing_def setter_defs
      offered_def requested_def icp_asking_def open_conn_def same_allocation_def)
  then show ?thesis
    using run j(1-4) t(2) es cls asked old ct(3)
    by (intro exI [of _ t] exI [of _ j] exI [of _ e] exI [of _ str] exI [of _ rts])
      (simp add: ct(2) closing_def sent_rcv_cls_def set_rcv_link_def)
qed

text \<open>
  C15. The socket number at the client. The message with the number on the ICP link, when nothing else
  of that host waits for a RFNM, makes the daemon close the ICP connection and request the data
  connection for the next sockets in both directions: three messages, the CLS first or last, as the
  entries lie in the table. The application hears nothing yet.
\<close>

theorem client_icp_number:
  assumes wf: "wf_ncp s" and i: "find_link (uint h) 42 s = i" "i \<noteq> - 1" "icp_client_conn h socket sz (connection s i)"
    and m: "packet s 1 = h" "packet s 2 = 42" "packet s 5 = 32" "sock (\<lambda>k. packet s (9 + k)) = sk"
    and new: "find_rcv_sockets (uint h) 1004 (sk + 1) s = - 1" "find_snd_sockets (uint h) 1005 sk s = - 1"
    and free: "0 \<le> k" "k < CONNECTIONS" "free_entry s k"
    and quiet: "\<forall>k. 0 \<le> k \<and> k < CONNECTIONS \<and> host (connection s k) = uint h \<longrightarrow> rfnm_callback (connection s k) = None"
      "outstanding_rfnm (hosts s h) < 2"
  shows "\<exists>t j cls str rts. process_regular s = Some t \<and> free_entry s j \<and> i \<noteq> j \<and>
    out t = out s @ (if i < j then [cls, str, rts] else [str, rts, cls]) \<and>
    control h NCP_CLS (bytes_of 1002 @ bytes_of socket) cls \<and>
    control h NCP_STR (bytes_of 1005 @ bytes_of sk @ [sz]) str \<and>
    control h NCP_RTS (bytes_of 1004 @ bytes_of (sk + 1) @ [45]) rts \<and>
    sent_rcv_cls (connection t i) \<and> cls_timeout (connection t i) = Some Cls_timeout \<and>
    icp_asked_conn h socket sk sz (connection t j) \<and>
    find_rcv_sockets (uint h) 1004 (sk + 1) t = j \<and> find_snd_sockets (uint h) 1005 sk t = j \<and>
    (\<forall>k. k \<noteq> i \<and> k \<noteq> j \<longrightarrow> connection t k = connection s k)"
  using icp_number [OF assms] by blast

text \<open>The ICP connection of a client in entry 0, and the message with the socket number 200.\<close>

definition numbered_ncp :: ncp where
  "numbered_ncp = empty_ncp\<lparr>connection := (\<lambda>_. destroy_conn zero_conn)
     (0 := zero_conn\<lparr>host := 5, rcv := \<lparr>link = 42, bsize = 32, lsock = 1002, rsock = 23\<rparr>,
        flags := CONN_CLIENT OR CONN_OPEN OR CONN_SENT_RTS OR CONN_GOT_STR, data_size := 8, listen := 23\<rparr>),
     packet := put_bytes 0 [0, 5, 42, 0, 0, 32, 0, 1, 0, 0, 0, 0, 200] (\<lambda>_. 0)\<rparr>"

theorem client_icp_number_witness:
  "\<exists>t j cls str rts. process_regular numbered_ncp = Some t \<and>
     out t = (if 0 < j then [cls, str, rts] else [str, rts, cls]) \<and>
     control 5 NCP_CLS (bytes_of 1002 @ bytes_of 23) cls \<and> control 5 NCP_STR (bytes_of 1005 @ bytes_of 200 @ [8]) str \<and>
     control 5 NCP_RTS (bytes_of 1004 @ bytes_of 201 @ [45]) rts \<and> icp_asked_conn 5 23 200 8 (connection t j)"
proof -
  have wf: "wf_ncp numbered_ncp"
    by (simp add: wf_ncp_def numbered_ncp_def zero_conn_def destroy_conn_def wf_defs)
  have i: "find_link (uint (5 :: u8)) 42 numbered_ncp = 0"
    unfolding find_link_def Let_def by (rule scan_eqI) (simp_all add: numbered_ncp_def)
  have c: "icp_client_conn 5 23 8 (connection numbered_ncp 0)" by (simp add: numbered_ncp_def icp_client_conn_def)
  have m: "packet numbered_ncp 1 = 5" "packet numbered_ncp 2 = 42" "packet numbered_ncp 5 = 32"
    "sock (\<lambda>k. packet numbered_ncp (9 + k)) = 200"
    by (simp_all add: numbered_ncp_def put_bytes_def sock_eq word_of_bytes_zero_high)
  have new: "find_rcv_sockets (uint (5 :: u8)) 1004 (200 + 1) numbered_ncp = - 1"
    "find_snd_sockets (uint (5 :: u8)) 1005 200 numbered_ncp = - 1"
    by (simp_all add: find_rcv_sockets_def find_snd_sockets_def scan_eq_minus1 numbered_ncp_def destroy_conn_def zero_conn_def)
  have f: "free_entry numbered_ncp 1" by (simp add: numbered_ncp_def destroy_conn_def)
  have q: "\<forall>k. 0 \<le> k \<and> k < CONNECTIONS \<and> host (connection numbered_ncp k) = uint (5 :: u8) \<longrightarrow>
      rfnm_callback (connection numbered_ncp k) = None" "outstanding_rfnm (hosts numbered_ncp 5) < 2" "out numbered_ncp = []"
    by (simp_all add: numbered_ncp_def empty_ncp_def zero_ncp_def zero_conn_def destroy_conn_def)
  have n: "(0 :: int) \<noteq> - 1" "(0 :: int) \<le> 1" "(1 :: int) < CONNECTIONS" by simp_all
  obtain t j cls str rts where "process_regular numbered_ncp = Some t"
    "out t = out numbered_ncp @ (if 0 < j then [cls, str, rts] else [str, rts, cls])"
    "control 5 NCP_CLS (bytes_of 1002 @ bytes_of 23) cls" "control 5 NCP_STR (bytes_of 1005 @ bytes_of 200 @ [8]) str"
    "control 5 NCP_RTS (bytes_of 1004 @ bytes_of (200 + 1) @ [45]) rts" "icp_asked_conn 5 23 200 8 (connection t j)"
    using client_icp_number [OF wf i n(1) c m new n(2,3) f q(1,2)] by blast
  then show ?thesis
    using q(3) by (intro exI [of _ t] exI [of _ j] exI [of _ cls] exI [of _ str] exI [of _ rts]) simp
qed

section \<open>The requests of the server\<close>

text \<open>The data connection when both requests of the server have come.\<close>

definition client_open_conn :: "u8 \<Rightarrow> u32 \<Rightarrow> u8 \<Rightarrow> u8 \<Rightarrow> u8 \<Rightarrow> conn \<Rightarrow> bool" where
  "client_open_conn h sk sz rsz lnk c \<longleftrightarrow> host c = uint h \<and>
     rcv c = \<lparr>link = 45, bsize = uint rsz, lsock = 1004, rsock = sk + 1\<rparr> \<and>
     snd c = \<lparr>link = uint lnk, bsize = uint sz, lsock = 1005, rsock = sk\<rparr> \<and>
     \<not> has CONN_OPEN c \<and> has CONN_GOT_RTS c \<and> has CONN_GOT_STR c \<and> rfc_timeout c = None"

text \<open>
  C16. The end of the ICP at the client. The STR and the RTS of the server for the data connection may
  come in either order. The first is only noted; at the second the connection is open in both
  directions, and exactly one OPEN reply, with the number of the connection, the byte size of the server
  and no error, goes to the application whose request was the latest.
\<close>

theorem open_completes:
  assumes j: "find_rcv_sockets (uint h) 1004 (sk + 1) s = j" "find_snd_sockets (uint h) 1005 sk s = j" "j \<noteq> - 1"
    and c: "icp_asked_conn h socket sk sz (connection s j)"
    and none: "find_listen 1005 s = - 1" and lnk: "LINK_MIN \<le> lnk" "lnk \<le> LINK_MAX"
    and str: "request_at p off (sk + 1) 1004 rsz" and rts: "request_at q off' sk 1005 lnk"
    and reply: "reply = To_app (cur_client s) ([WIRE_OPEN + 1, h] @ bytes_of socket @ [word_of_int j, rsz, 0])"
  shows "(\<exists>u t. process_str h off (s\<lparr>packet := p\<rparr>) = Some (9, u) \<and> out u = out s \<and>
      process_rts h off' (u\<lparr>packet := q\<rparr>) = Some (9, t) \<and> out t = out s @ [reply] \<and>
      client_open_conn h sk sz rsz lnk (connection t j)) \<and>
    (\<exists>u t. process_rts h off' (s\<lparr>packet := q\<rparr>) = Some (9, u) \<and> out u = out s \<and>
      process_str h off (u\<lparr>packet := p\<rparr>) = Some (9, t) \<and> out t = out s @ [reply] \<and>
      client_open_conn h sk sz rsz lnk (connection t j))"
proof -
  let ?c = "connection s j"
  have jr: "0 \<le> j" "j < CONNECTIONS" using j(1,3) scan_hit unfolding find_rcv_sockets_def Let_def by blast+
  note f = c [unfolded icp_asked_conn_def]
  have halves: "rcv ?c = \<lparr>link = 45, bsize = bsize (rcv ?c), lsock = 1004, rsock = sk + 1\<rparr>"
    "snd ?c = \<lparr>link = - 1, bsize = uint sz, lsock = 1005, rsock = sk\<rparr>"
    using f by (cases "rcv ?c"; cases "snd ?c"; simp)+
  have two: "maybe_reply j (s\<lparr>packet := m, connection := (connection s)(j := d)\<rparr>) = Some t \<Longrightarrow>
      out t = out s @ [reply] \<and> client_open_conn h sk sz rsz lnk (connection t j)"
    "maybe_reply j (s\<lparr>packet := m, connection := (connection s)(j := d)\<rparr>) \<noteq> None"
    if "d = got_rts lnk (got_str rsz ?c) \<or> d = got_str rsz (got_rts lnk ?c)" for d m t
    using that maybe_reply_open [OF jr refl, of "s\<lparr>packet := m, connection := (connection s)(j := d)\<rparr>" h rsz] f halves reply
    by (auto simp: has_def got_defs client_open_conn_def clear_flags_def)
  have flags: "has CONN_SENT_RTS ?c" "has CONN_SENT_STR ?c" "\<not> has CONN_CLIENT ?c" "\<not> has CONN_GOT_RTS ?c" "\<not> has CONN_GOT_STR ?c"
    using f by (simp_all add: has_def)
  show ?thesis
    using both_requests [OF j flags none lnk str rts] two by fastforce
qed

text \<open>The data connection of a client in entry 1, requested in both directions.\<close>

definition asked_ncp :: ncp where
  "asked_ncp = empty_ncp\<lparr>connection := (\<lambda>_. destroy_conn zero_conn)
     (1 := zero_conn\<lparr>host := 5, rcv := \<lparr>link = 45, bsize = - 1, lsock = 1004, rsock = 201\<rparr>,
        snd := \<lparr>link = - 1, bsize = 8, lsock = 1005, rsock = 200\<rparr>, listen := 23,
        flags := CONN_OPEN OR CONN_GOT_SOCKET OR CONN_SENT_STR OR CONN_SENT_RTS\<rparr>)\<rparr>"

theorem open_completes_witness:
  "\<exists>u t. process_rts 5 10 (asked_ncp\<lparr>packet := put_bytes 10 (bytes_of 200 @ bytes_of 1005 @ [46]) (\<lambda>_. 0)\<rparr>) = Some (9, u) \<and>
     process_str 5 10 (u\<lparr>packet := put_bytes 10 (bytes_of 201 @ bytes_of 1004 @ [8]) (\<lambda>_. 0)\<rparr>) = Some (9, t) \<and>
     out t = [To_app zero_client [4, 5, 0, 0, 0, 23, 1, 8, 0]]"
proof -
  have j: "find_rcv_sockets (uint (5 :: u8)) 1004 (200 + 1) asked_ncp = 1"
    "find_snd_sockets (uint (5 :: u8)) 1005 200 asked_ncp = 1"
    unfolding find_rcv_sockets_def find_snd_sockets_def Let_def
    by (rule scan_eqI; auto simp: asked_ncp_def destroy_conn_def)+
  have c: "icp_asked_conn 5 23 200 8 (connection asked_ncp 1)" by (simp add: asked_ncp_def icp_asked_conn_def)
  have l: "find_listen 1005 asked_ncp = - 1"
    by (simp add: find_listen_def scan_eq_minus1 asked_ncp_def empty_ncp_def zero_ncp_def)
  have e: "out asked_ncp = []" "cur_client asked_ncp = zero_client" "bytes_of (23 :: u32) = [0, 0, 0, 23]"
    by (simp_all add: asked_ncp_def empty_ncp_def zero_ncp_def bytes_of_def byte_of_def)
  show ?thesis
    using open_completes [OF j _ c l _ _ request_at_put [of "200 + 1" 1004 8] request_at_put [of 200 1005 46] refl] e by auto
qed

end
