(* ===== verification/Ncp_Ends.thy ===== *)
theory Ncp_Ends
  imports Ncp_Icp_Run Ncp_Icp_Client Ncp_Protocol Ncp_Total
begin

text \<open>
  The last part of the Initial Connection Protocol, for both sides at once: the ICP connection waits for a CLS, the
  data connection for an STR and a RTS, and the three messages may come in any order.
\<close>

section \<open>One end of a connection\<close>

text \<open>
  One end: the peer, whether it is that of the client, the sockets of the ICP connection, the sockets of the data connection in both
  directions, the link on which it receives, the size in which it sends, what the requests of the peer bring, the
  socket that was asked for, and the application.
\<close>

record end_plan =
  peer :: u8
  is_client :: bool
  icp_ls :: u32
  icp_rs :: u32
  rcv_ls :: u32
  rcv_rs :: u32
  snd_ls :: u32
  snd_rs :: u32
  own_link :: int
  own_size :: u8
  peer_size :: u8
  peer_link :: u8
  asked :: u32
  applicant :: client_t

text \<open>The ICP connection, of which one direction was used and has been closed from here.\<close>

definition icp_entry :: "end_plan \<Rightarrow> conn \<Rightarrow> bool" where
  "icp_entry P c \<longleftrightarrow> host c = uint (peer P) \<and> rfnm_callback c = None \<and>
     \<not> has CONN_OPEN c \<and> \<not> has CONN_READ c \<and> \<not> has CONN_WRITE c \<and> \<not> has CONN_CLOSE c \<and>
     (if is_client P then rcv c = \<lparr>link = - 1, bsize = 32, lsock = icp_ls P, rsock = icp_rs P\<rparr> \<and>
        snd c = \<lparr>link = - 1, bsize = - 1, lsock = 0, rsock = 0\<rparr>
      else snd c = \<lparr>link = - 1, bsize = 32, lsock = icp_ls P, rsock = icp_rs P\<rparr> \<and>
        rcv c = \<lparr>link = - 1, bsize = - 1, lsock = 0, rsock = 0\<rparr>)"

text \<open>What has still to come from the peer: the answer to the CLS of the ICP connection, the STR and the RTS.\<close>

datatype rfc = Cls | Str | Rts

text \<open>The data connection, requested from here, when \<open>K\<close> has still to come.\<close>

definition waiting_for :: "end_plan \<Rightarrow> u32" where
  "waiting_for P = (if is_client P then CONN_OPEN else CONN_LISTEN)"

definition end_flags :: "end_plan \<Rightarrow> rfc set \<Rightarrow> u32" where
  "end_flags P K = (if is_client P then CONN_GOT_SOCKET else 0) OR CONN_SENT_STR OR CONN_SENT_RTS OR
     (if Str \<in> K then 0 else CONN_GOT_STR) OR (if Rts \<in> K then 0 else CONN_GOT_RTS) OR
     (if Str \<in> K \<or> Rts \<in> K then waiting_for P else 0)"

definition data_entry :: "end_plan \<Rightarrow> rfc set \<Rightarrow> conn \<Rightarrow> bool" where
  "data_entry P K c \<longleftrightarrow> host c = uint (peer P) \<and> rfnm_callback c = None \<and> listen c = asked P \<and>
     all_msgs c = 0 \<and> all_bits c = 0 \<and> all_callback c = None \<and>
     link (rcv c) = own_link P \<and> lsock (rcv c) = rcv_ls P \<and> rsock (rcv c) = rcv_rs P \<and>
     (Str \<notin> K \<longrightarrow> bsize (rcv c) = uint (peer_size P)) \<and>
     lsock (snd c) = snd_ls P \<and> rsock (snd c) = snd_rs P \<and> bsize (snd c) = uint (own_size P) \<and>
     (Rts \<notin> K \<longrightarrow> link (snd c) = uint (peer_link P)) \<and>
     flags c = end_flags P K"

text \<open>The daemon at one end: entries \<open>i\<close> and \<open>j\<close> are its only ones for the peer.\<close>

definition alone :: "u8 \<Rightarrow> int set \<Rightarrow> ncp \<Rightarrow> bool" where
  "alone h E s \<longleftrightarrow> (\<forall>k. 0 \<le> k \<and> k < CONNECTIONS \<and> k \<notin> E \<longrightarrow> host (connection s k) \<noteq> uint h)"

definition at_end :: "end_plan \<Rightarrow> int \<Rightarrow> int \<Rightarrow> rfc set \<Rightarrow> ncp \<Rightarrow> bool" where
  "at_end P i j K s \<longleftrightarrow> 0 \<le> i \<and> i < CONNECTIONS \<and> 0 \<le> j \<and> j < CONNECTIONS \<and> i \<noteq> j \<and> alone (peer P) {i, j} s \<and>
     (if Cls \<in> K then icp_entry P (connection s i) else host (connection s i) = - 1) \<and>
     data_entry P K (connection s j) \<and> find_listen (snd_ls P) s = - 1 \<and> cur_client s = applicant P"

definition plan_ok :: "end_plan \<Rightarrow> bool" where
  "plan_ok P \<longleftrightarrow> icp_ls P \<noteq> 0 \<and> (rcv_ls P, rcv_rs P) \<noteq> (icp_ls P, icp_rs P) \<and> (snd_ls P, snd_rs P) \<noteq> (icp_ls P, icp_rs P) \<and>
     rcv_ls P \<noteq> 0 \<and> snd_ls P \<noteq> 0 \<and> LINK_MIN \<le> peer_link P \<and> peer_link P \<le> LINK_MAX"

text \<open>What the application is told, with the number of the connection.\<close>

definition told :: "end_plan \<Rightarrow> int \<Rightarrow> effect" where
  "told P j = To_app (applicant P) (if is_client P
     then [WIRE_OPEN + 1, peer P] @ bytes_of (asked P) @ [word_of_int j, peer_size P, 0]
     else [WIRE_LISTEN + 1, peer P] @ bytes_of (asked P) @ [word_of_int j, peer_size P])"

section \<open>The tables\<close>

text \<open>Everything here depends only on three fields of the state.\<close>

definition same_tables :: "ncp \<Rightarrow> ncp \<Rightarrow> bool" where
  "same_tables s t \<longleftrightarrow> connection t = connection s \<and> listening t = listening s \<and> cur_client t = cur_client s"

lemma at_end_cong: "same_tables s t \<Longrightarrow> at_end P i j K t = at_end P i j K s"
  by (simp add: at_end_def alone_def same_tables_def find_listen_def)

lemma alone_idle:
  assumes "alone h E s" "\<And>k. k \<in> E \<Longrightarrow> host (connection s k) = uint h \<Longrightarrow> rfnm_callback (connection s k) = None"
  shows "idle (uint h) [0..CONNECTIONS - 1] s"
  using assms by (auto simp: idle_def alone_def)

text \<open>The look-ups that the three messages make.\<close>

lemma end_look_ups:
  assumes "plan_ok P" "at_end P i j K s"
  shows "find_rcv_sockets (uint (peer P)) (rcv_ls P) (rcv_rs P) s = j"
    "find_snd_sockets (uint (peer P)) (snd_ls P) (snd_rs P) s = j"
    "Cls \<in> K \<Longrightarrow> is_client P \<Longrightarrow> find_rcv_sockets (uint (peer P)) (icp_ls P) (icp_rs P) s = i"
    "Cls \<in> K \<Longrightarrow> \<not> is_client P \<Longrightarrow> find_rcv_sockets (uint (peer P)) (icp_ls P) (icp_rs P) s = - 1"
    "Cls \<in> K \<Longrightarrow> \<not> is_client P \<Longrightarrow> find_snd_sockets (uint (peer P)) (icp_ls P) (icp_rs P) s = i"
proof -
  let ?h = "uint (peer P)"
  have r: "0 \<le> i" "i < CONNECTIONS" "0 \<le> j" "j < CONNECTIONS" "i \<noteq> j"
    and away: "\<And>k. 0 \<le> k \<Longrightarrow> k < CONNECTIONS \<Longrightarrow> k \<noteq> i \<Longrightarrow> k \<noteq> j \<Longrightarrow> host (connection s k) \<noteq> ?h"
    using assms(2) by (auto simp: at_end_def alone_def)
  have d: "host (connection s j) = ?h" "lsock (rcv (connection s j)) = rcv_ls P" "rsock (rcv (connection s j)) = rcv_rs P"
    "lsock (snd (connection s j)) = snd_ls P" "rsock (snd (connection s j)) = snd_rs P"
    using assms(2) by (auto simp: at_end_def data_entry_def)
  have c: "host (connection s i) \<noteq> ?h \<or> lsock (rcv (connection s i)) \<noteq> rcv_ls P \<or> rsock (rcv (connection s i)) \<noteq> rcv_rs P"
    "host (connection s i) \<noteq> ?h \<or> lsock (snd (connection s i)) \<noteq> snd_ls P \<or> rsock (snd (connection s i)) \<noteq> snd_rs P"
  proof -
    have "host (connection s i) \<noteq> ?h" if "Cls \<notin> K"
      using assms(2) that u8_not_minus1 [of "peer P", THEN not_sym] by (simp add: at_end_def)
    moreover have "(lsock (rcv (connection s i)), rsock (rcv (connection s i))) \<in> {(icp_ls P, icp_rs P), (0, 0)}"
      "(lsock (snd (connection s i)), rsock (snd (connection s i))) \<in> {(icp_ls P, icp_rs P), (0, 0)}" if "Cls \<in> K"
      using assms(2) that by (auto simp: at_end_def icp_entry_def split: if_splits)
    ultimately show "host (connection s i) \<noteq> ?h \<or> lsock (rcv (connection s i)) \<noteq> rcv_ls P \<or> rsock (rcv (connection s i)) \<noteq> rcv_rs P"
      "host (connection s i) \<noteq> ?h \<or> lsock (snd (connection s i)) \<noteq> snd_ls P \<or> rsock (snd (connection s i)) \<noteq> snd_rs P"
      using assms(1) by (cases "Cls \<in> K"; auto simp: plan_ok_def)+
  qed
  have only: "scan CONNECTIONS (\<lambda>k. host (connection s k) = ?h \<and> Q k) = x"
    if x: "x \<in> {i, j}" "host (connection s x) = ?h" "Q x" "\<And>y. y \<in> {i, j} \<Longrightarrow> y \<noteq> x \<Longrightarrow> host (connection s y) \<noteq> ?h \<or> \<not> Q y" for Q x
  proof (rule scan_eqI)
    show "0 \<le> x" "x < CONNECTIONS" "host (connection s x) = ?h \<and> Q x" using x(1-3) r by auto
    show "\<not> (host (connection s k) = ?h \<and> Q k)" if k: "0 \<le> k" "k < x" for k
      using k \<open>x < CONNECTIONS\<close> away [of k] x(4) [of k] by (cases "k \<in> {i, j}") auto
  qed
  show "find_rcv_sockets ?h (rcv_ls P) (rcv_rs P) s = j" "find_snd_sockets ?h (snd_ls P) (snd_rs P) s = j"
    unfolding find_rcv_sockets_def find_snd_sockets_def Let_def using d c by (intro only; auto)+
  have nj: "\<not> (lsock (rcv (connection s j)) = icp_ls P \<and> rsock (rcv (connection s j)) = icp_rs P)"
    "\<not> (lsock (snd (connection s j)) = icp_ls P \<and> rsock (snd (connection s j)) = icp_rs P)"
    using d assms(1) by (auto simp: plan_ok_def)
  have icp: "icp_entry P (connection s i)" if "Cls \<in> K" using assms(2) that by (simp add: at_end_def)
  show "find_rcv_sockets ?h (icp_ls P) (icp_rs P) s = i" if "Cls \<in> K" "is_client P"
    unfolding find_rcv_sockets_def Let_def using icp that nj by (intro only) (auto simp: icp_entry_def)
  show "find_snd_sockets ?h (icp_ls P) (icp_rs P) s = i" if "Cls \<in> K" "\<not> is_client P"
    unfolding find_snd_sockets_def Let_def using icp that nj by (intro only) (auto simp: icp_entry_def)
  show "find_rcv_sockets ?h (icp_ls P) (icp_rs P) s = - 1" if "Cls \<in> K" "\<not> is_client P"
  proof -
    have "lsock (rcv (connection s i)) = 0" using icp that by (simp add: icp_entry_def)
    then have "\<not> (host (connection s k) = ?h \<and> lsock (rcv (connection s k)) = icp_ls P \<and> rsock (rcv (connection s k)) = icp_rs P)"
      if "0 \<le> k" "k < CONNECTIONS" for k
      using that away [of k] nj assms(1) by (cases "k = i"; cases "k = j") (auto simp: plan_ok_def)
    then show ?thesis unfolding find_rcv_sockets_def Let_def scan_eq_minus1 by blast
  qed
qed

section \<open>The messages of the peer\<close>

text \<open>The message \<open>k\<close> of the peer, as the peer sends it to host \<open>me\<close>.\<close>

definition from_peer :: "end_plan \<Rightarrow> u8 \<Rightarrow> rfc \<Rightarrow> effect \<Rightarrow> bool" where
  "from_peer P me k e \<longleftrightarrow> (case k of
     Cls \<Rightarrow> control me NCP_CLS (bytes_of (icp_rs P) @ bytes_of (icp_ls P)) e
   | Str \<Rightarrow> control me NCP_STR (bytes_of (rcv_rs P) @ bytes_of (rcv_ls P) @ [peer_size P]) e
   | Rts \<Rightarrow> control me NCP_RTS (bytes_of (snd_rs P) @ bytes_of (snd_ls P) @ [peer_link P]) e)"

lemma sockets_arrive:
  assumes "control me type (bytes_of a @ bytes_of b @ l) (To_imp d)" and "carried source d p"
  shows "sock (\<lambda>k. p (10 + k)) = a" "sock (\<lambda>k. p (10 + (4 + k))) = b"
    and "l = [x] \<Longrightarrow> request_at p 10 a b x"
proof -
  note f = carried_control(7) [OF assms]
  show s: "sock (\<lambda>k. p (10 + k)) = a" "sock (\<lambda>k. p (10 + (4 + k))) = b"
    by (rule sock_bytes_of, subst f; simp add: nth_append)+
  show "l = [x] \<Longrightarrow> request_at p 10 a b x"
    using s f [of 8] by (simp add: request_at_def nth_append)
qed

text \<open>The STR and the RTS are noted in the entry; the application is told when both have come.\<close>

lemma end_reply:
  assumes j: "0 \<le> j" "j < CONNECTIONS" and c: "c = connection s j" "data_entry P K (c\<lparr>flags := end_flags P K\<rparr>)"
    "flags c = end_flags P K OR waiting_for P" and a: "cur_client s = applicant P"
  shows "\<exists>t d. maybe_reply j s = Some t \<and> connection t = (connection s)(j := d) \<and> data_entry P K d \<and>
    out t = out s @ (if Str \<in> K \<or> Rts \<in> K then [] else [told P j]) \<and>
    listening t = listening s \<and> cur_client t = cur_client s \<and> hosts t = hosts s"
proof (cases "Str \<in> K \<or> Rts \<in> K")
  case True
  then have f: "flags c = end_flags P K" using c(3) by (simp add: end_flags_def or.assoc)
  then have "\<not> (has CONN_GOT_RTS c \<and> has CONN_GOT_STR c)" using True by (auto simp: has_def end_flags_def waiting_for_def)
  then have "maybe_reply j s = Some s" using maybe_reply_waits j c(1) by simp
  moreover have "data_entry P K c" using c(2) f by (simp add: data_entry_def)
  ultimately show ?thesis using True c(1) by (intro exI [of _ s] exI [of _ c]) simp
next
  case False
  have h: "host c = uint (peer P)" "bsize (rcv c) = uint (peer_size P)" "listen c = asked P"
    using c(2) False by (auto simp: data_entry_def)
  show ?thesis
  proof (cases "is_client P")
    case True
    have f: "flags c AND CONN_GOT_ALL = CONN_GOT_ALL" "\<not> has CONN_LISTEN c" "flags c AND NOT CONN_OPEN = end_flags P K"
      using c(3) True False by (simp_all add: end_flags_def waiting_for_def has_def)
    show ?thesis
      using maybe_reply_open [OF j c(1) h(1,2) f(1,2)] c(2) f(3) False True h(3) a
      by (auto simp: data_entry_def told_def clear_flags_def)
  next
    case server: False
    have f: "flags c AND CONN_GOT_BOTH = CONN_GOT_BOTH" "flags c AND NOT CONN_LISTEN = end_flags P K"
      using c(3) server False by (simp_all add: end_flags_def waiting_for_def)
    show ?thesis
      using maybe_reply_listen [OF j c(1) h(1,2) f(1)] c(2) f(2) False server h(3) a
      by (auto simp: data_entry_def told_def clear_flags_def)
  qed
qed

lemma end_update:
  assumes "at_end P i j K s" "connection t = (connection s)(j := d)" "data_entry P (K - {k}) d" "k \<noteq> Cls"
    "listening t = listening s" "cur_client t = cur_client s"
  shows "at_end P i j (K - {k}) t"
  using assms by (auto simp: at_end_def alone_def find_listen_def)

lemma end_entries:
  assumes "at_end P i j K s"
  shows "0 \<le> i" "i < CONNECTIONS" "0 \<le> j" "j < CONNECTIONS" "i \<noteq> j" "data_entry P K (connection s j)"
    "find_listen (snd_ls P) s = - 1" "cur_client s = applicant P" "Cls \<in> K \<Longrightarrow> icp_entry P (connection s i)"
  using assms by (simp_all add: at_end_def)

lemma end_str:
  assumes ok: "plan_ok P" and s: "at_end P i j K s" and k: "Str \<in> K"
    and m: "request_at (packet s) off (rcv_rs P) (rcv_ls P) (peer_size P)"
  shows "\<exists>t. process_str (peer P) off s = Some (9, t) \<and> at_end P i j (K - {Str}) t \<and>
    out t = out s @ (if Rts \<in> K then [] else [told P j]) \<and> hosts t = hosts s"
proof -
  let ?K = "K - {Str}" and ?c = "connection s j"
  let ?d = "got_str (peer_size P) ?c"
  let ?s = "s\<lparr>connection := (connection s)(j := ?d)\<rparr>"
  note e = end_entries [OF s]
  note c = e(6) [unfolded data_entry_def]
  have look: "find_rcv_sockets (uint (peer P)) (rcv_ls P) (rcv_rs P) s = j" by (rule end_look_ups(1) [OF ok s])
  have "has CONN_SENT_RTS ?c" "\<not> has CONN_CLIENT ?c" using c by (simp_all add: has_def end_flags_def waiting_for_def)
  then have run: "process_str (peer P) off s = map_option (Pair 9) (maybe_reply j ?s)"
    using str_arrives [OF m look] e(3,4) by simp
  have d: "data_entry P ?K (?d\<lparr>flags := end_flags P ?K\<rparr>)" "flags ?d = end_flags P ?K OR waiting_for P"
    using c k by (simp_all add: data_entry_def got_defs end_flags_def ac_simps)
  have j: "?d = connection ?s j" "cur_client ?s = applicant P" using e(8) by simp_all
  obtain t x where t: "maybe_reply j ?s = Some t" "connection t = (connection ?s)(j := x)" "data_entry P ?K x"
    "out t = out ?s @ (if Str \<in> ?K \<or> Rts \<in> ?K then [] else [told P j])"
    "listening t = listening ?s" "cur_client t = cur_client ?s" "hosts t = hosts ?s"
    using end_reply [OF e(3,4) j(1) d j(2)] by blast
  have "at_end P i j ?K t" using end_update [OF s _ t(3)] t(2,5,6) by simp
  then show ?thesis using run t by simp
qed

lemma end_rts:
  assumes ok: "plan_ok P" and s: "at_end P i j K s" and k: "Rts \<in> K"
    and m: "request_at (packet s) off (snd_rs P) (snd_ls P) (peer_link P)"
  shows "\<exists>t. process_rts (peer P) off s = Some (9, t) \<and> at_end P i j (K - {Rts}) t \<and>
    out t = out s @ (if Str \<in> K then [] else [told P j]) \<and> hosts t = hosts s"
proof -
  let ?K = "K - {Rts}" and ?c = "connection s j"
  let ?d = "got_rts (peer_link P) ?c"
  let ?s = "s\<lparr>connection := (connection s)(j := ?d)\<rparr>"
  note e = end_entries [OF s]
  note c = e(6) [unfolded data_entry_def]
  have look: "find_snd_sockets (uint (peer P)) (snd_ls P) (snd_rs P) s = j" by (rule end_look_ups(2) [OF ok s])
  have "has CONN_SENT_STR ?c" using c by (simp add: has_def end_flags_def waiting_for_def)
  then have run: "process_rts (peer P) off s = map_option (Pair 9) (maybe_reply j ?s)"
    using rts_arrives [OF m look] e(3,4,7) ok by (simp add: plan_ok_def)
  have d: "data_entry P ?K (?d\<lparr>flags := end_flags P ?K\<rparr>)" "flags ?d = end_flags P ?K OR waiting_for P"
    using c k by (simp_all add: data_entry_def got_defs end_flags_def ac_simps)
  have j: "?d = connection ?s j" "cur_client ?s = applicant P" using e(8) by simp_all
  obtain t x where t: "maybe_reply j ?s = Some t" "connection t = (connection ?s)(j := x)" "data_entry P ?K x"
    "out t = out ?s @ (if Str \<in> ?K \<or> Rts \<in> ?K then [] else [told P j])"
    "listening t = listening ?s" "cur_client t = cur_client ?s" "hosts t = hosts ?s"
    using end_reply [OF e(3,4) j(1) d j(2)] by blast
  have "at_end P i j ?K t" using end_update [OF s _ t(3)] t(2,5,6) by simp
  then show ?thesis using run t by simp
qed

text \<open>The CLS of the peer is the answer to the one that was sent: the ICP connection is gone, and nothing is said.\<close>

lemma end_cls:
  assumes ok: "plan_ok P" and s: "at_end P i j K s" and k: "Cls \<in> K" and off: "off + 8 \<le> PACKET_CAP"
    and m: "sock (\<lambda>k. packet s (off + k)) = icp_rs P" "sock (\<lambda>k. packet s (off + (4 + k))) = icp_ls P"
  shows "\<exists>t. process_cls (peer P) off s = Some (8, t) \<and> at_end P i j (K - {Cls}) t \<and> out t = out s \<and> hosts t = hosts s"
proof -
  let ?c = "connection s i" and ?h = "uint (peer P)"
  note e = end_entries [OF s] and look = end_look_ups(3-5) [OF ok s k]
  note c = e(9) [OF k, unfolded icp_entry_def]
  let ?d = "if is_client P then set_rcv_size (- 1) ?c else set_snd_size (- 1) ?c"
  let ?t = "s\<lparr>connection := (connection s)(i := destroy_conn ?d)\<rparr>"
  have d: "all_cls ?d" "\<not> has CONN_OPEN ?d" "\<not> has CONN_READ ?d" "\<not> has CONN_WRITE ?d" "\<not> has CONN_CLOSE ?d"
    using c by (auto simp: all_cls_def got_rcv_cls_def got_snd_cls_def sent_rcv_cls_def sent_snd_cls_def setter_defs has_def)
  have "cls_finish (peer P) (icp_rs P) i (s\<lparr>connection := (connection s)(i := ?d)\<rparr>) = Some ?t"
    using d e(1,2) by (simp add: cls_finish_def get_def destroy_def upd_def)
  then have "process_cls (peer P) off s = Some (8, ?t)"
    using off m look c d(1) e(1,2)
    by (cases "is_client P") (simp_all add: process_cls_def args_def Let_def cls_rcv_def cls_snd_def upd_def get_def all_cls_def)
  moreover have "at_end P i j (K - {Cls}) ?t"
    using s by (auto simp: at_end_def alone_def find_listen_def destroy_conn_def data_entry_def end_flags_def)
  ultimately show ?thesis by simp
qed

text \<open>
  Any message of the three that has still to come, at any time. The application is told when the STR and the RTS
  have both come, and by none of the other messages.
\<close>

definition says :: "end_plan \<Rightarrow> int \<Rightarrow> rfc set \<Rightarrow> rfc \<Rightarrow> effect list" where
  "says P j K k = (if k \<noteq> Cls \<and> K \<inter> {Str, Rts} = {k} then [told P j] else [])"

lemma end_takes:
  assumes ok: "plan_ok P" and s: "at_end P i j K s" and k: "k \<in> K" and m: "from_peer P me k (To_imp d)"
    and d: "carried (peer P) d p" "2 \<le> n"
  shows "\<exists>t. process_imp n (s\<lparr>packet := p\<rparr>) = Some t \<and> at_end P i j (K - {k}) t \<and> out t = out s @ says P j K k \<and>
    hosts t = hosts s"
proof -
  let ?s = "s\<lparr>packet := p\<rparr>"
  have s': "at_end P i j K ?s" using s at_end_cong [of s ?s] by (simp add: same_tables_def)
  show ?thesis
  proof (cases k)
    case Cls
    then have c: "control me NCP_CLS (bytes_of (icp_rs P) @ bytes_of (icp_ls P)) (To_imp d)"
      using m by (simp add: from_peer_def)
    note a = sockets_arrive(1,2) [of _ _ "icp_rs P" "icp_ls P" "[]", simplified, OF c d(1)]
    obtain t where t: "process_cls (peer P) 10 ?s = Some (8, t)" "at_end P i j (K - {Cls}) t" "out t = out s" "hosts t = hosts s"
      using end_cls [OF ok s', of 10] k Cls a by auto
    have "process_imp n ?s = Some t"
      by (rule process_control [OF c d]) (simp_all add: ncp_message_def t(1))
    then show ?thesis using t Cls by (simp add: says_def)
  next
    case Str
    then have c: "control me NCP_STR (bytes_of (rcv_rs P) @ bytes_of (rcv_ls P) @ [peer_size P]) (To_imp d)"
      using m by (simp add: from_peer_def)
    have a: "request_at (packet ?s) 10 (rcv_rs P) (rcv_ls P) (peer_size P)" using sockets_arrive(3) [OF c d(1) refl] by simp
    obtain t where t: "process_str (peer P) 10 ?s = Some (9, t)" "at_end P i j (K - {Str}) t"
      "out t = out ?s @ (if Rts \<in> K then [] else [told P j])" "hosts t = hosts ?s"
      using end_str [OF ok s' _ a] k Str by blast
    have "process_imp n ?s = Some t"
      by (rule process_control [OF c d]) (simp_all add: ncp_message_def t(1))
    moreover have "K \<inter> {Str, Rts} = {Str} \<longleftrightarrow> Rts \<notin> K" using k Str by auto
    ultimately show ?thesis using t Str by (simp add: says_def)
  next
    case Rts
    then have c: "control me NCP_RTS (bytes_of (snd_rs P) @ bytes_of (snd_ls P) @ [peer_link P]) (To_imp d)"
      using m by (simp add: from_peer_def)
    have a: "request_at (packet ?s) 10 (snd_rs P) (snd_ls P) (peer_link P)" using sockets_arrive(3) [OF c d(1) refl] by simp
    obtain t where t: "process_rts (peer P) 10 ?s = Some (9, t)" "at_end P i j (K - {Rts}) t"
      "out t = out ?s @ (if Str \<in> K then [] else [told P j])" "hosts t = hosts ?s"
      using end_rts [OF ok s' _ a] k Rts by blast
    have "process_imp n ?s = Some t"
      by (rule process_control [OF c d]) (simp_all add: ncp_message_def t(1))
    moreover have "K \<inter> {Str, Rts} = {Rts} \<longleftrightarrow> Str \<notin> K" using k Rts by auto
    ultimately show ?thesis using t Rts by (simp add: says_def)
  qed
qed

end
