(* ===== verification/Ncp_Network.thy ===== *)
theory Ncp_Network
  imports Ncp_Ends
begin

text \<open>
  Two daemons and the network between them: the whole Initial Connection Protocol, from the request of the client's
  application to the replies that both applications get.
\<close>

section \<open>The two plans\<close>

text \<open>
  A client on host \<open>ha\<close> opens \<open>socket\<close> of host \<open>hb\<close>: the sockets 1002, 1004 and 1005 are those of the client, 128 and
  129 those of the server; links 45 and 46 are the ones the code always takes.
\<close>

definition client_plan :: "u8 \<Rightarrow> u32 \<Rightarrow> u8 \<Rightarrow> u8 \<Rightarrow> client_t \<Rightarrow> end_plan" where
  "client_plan hb socket za zb a = \<lparr>peer = hb, is_client = True, icp_ls = 1002, icp_rs = socket, rcv_ls = 1004, rcv_rs = 129,
     snd_ls = 1005, snd_rs = 128, own_link = 45, own_size = za, peer_size = zb, peer_link = 46, asked = socket, applicant = a\<rparr>"

definition server_plan :: "u8 \<Rightarrow> u32 \<Rightarrow> u8 \<Rightarrow> u8 \<Rightarrow> client_t \<Rightarrow> end_plan" where
  "server_plan ha socket za zb a = \<lparr>peer = ha, is_client = False, icp_ls = socket, icp_rs = 1002, rcv_ls = 128, rcv_rs = 1005,
     snd_ls = 129, snd_rs = 1004, own_link = 46, own_size = zb, peer_size = za, peer_link = 45, asked = socket, applicant = a\<rparr>"

lemma plans_ok: "plan_ok (client_plan hb socket za zb a)" "socket \<noteq> 0 \<Longrightarrow> plan_ok (server_plan ha socket za zb c)"
  by (simp_all add: plan_ok_def client_plan_def server_plan_def)

text \<open>A free entry as \<open>destroy\<close> leaves it, and without data that waits (which \<open>destroy\<close> does not forget).\<close>

definition tidy :: "ncp \<Rightarrow> bool" where
  "tidy s \<longleftrightarrow> (\<forall>k. 0 \<le> k \<and> k < CONNECTIONS \<and> host (connection s k) = - 1 \<longrightarrow>
     destroy_conn (connection s k) = connection s k \<and> all_callback (connection s k) = None)"

lemma tidy_entry:
  assumes "tidy s" "0 \<le> k" "k < CONNECTIONS" "host (connection s k) = - 1"
  shows "rcv (connection s k) = \<lparr>link = - 1, bsize = - 1, lsock = 0, rsock = 0\<rparr>"
    "snd (connection s k) = \<lparr>link = - 1, bsize = - 1, lsock = 0, rsock = 0\<rparr>"
    "rfnm_callback (connection s k) = None" "all_msgs (connection s k) = 0" "all_bits (connection s k) = 0"
    "all_callback (connection s k) = None"
proof -
  have e: "connection s k = destroy_conn (connection s k)" using assms by (simp add: tidy_def)
  show "rcv (connection s k) = \<lparr>link = - 1, bsize = - 1, lsock = 0, rsock = 0\<rparr>"
    "snd (connection s k) = \<lparr>link = - 1, bsize = - 1, lsock = 0, rsock = 0\<rparr>"
    "rfnm_callback (connection s k) = None" "all_msgs (connection s k) = 0" "all_bits (connection s k) = 0"
    by (subst e, simp add: destroy_conn_def)+
  show "all_callback (connection s k) = None" using assms by (simp add: tidy_def)
qed

lemma tidy_upd: "tidy s \<Longrightarrow> connection t = (connection s)(i := d) \<Longrightarrow> host d \<noteq> - 1 \<Longrightarrow> tidy t"
  by (auto simp: tidy_def)

section \<open>The side of the server\<close>

text \<open>Before the RTS.\<close>

definition room_for_two :: "ncp \<Rightarrow> bool" where
  "room_for_two s \<longleftrightarrow> (\<exists>k k'. k \<noteq> k' \<and> 0 \<le> k \<and> k < CONNECTIONS \<and> 0 \<le> k' \<and> k' < CONNECTIONS \<and> free_entry s k \<and> free_entry s k')"

definition server_ready :: "u8 \<Rightarrow> u32 \<Rightarrow> u8 \<Rightarrow> client_t \<Rightarrow> ncp \<Rightarrow> bool" where
  "server_ready ha socket zb a s \<longleftrightarrow> wf_ncp s \<and> tidy s \<and> alone ha {} s \<and> room_for_two s \<and> find_listen socket s \<noteq> - 1 \<and>
     l_size (listening s (find_listen socket s)) = zb \<and> find_listen 129 s = - 1 \<and> cur_client s = a"

text \<open>Between the RTS and the allocation.\<close>

definition server_offered :: "u8 \<Rightarrow> u32 \<Rightarrow> u8 \<Rightarrow> client_t \<Rightarrow> int \<Rightarrow> int \<Rightarrow> ncp \<Rightarrow> bool" where
  "server_offered ha socket zb a i j s \<longleftrightarrow> wf_ncp s \<and> alone ha {i, j} s \<and> 0 \<le> i \<and> i < CONNECTIONS \<and> 0 \<le> j \<and> j < CONNECTIONS \<and>
     i \<noteq> j \<and> icp_conn ha socket 1002 42 (connection s i) \<and> icp_data_conn ha socket 1002 zb (connection s j) \<and>
     rcv (connection s i) = \<lparr>link = - 1, bsize = - 1, lsock = 0, rsock = 0\<rparr> \<and>
     rfnm_callback (connection s i) = None \<and> rfnm_callback (connection s j) = None \<and>
     all_msgs (connection s i) = 0 \<and> all_bits (connection s i) = 0 \<and> all_msgs (connection s j) = 0 \<and> all_bits (connection s j) = 0 \<and>
     all_callback (connection s j) = None \<and> find_listen 129 s = - 1 \<and> cur_client s = a"

lemma server_takes_rts:
  assumes s: "server_ready ha socket zb a s"
    and m: "control hb NCP_RTS (bytes_of 1002 @ bytes_of socket @ [42]) (To_imp d)" "carried ha d p" "2 \<le> n"
  shows "\<exists>t e i j. process_imp n (s\<lparr>packet := p\<rparr>) = Some t \<and> out t = out s @ [e] \<and>
    control ha NCP_STR (bytes_of socket @ bytes_of 1002 @ [32]) e \<and> server_offered ha socket zb a i j t \<and>
    outstanding_rfnm (hosts t ha) = outstanding_rfnm (hosts s ha) + 1"
proof -
  let ?s = "s\<lparr>packet := p\<rparr>"
  note f = s [unfolded server_ready_def room_for_two_def]
  have wf: "wf_ncp ?s" and k: "find_listen socket ?s \<noteq> - 1" using f by (simp_all add: find_listen_def)
  obtain i1 i2 where free: "free_entry ?s i1" "free_entry ?s i2" "i1 \<noteq> i2" "0 \<le> i1" "i1 < CONNECTIONS" "0 \<le> i2" "i2 < CONNECTIONS"
    using f by auto
  have l: "LINK_MIN \<le> 42" "42 \<le> LINK_MAX" by simp_all
  have r: "10 + 9 \<le> PACKET_CAP" "sock (\<lambda>k. packet ?s (10 + k)) = 1002" "sock (\<lambda>k. packet ?s (10 + (4 + k))) = socket" "packet ?s (10 + 8) = 42"
    using sockets_arrive(3) [OF m(1,2) refl] by (simp_all add: request_at_def)
  obtain t e i j where t: "process_rts ha 10 ?s = Some (9, t)" "out t = out ?s @ [e]"
    "control ha NCP_STR (bytes_of socket @ bytes_of 1002 @ [32]) e" "0 \<le> i" "i < CONNECTIONS" "0 \<le> j" "j < CONNECTIONS"
    "free_entry ?s i" "free_entry ?s j" "i \<noteq> j" "icp_conn ha socket 1002 42 (connection t i)"
    "icp_data_conn ha socket 1002 (l_size (listening ?s (find_listen socket ?s))) (connection t j)" "opened_beside ha i j ?s t"
    using rts_for_listener [OF wf k l r free] by blast
  have run: "process_imp n ?s = Some t" by (rule process_control [OF m]) (simp_all add: ncp_message_def t(1))
  have "wf_ncp t" using withinD [OF wf_rel.w_process_imp run] wf by simp
  moreover have "find_listen x t = find_listen x s" for x using t(13) by (simp add: opened_beside_def find_listen_def)
  moreover have "find_listen socket ?s = find_listen socket s" by (simp add: find_listen_def)
  moreover have tidy: "tidy s" using f by simp
  ultimately have "server_offered ha socket zb a i j t"
    using t f tidy_entry [OF tidy t(4,5)] tidy_entry [OF tidy t(6,7)]
    by (simp add: server_offered_def opened_beside_def alone_def same_allocation_def)
  then show ?thesis using run t by (auto simp: opened_beside_def)
qed
lemma allocation_arrives:
  assumes "control me NCP_ALL ([lnk, 0, 1] @ bytes_of bits) (To_imp d)" and "carried source d p"
  shows "allocates (s\<lparr>packet := p\<rparr>) 10 lnk 1 bits"
proof -
  note f = carried_control(7) [OF assms]
  have "word_of_bytes (p (10 + 3)) (p (10 + 4)) (p (10 + 5)) (p (10 + 6)) = bits"
    by (subst f, simp, subst f, simp, subst f, simp, subst f, simp) (simp add: bytes_of_def)
  then show ?thesis using f [of 0] f [of 1] f [of 2] by (simp add: allocates_def)
qed

text \<open>What \<open>k\<close> in \<open>es\<close> is: the message of the plan, in the order in which it is sent.\<close>

definition in_order :: "int \<Rightarrow> int \<Rightarrow> rfc list" where
  "in_order i j = (if i < j then [Cls, Str, Rts] else [Str, Rts, Cls])"

lemma server_takes_all:
  assumes s: "server_offered ha socket zb a i j s" and few: "outstanding_rfnm (hosts s ha) < 1"
    and m: "control hb NCP_ALL ([42, 0, 1] @ bytes_of 1000) (To_imp d)" "carried ha d p" "2 \<le> n"
  shows "\<exists>t number es. process_imp n (s\<lparr>packet := p\<rparr>) = Some t \<and> out t = out s @ number # es \<and>
    icp_datagram ha 42 number \<and> list_all2 (from_peer (client_plan hb socket za zb a') ha) (in_order i j) es \<and>
    at_end (server_plan ha socket za zb a) i j UNIV t \<and> wf_ncp t \<and>
    outstanding_rfnm (hosts t ha) = outstanding_rfnm (hosts s ha) + 4"
proof -
  let ?s = "s\<lparr>packet := p\<rparr>"
  note f = s [unfolded server_offered_def] and al = allocation_arrives [OF m(1,2), of s]
  note c = f [unfolded icp_conn_def icp_data_conn_def alone_def]
  have wf: "wf_ncp ?s" using f by simp
  have u: "uint (42 :: u8) = 42" by simp
  have i: "find_link (uint ha) (uint (42 :: u8)) ?s = i"
    unfolding u find_link_def Let_def using c by (intro scan_eqI) auto
  have j: "find_rcv_sockets (uint ha) 128 (1002 + 3) ?s = j"
    unfolding find_rcv_sockets_def Let_def using c by (intro scan_eqI) auto
  have ij: "i \<noteq> - 1" "j \<noteq> - 1" "icp_conn ha socket 1002 42 (connection ?s i)" "icp_data_conn ha socket 1002 zb (connection ?s j)"
    using f by auto
  have room: "all_msgs (connection ?s i) + uint (1 :: u16) \<le> 2147483647"
    "1 \<le> all_msgs (add_allocation 1 1000 (connection ?s i))" "32 \<le> all_bits (add_allocation 1 1000 (connection ?s i))"
    using f by (simp_all add: add_allocation_def)
  have quiet: "\<forall>k. 0 \<le> k \<and> k < CONNECTIONS \<and> host (connection ?s k) = uint ha \<longrightarrow> rfnm_callback (connection ?s k) = None"
    "outstanding_rfnm (hosts ?s ha) < 1"
    using f few by (auto simp: alone_def)
  obtain t number cls str rts where t: "process_all ha 10 ?s = Some (7, t)"
    "out t = out ?s @ (if i < j then [number, cls, str, rts] else [number, str, rts, cls])"
    "icp_datagram ha 42 number" "control ha NCP_CLS (bytes_of socket @ bytes_of 1002) cls"
    "control ha NCP_STR (bytes_of 129 @ bytes_of (1002 + 2) @ [zb]) str"
    "control ha NCP_RTS (bytes_of 128 @ bytes_of (1002 + 3) @ [46]) rts"
    "allocated_beside ha i j ?s t" "icp_offered_conn ha socket 1002 zb (connection t j)"
    "\<forall>k. k \<noteq> i \<and> k \<noteq> j \<longrightarrow> connection t k = connection ?s k"
    using icp_allocation [OF wf al i ij(1,3) j ij(2,4) room quiet] by blast
  have run: "process_imp n ?s = Some t" by (rule process_control [OF m]) (simp_all add: ncp_message_def t(1) bytes_of_def)
  let ?es = "if i < j then [cls, str, rts] else [str, rts, cls]"
  have "list_all2 (from_peer (client_plan hb socket za zb a') ha) (in_order i j) ?es"
    using t(4-6) by (simp add: in_order_def from_peer_def client_plan_def)
  moreover have "at_end (server_plan ha socket za zb a) i j UNIV t"
    using f t(7-9) by (simp add: at_end_def server_plan_def alone_def icp_entry_def data_entry_def end_flags_def waiting_for_def
        allocated_beside_def icp_offered_conn_def icp_conn_def find_listen_def has_def same_allocation_def)
  moreover have "wf_ncp t" using withinD [OF wf_rel.w_process_imp run] wf by simp
  ultimately show ?thesis
    using run t(2,3,7) by (intro exI [of _ t] exI [of _ number] exI [of _ ?es]) (simp add: allocated_beside_def)
qed

section \<open>The side of the client\<close>

text \<open>Before the request; and with the RTS sent, before and after the STR of the server.\<close>

definition client_ready :: "u8 \<Rightarrow> ncp \<Rightarrow> bool" where
  "client_ready hb s \<longleftrightarrow> wf_ncp s \<and> tidy s \<and> alone hb {} s \<and> room_for_two s \<and> find_listen 1005 s = - 1 \<and>
     ho_flags (hosts s hb) AND HOST_ALIVE \<noteq> 0"

definition client_asked :: "u8 \<Rightarrow> u32 \<Rightarrow> u8 \<Rightarrow> client_t \<Rightarrow> int \<Rightarrow> ncp \<Rightarrow> bool" where
  "client_asked hb socket za a i s \<longleftrightarrow> wf_ncp s \<and> tidy s \<and> alone hb {i} s \<and> 0 \<le> i \<and> i < CONNECTIONS \<and>
     (\<exists>k. 0 \<le> k \<and> k < CONNECTIONS \<and> free_entry s k) \<and> find_listen 1005 s = - 1 \<and> cur_client s = a \<and>
     host (connection s i) = uint hb \<and> link (rcv (connection s i)) = 42 \<and> lsock (rcv (connection s i)) = 1002 \<and>
     rsock (rcv (connection s i)) = socket \<and> flags (connection s i) = CONN_CLIENT OR CONN_OPEN OR CONN_SENT_RTS \<and>
     data_size (connection s i) = uint za \<and> listen (connection s i) = socket \<and> rfnm_callback (connection s i) = None \<and>
     snd (connection s i) = \<lparr>link = - 1, bsize = - 1, lsock = 0, rsock = 0\<rparr>"

definition client_confirmed :: "u8 \<Rightarrow> u32 \<Rightarrow> u8 \<Rightarrow> client_t \<Rightarrow> int \<Rightarrow> ncp \<Rightarrow> bool" where
  "client_confirmed hb socket za a i s \<longleftrightarrow> wf_ncp s \<and> tidy s \<and> alone hb {i} s \<and> 0 \<le> i \<and> i < CONNECTIONS \<and>
     (\<exists>k. 0 \<le> k \<and> k < CONNECTIONS \<and> free_entry s k) \<and> find_listen 1005 s = - 1 \<and> cur_client s = a \<and>
     icp_client_conn hb socket za (connection s i) \<and> rfnm_callback (connection s i) = None \<and>
     snd (connection s i) = \<lparr>link = - 1, bsize = - 1, lsock = 0, rsock = 0\<rparr>"

lemma client_asks:
  assumes s: "client_ready hb s"
  shows "\<exists>t e i. application a (WIRE_OPEN # hb # bytes_of socket @ [za]) s = Some t \<and> out t = out s @ [e] \<and>
    control hb NCP_RTS (bytes_of 1002 @ bytes_of socket @ [42]) e \<and> client_asked hb socket za a i t \<and>
    outstanding_rfnm (hosts t hb) = outstanding_rfnm (hosts s hb) + 1"
proof -
  note f = s [unfolded client_ready_def room_for_two_def]
  obtain k k' where free: "0 \<le> k" "k < CONNECTIONS" "free_entry s k" "0 \<le> k'" "k' < CONNECTIONS" "free_entry s k'" "k \<noteq> k'"
    using f by auto
  have alive: "ho_flags (hosts s hb) AND HOST_ALIVE \<noteq> 0" and tidy: "tidy s" using f by simp_all
  have unused: "find_rcv_sockets (uint hb) 1002 socket s = - 1"
    using f by (auto simp: find_rcv_sockets_def Let_def scan_eq_minus1 alone_def)
  obtain t i e where t: "application a (WIRE_OPEN # hb # bytes_of socket @ [za]) s = Some t" "out t = out s @ [e]"
    "control hb NCP_RTS (bytes_of 1002 @ bytes_of socket @ [42]) e" "0 \<le> i" "i < CONNECTIONS" "free_entry s i"
    "connection t = (connection s)(i := asking (time_tick s) (time_tick t) a hb socket za (connection s i))"
    "listening t = listening s" "cur_client t = a"
    "hosts t = (hosts s)(hb := (hosts s hb)\<lparr>outstanding_rfnm := outstanding_rfnm (hosts s hb) + 1\<rparr>)"
    using open_asks [OF alive free(1-3) unused] by blast
  have wf: "wf_ncp t" using withinD [OF wf_rel.w_application t(1)] f by simp
  have left: "\<exists>k. 0 \<le> k \<and> k < CONNECTIONS \<and> free_entry t k"
  proof (cases "k = i")
    case True
    then show ?thesis using free t(7) by (intro exI [of _ k']) simp
  next
    case False
    then show ?thesis using free t(7) by (intro exI [of _ k]) simp
  qed
  have "client_asked hb socket za a i t"
    unfolding client_asked_def using wf left t f tidy_entry [OF tidy t(4,5)] tidy_upd [OF tidy t(7)] u8_not_minus1 [of hb]
    by (simp add: alone_def find_listen_def asking_fields)
  then show ?thesis using t by auto
qed

lemma client_takes_str:
  assumes s: "client_asked hb socket za a i s"
    and m: "control ha NCP_STR (bytes_of socket @ bytes_of 1002 @ [32]) (To_imp d)" "carried hb d p" "2 \<le> n"
  shows "\<exists>t e. process_imp n (s\<lparr>packet := p\<rparr>) = Some t \<and> out t = out s @ [e] \<and>
    control hb NCP_ALL ([42, 0, 1] @ bytes_of 1000) e \<and> client_confirmed hb socket za a i t \<and>
    outstanding_rfnm (hosts t hb) = outstanding_rfnm (hosts s hb) + 1"
proof -
  let ?s = "s\<lparr>packet := p\<rparr>"
  note f = s [unfolded client_asked_def]
  have look: "find_rcv_sockets (uint hb) 1002 socket ?s = i"
    unfolding find_rcv_sockets_def Let_def using f by (intro scan_eqI) (auto simp: alone_def)
  have c: "0 \<le> i" "i < CONNECTIONS" "host (connection ?s i) = uint hb" "link (rcv (connection ?s i)) = 42"
    "has CONN_SENT_RTS (connection ?s i)" "has CONN_CLIENT (connection ?s i)"
    using f by (simp_all add: has_def)
  have str: "request_at (packet ?s) 10 socket 1002 32" using sockets_arrive(3) [OF m(1,2) refl] by simp
  obtain t e where t: "process_str hb 10 ?s = Some (9, t)" "out t = out ?s @ [e]"
    "control hb NCP_ALL ([42, 0, 1] @ bytes_of 1000) e" "connection t = (connection ?s)(i := got_str 32 (connection ?s i))"
    "listening t = listening ?s" "cur_client t = cur_client ?s"
    "hosts t = (hosts ?s)(hb := (hosts ?s hb)\<lparr>outstanding_rfnm := outstanding_rfnm (hosts ?s hb) + 1\<rparr>)"
    using str_confirms [OF look c str] by blast
  have run: "process_imp n ?s = Some t" by (rule process_control [OF m]) (simp_all add: ncp_message_def t(1))
  have wf: "wf_ncp t" using withinD [OF wf_rel.w_process_imp run] f by simp
  obtain k where k: "0 \<le> k" "k < CONNECTIONS" "free_entry s k" using f by auto
  have "k \<noteq> i" using k(3) f by auto
  then have left: "\<exists>k. 0 \<le> k \<and> k < CONNECTIONS \<and> free_entry t k"
    using k t(4) by (intro exI [of _ k]) simp
  have "icp_client_conn hb socket za (connection t i)"
    using f t(4) by (cases "rcv (connection s i)") (simp add: icp_client_conn_def got_defs)
  moreover have tidy: "tidy t"
    using tidy_upd [of s t i "got_str 32 (connection s i)"] t(4) f u8_not_minus1 [of hb] by (simp add: got_defs)
  ultimately have "client_confirmed hb socket za a i t"
    unfolding client_confirmed_def using left wf t(4-6) f tidy by (simp add: alone_def find_listen_def got_defs)
  then show ?thesis using run t by auto
qed

lemma client_takes_number:
  assumes s: "client_confirmed hb socket za a i s" and few: "outstanding_rfnm (hosts s hb) < 2"
    and m: "icp_datagram ha 42 (To_imp d)" "carried hb d p" "2 \<le> n"
  shows "\<exists>t j es. process_imp n (s\<lparr>packet := p\<rparr>) = Some t \<and> out t = out s @ es \<and>
    list_all2 (from_peer (server_plan ha socket za zb a') hb) (in_order i j) es \<and>
    at_end (client_plan hb socket za zb a) i j UNIV t \<and> wf_ncp t \<and>
    outstanding_rfnm (hosts t hb) = outstanding_rfnm (hosts s hb) + 3"
proof -
  let ?s = "s\<lparr>packet := p\<rparr>"
  let ?l = "[0, ha, 42, 0, 0, 32, 0, 1, 0] @ bytes_of (128 :: u32)"
  note f = s [unfolded client_confirmed_def]
  have d: "take 13 (drop 12 d) = ?l" using m(1) by (simp add: icp_datagram_def)
  then have "length (take 13 (drop 12 d)) = length ?l" by simp
  then have len: "25 \<le> length d" by simp
  have n: "p k = ?l ! k" if "k < 13" "k \<noteq> 1" for k
  proof -
    have "p k = d ! (12 + k)" using m(2) that len by (simp add: carried_def)
    also have "\<dots> = take 13 (drop 12 d) ! k" using that len by simp
    finally show ?thesis by (simp only: d)
  qed
  have p: "packet ?s 1 = hb" "packet ?s 2 = 42" "packet ?s 5 = 32" "p 0 = 0"
    using n [of 0] n [of 2] n [of 5] m(2) by (simp_all add: carried_def)
  have sk: "sock (\<lambda>k. packet ?s (9 + k)) = 128"
    by (rule sock_bytes_of) (simp add: n nth_append del: One_nat_def)
  have wf: "wf_ncp ?s" and c: "icp_client_conn hb socket za (connection ?s i)" "i \<noteq> - 1" using f by auto
  note e = f [unfolded alone_def icp_client_conn_def]
  have i: "find_link (uint hb) 42 ?s = i"
    unfolding find_link_def Let_def using e by (intro scan_eqI) auto
  have other: "host (connection ?s k) = uint hb \<Longrightarrow> k = i" if "0 \<le> k" "k < CONNECTIONS" for k
    using e that by auto
  have "lsock (rcv (connection ?s i)) = 1002" "lsock (snd (connection ?s i)) = 0" using e by simp_all
  then have new: "find_rcv_sockets (uint hb) 1004 (128 + 1) ?s = - 1" "find_snd_sockets (uint hb) 1005 128 ?s = - 1"
    unfolding find_rcv_sockets_def find_snd_sockets_def Let_def scan_eq_minus1 using other by fastforce+
  obtain k where k: "0 \<le> k" "k < CONNECTIONS" "free_entry ?s k" using f by auto
  have quiet: "\<forall>k. 0 \<le> k \<and> k < CONNECTIONS \<and> host (connection ?s k) = uint hb \<longrightarrow> rfnm_callback (connection ?s k) = None"
    "outstanding_rfnm (hosts ?s hb) < 2"
    using f few by (auto simp: alone_def)
  obtain t j cls str rts where t: "process_regular ?s = Some t" "i \<noteq> j" "free_entry ?s j"
    "out t = out ?s @ (if i < j then [cls, str, rts] else [str, rts, cls])"
    "control hb NCP_CLS (bytes_of 1002 @ bytes_of socket) cls"
    "control hb NCP_STR (bytes_of 1005 @ bytes_of 128 @ [za]) str"
    "control hb NCP_RTS (bytes_of 1004 @ bytes_of (128 + 1) @ [45]) rts"
    "0 \<le> j" "j < CONNECTIONS" "numbered_beside hb i j ?s t" "icp_asked_conn hb socket 128 za (connection t j)"
    "\<forall>k. k \<noteq> i \<and> k \<noteq> j \<longrightarrow> connection t k = connection ?s k"
    using icp_number [OF wf i c(2,1) p(1-3) sk new k quiet] by blast
  have "tidy s" "0 \<le> j" "j < CONNECTIONS" "host (connection s j) = - 1" using f t(3,8,9) by simp_all
  note j = tidy_entry [OF this]
  have run: "process_imp n ?s = Some t" using t(1) p(4) m(3) by (simp add: process_imp_def Let_def)
  let ?es = "if i < j then [cls, str, rts] else [str, rts, cls]"
  have "list_all2 (from_peer (server_plan ha socket za zb a') hb) (in_order i j) ?es"
    using t(5-7) by (simp add: in_order_def from_peer_def server_plan_def)
  moreover have "at_end (client_plan hb socket za zb a) i j UNIV t"
    using f t(2,8-12) j by (simp add: at_end_def client_plan_def alone_def icp_entry_def data_entry_def end_flags_def waiting_for_def
        numbered_beside_def icp_asked_conn_def icp_client_conn_def find_listen_def has_def same_allocation_def)
  moreover have "wf_ncp t" using withinD [OF wf_rel.w_process_imp run] wf by simp
  ultimately show ?thesis
    using run t(4,10) by (intro exI [of _ t] exI [of _ j] exI [of _ ?es]) (simp add: numbered_beside_def)
qed

end
