(* ===== verification/Ncp_Open.thy ===== *)
theory Ncp_Open
  imports Ncp_Network
begin

text \<open>
  The two daemons of \<open>Ncp_Network\<close> as one system: every order in which the network delivers what they have sent to each
  other. A delivery gives the receiver the message and its sender the RFNM.
\<close>

section \<open>Two hosts and the messages under way\<close>

text \<open>A RFNM for a message to host \<open>h\<close>.\<close>

definition rfnm_packet :: "u8 \<Rightarrow> mem" where
  "rfnm_packet h = (\<lambda>_. 0)(0 := 5, 1 := h)"

text \<open>The regular messages to host \<open>h\<close> that a step has sent.\<close>

definition imp_bytes :: "effect \<Rightarrow> u8 list" where
  "imp_bytes e = (case e of To_imp d \<Rightarrow> d | To_app a bs \<Rightarrow> [])"

definition regular :: "u8 \<Rightarrow> effect \<Rightarrow> bool" where
  "regular h e \<longleftrightarrow> is_to_imp e \<and> 22 \<le> length (imp_bytes e) \<and> imp_bytes e ! 12 = 0 \<and> imp_bytes e ! 13 = h"

definition mail :: "u8 \<Rightarrow> ncp \<Rightarrow> ncp \<Rightarrow> u8 list list" where
  "mail h s t = map imp_bytes (filter (regular h) (drop (length (out s)) (out t)))"

record net =
  host_a :: ncp
  host_b :: ncp
  to_a :: "u8 list list"
  to_b :: "u8 list list"

definition swap :: "net \<Rightarrow> net" where
  "swap N = \<lparr>host_a = host_b N, host_b = host_a N, to_a = to_b N, to_b = to_a N\<rparr>"

text \<open>The number of words behind the UDP header is what \<open>imp_receive_message\<close> returns.\<close>

definition words_of :: "u8 list \<Rightarrow> int" where
  "words_of d = (int (length d) - 12) div 2"

definition deliver_b :: "u8 \<Rightarrow> u8 \<Rightarrow> net \<Rightarrow> net option" where
  "deliver_b ha hb N = (case to_b N of [] \<Rightarrow> None
   | d # ds \<Rightarrow> do { b \<leftarrow> process_imp (words_of d) ((host_b N)\<lparr>packet := carry ha d\<rparr>);
       a \<leftarrow> process_imp 2 ((host_a N)\<lparr>packet := rfnm_packet hb\<rparr>);
       Some \<lparr>host_a = a, host_b = b, to_a = to_a N @ mail ha (host_b N) b, to_b = ds @ mail hb (host_a N) a\<rparr> })"

definition deliver_a :: "u8 \<Rightarrow> u8 \<Rightarrow> net \<Rightarrow> net option" where
  "deliver_a ha hb N = map_option swap (deliver_b hb ha (swap N))"

text \<open>\<open>n\<close> messages have been delivered.\<close>

inductive net_run :: "u8 \<Rightarrow> u8 \<Rightarrow> nat \<Rightarrow> net \<Rightarrow> net \<Rightarrow> bool" for ha hb where
  none: "net_run ha hb 0 N N"
| at_b: "net_run ha hb n N M \<Longrightarrow> deliver_b ha hb M = Some L \<Longrightarrow> net_run ha hb (Suc n) N L"
| at_a: "net_run ha hb n N M \<Longrightarrow> deliver_a ha hb M = Some L \<Longrightarrow> net_run ha hb (Suc n) N L"

section \<open>What a delivery does\<close>

lemma mail_of: "out t = out s @ es \<Longrightarrow> mail h s t = map imp_bytes (filter (regular h) es)"
  by (simp add: mail_def)

lemma regular_front:
  assumes "take n (drop 12 d) = 0 # h # l" "10 \<le> n" "length l = n - 2"
  shows "regular h (To_imp d)"
proof -
  have "length (take n (drop 12 d)) = n" using assms by simp
  then have len: "12 + n \<le> length d" using assms(2) by simp
  have "take n (drop 12 d) ! 0 = d ! 12" "take n (drop 12 d) ! 1 = d ! 13" using len assms(2) by simp_all
  then show ?thesis using assms(1,2) len by (simp add: regular_def imp_bytes_def)
qed

lemma messages_regular:
  "control h ty ps e \<Longrightarrow> regular h e" "icp_datagram h lnk e \<Longrightarrow> regular h e" "from_peer P h k e \<Longrightarrow> regular h e"
proof -
  show c: "control h ty ps e \<Longrightarrow> regular h e" for ty ps
    by (auto simp: control_def intro!: regular_front [where n = "10 + length ps"])
  show "icp_datagram h lnk e \<Longrightarrow> regular h e"
    by (auto simp: icp_datagram_def intro!: regular_front [where n = 13])
  show "from_peer P h k e \<Longrightarrow> regular h e" using c by (auto simp: from_peer_def split: rfc.splits)
qed

lemma regular_bytes: "regular h e \<Longrightarrow> To_imp (imp_bytes e) = e"
  by (cases e) (simp_all add: regular_def imp_bytes_def)

lemma regular_words: "regular h (To_imp d) \<Longrightarrow> 2 \<le> words_of d"
  by (auto simp: regular_def imp_bytes_def words_of_def)

text \<open>A RFNM on which nothing waits is only counted.\<close>

definition counted :: "u8 \<Rightarrow> ncp \<Rightarrow> ncp" where
  "counted h s = upd_host h (\<lambda>x. x\<lparr>outstanding_rfnm := outstanding_rfnm x - 1\<rparr>) (s\<lparr>packet := rfnm_packet h\<rparr>)"

lemma rfnm_counted:
  assumes "\<And>k. 0 \<le> k \<Longrightarrow> k < CONNECTIONS \<Longrightarrow> host (connection s k) = uint h \<Longrightarrow> rfnm_callback (connection s k) = None"
  shows "process_imp 2 (s\<lparr>packet := rfnm_packet h\<rparr>) = Some (counted h s)"
proof -
  have "idle (uint h) [0..CONNECTIONS - 1] (counted h s)" using assms by (simp add: idle_def counted_def upd_host_def)
  then have "check_rfnm (uint h) (counted h s) = Some (counted h s)" unfolding check_rfnm_def by (rule loop_idle)
  then show ?thesis by (simp add: process_imp_def process_rfnm_def rfnm_packet_def counted_def)
qed

lemma counted_fields [simp]:
  "connection (counted h s) = connection s" "listening (counted h s) = listening s" "cur_client (counted h s) = cur_client s"
  "out (counted h s) = out s" "outstanding_rfnm (hosts (counted h s) h) = outstanding_rfnm (hosts s h) - 1"
  "wf_ncp (counted h s) = wf_ncp s"
  by (simp_all add: counted_def upd_host_def)

lemma deliver_b_eq:
  assumes "to_b N = d # ds" "process_imp (words_of d) ((host_b N)\<lparr>packet := carry ha d\<rparr>) = Some b"
    and "\<And>k. 0 \<le> k \<Longrightarrow> k < CONNECTIONS \<Longrightarrow> host (connection (host_a N) k) = uint hb \<Longrightarrow> rfnm_callback (connection (host_a N) k) = None"
  shows "deliver_b ha hb N = Some \<lparr>host_a = counted hb (host_a N), host_b = b, to_a = to_a N @ mail ha (host_b N) b, to_b = ds\<rparr>"
  using assms by (simp add: deliver_b_def rfnm_counted mail_def)

section \<open>The last three messages of both sides\<close>

text \<open>What an application has been told when \<open>K\<close> has still to come, after what was said before.\<close>

definition heard :: "end_plan \<Rightarrow> int \<Rightarrow> rfc set \<Rightarrow> effect list" where
  "heard P j K = (if Str \<in> K \<or> Rts \<in> K then [] else [told P j])"

definition replies :: "ncp \<Rightarrow> effect list" where
  "replies s = filter (\<lambda>e. \<not> is_to_imp e) (out s)"

text \<open>One side: the plan, its entries, and the messages to it that are under way.\<close>

definition end_of :: "u8 \<Rightarrow> end_plan \<Rightarrow> int \<Rightarrow> int \<Rightarrow> effect list \<Rightarrow> rfc list \<Rightarrow> ncp \<Rightarrow> u8 list list \<Rightarrow> bool" where
  "end_of me P i j before ks s q \<longleftrightarrow> at_end P i j (set ks) s \<and> wf_ncp s \<and> distinct ks \<and>
     list_all2 (\<lambda>k d. from_peer P me k (To_imp d)) ks q \<and> replies s = before @ heard P j (set ks)"

lemma end_quiet:
  assumes "at_end P i j K s" "0 \<le> k" "k < CONNECTIONS" "host (connection s k) = uint (peer P)"
  shows "rfnm_callback (connection s k) = None"
proof -
  have "k = i \<or> k = j" using assms by (auto simp: at_end_def alone_def)
  moreover have "rfnm_callback (connection s j) = None" using end_entries(6) [OF assms(1)] by (simp add: data_entry_def)
  moreover have "rfnm_callback (connection s i) = None" if "host (connection s i) = uint (peer P)"
    using assms(1) that u8_not_minus1 [of "peer P"] by (cases "Cls \<in> K") (simp_all add: at_end_def icp_entry_def)
  ultimately show ?thesis using assms(4) by auto
qed

lemma end_counted: "end_of me P i j before ks (counted h s) q = end_of me P i j before ks s q"
  using at_end_cong [of s "counted h s"] by (simp add: end_of_def same_tables_def replies_def)

lemma end_delivery:
  assumes ok: "plan_ok P" and s: "end_of me P i j before (k # ks) s (d # ds)"
  shows "\<exists>t. process_imp (words_of d) (s\<lparr>packet := carry (peer P) d\<rparr>) = Some t \<and> end_of me P i j before ks t ds \<and>
    mail h s t = [] \<and> hosts t = hosts s"
proof -
  note f = s [unfolded end_of_def list_all2_Cons set_simps]
  have a: "at_end P i j (insert k (set ks)) s" and m: "from_peer P me k (To_imp d)" using f by auto
  obtain t where t: "process_imp (words_of d) (s\<lparr>packet := carry (peer P) d\<rparr>) = Some t"
    "at_end P i j (insert k (set ks) - {k}) t" "out t = out s @ says P j (insert k (set ks)) k" "hosts t = hosts s"
    using end_takes [OF ok a _ m carried_carry regular_words [OF messages_regular(3) [OF m]]] by blast
  have K: "insert k (set ks) - {k} = set ks" using f by auto
  have "heard P j (insert k (set ks)) @ says P j (insert k (set ks)) k = heard P j (set ks)"
    using f by (cases k) (auto simp: heard_def says_def)
  moreover have "filter (\<lambda>e. \<not> is_to_imp e) (says P j K k) = says P j K k" "filter (regular h) (says P j K k) = []" for K
    by (simp_all add: says_def told_def regular_def)
  moreover have "wf_ncp t" using withinD [OF wf_rel.w_process_imp t(1)] f by simp
  ultimately show ?thesis using t f K by (simp add: end_of_def replies_def mail_of)
qed

text \<open>Both sides; each has sent what is under way to the other, and waits for as many RFNMs.\<close>

definition ends :: "end_plan \<Rightarrow> int \<Rightarrow> int \<Rightarrow> effect list \<Rightarrow> rfc list \<Rightarrow> end_plan \<Rightarrow> int \<Rightarrow> int \<Rightarrow> effect list \<Rightarrow> rfc list \<Rightarrow> net \<Rightarrow> bool" where
  "ends P i j before ks P' i' j' before' ks' N \<longleftrightarrow> end_of (peer P') P i j before ks (host_a N) (to_a N) \<and>
     end_of (peer P) P' i' j' before' ks' (host_b N) (to_b N) \<and>
     outstanding_rfnm (hosts (host_a N) (peer P)) = int (length ks') \<and> outstanding_rfnm (hosts (host_b N) (peer P')) = int (length ks)"

lemma ends_swap: "ends P i j before ks P' i' j' before' ks' (swap N) = ends P' i' j' before' ks' P i j before ks N"
  by (auto simp: ends_def swap_def)

lemma ends_deliver_b:
  assumes ok: "plan_ok P'" and s: "ends P i j before ks P' i' j' before' (k # ks') N"
  shows "\<exists>M. deliver_b (peer P') (peer P) N = Some M \<and> ends P i j before ks P' i' j' before' ks' M"
proof -
  obtain d ds where d: "to_b N = d # ds" using s by (auto simp: ends_def end_of_def list_all2_Cons1)
  obtain b where b: "process_imp (words_of d) ((host_b N)\<lparr>packet := carry (peer P') d\<rparr>) = Some b"
    "end_of (peer P) P' i' j' before' ks' b ds" "mail (peer P') (host_b N) b = []" "hosts b = hosts (host_b N)"
    using end_delivery [OF ok, of "peer P" i' j' before' k ks' "host_b N" d ds "peer P'"] s d by (auto simp: ends_def)
  have a: "at_end P i j (set ks) (host_a N)" using s by (simp add: ends_def end_of_def)
  show ?thesis
    using deliver_b_eq [OF d b(1), of "peer P"] end_quiet [OF a] s b(2-4)
    by (simp add: ends_def end_counted)
qed

lemma ends_deliver_a:
  assumes ok: "plan_ok P" and s: "ends P i j before (k # ks) P' i' j' before' ks' N"
  shows "\<exists>M. deliver_a (peer P') (peer P) N = Some M \<and> ends P i j before ks P' i' j' before' ks' M"
proof -
  have "ends P' i' j' before' ks' P i j before (k # ks) (swap N)" using s by (simp add: ends_swap)
  then obtain M where "deliver_b (peer P) (peer P') (swap N) = Some M" "ends P' i' j' before' ks' P i j before ks M"
    using ends_deliver_b [OF ok] by blast
  then show ?thesis by (intro exI [of _ "swap M"]) (simp add: deliver_a_def ends_swap)
qed

section \<open>The phases before\<close>

record icp_case =
  c_host :: u8
  s_host :: u8
  socket_no :: u32
  c_size :: u8
  s_size :: u8
  c_app :: client_t
  s_app :: client_t
  c_before :: "effect list"
  s_before :: "effect list"

definition c_plan :: "icp_case \<Rightarrow> end_plan" where
  "c_plan X = client_plan (s_host X) (socket_no X) (c_size X) (s_size X) (c_app X)"

definition s_plan :: "icp_case \<Rightarrow> end_plan" where
  "s_plan X = server_plan (c_host X) (socket_no X) (c_size X) (s_size X) (s_app X)"

lemma plan_peers [simp]: "peer (c_plan X) = s_host X" "peer (s_plan X) = c_host X"
  by (simp_all add: c_plan_def s_plan_def client_plan_def server_plan_def)

text \<open>The messages that have not been answered, and the applications, which have been told nothing yet.\<close>

definition so_far :: "icp_case \<Rightarrow> int \<Rightarrow> int \<Rightarrow> net \<Rightarrow> bool" where
  "so_far X x y N \<longleftrightarrow> outstanding_rfnm (hosts (host_a N) (s_host X)) = x \<and> outstanding_rfnm (hosts (host_b N) (c_host X)) = y \<and>
     replies (host_a N) = c_before X \<and> replies (host_b N) = s_before X"

abbreviation (input) asked_in :: "icp_case \<Rightarrow> int \<Rightarrow> ncp \<Rightarrow> bool" where
  "asked_in X \<equiv> client_asked (s_host X) (socket_no X) (c_size X) (c_app X)"

abbreviation (input) confirmed_in :: "icp_case \<Rightarrow> int \<Rightarrow> ncp \<Rightarrow> bool" where
  "confirmed_in X \<equiv> client_confirmed (s_host X) (socket_no X) (c_size X) (c_app X)"

abbreviation (input) ready_in :: "icp_case \<Rightarrow> ncp \<Rightarrow> bool" where
  "ready_in X \<equiv> server_ready (c_host X) (socket_no X) (s_size X) (s_app X)"

abbreviation (input) offered_in :: "icp_case \<Rightarrow> int \<Rightarrow> int \<Rightarrow> ncp \<Rightarrow> bool" where
  "offered_in X \<equiv> server_offered (c_host X) (socket_no X) (s_size X) (s_app X)"

definition rts_under_way :: "icp_case \<Rightarrow> net \<Rightarrow> bool" where
  "rts_under_way X N \<longleftrightarrow> (\<exists>i d. to_a N = [] \<and> to_b N = [d] \<and>
     control (s_host X) NCP_RTS (bytes_of 1002 @ bytes_of (socket_no X) @ [42]) (To_imp d) \<and>
     asked_in X i (host_a N) \<and> ready_in X (host_b N) \<and> so_far X 1 0 N)"

definition str_under_way :: "icp_case \<Rightarrow> net \<Rightarrow> bool" where
  "str_under_way X N \<longleftrightarrow> (\<exists>i i' j' d. to_a N = [d] \<and> to_b N = [] \<and>
     control (c_host X) NCP_STR (bytes_of (socket_no X) @ bytes_of 1002 @ [32]) (To_imp d) \<and>
     asked_in X i (host_a N) \<and> offered_in X i' j' (host_b N) \<and> so_far X 0 1 N)"

definition all_under_way :: "icp_case \<Rightarrow> net \<Rightarrow> bool" where
  "all_under_way X N \<longleftrightarrow> (\<exists>i i' j' d. to_a N = [] \<and> to_b N = [d] \<and>
     control (s_host X) NCP_ALL ([42, 0, 1] @ bytes_of 1000) (To_imp d) \<and>
     confirmed_in X i (host_a N) \<and> offered_in X i' j' (host_b N) \<and> so_far X 1 0 N)"

definition number_under_way :: "icp_case \<Rightarrow> net \<Rightarrow> bool" where
  "number_under_way X N \<longleftrightarrow> (\<exists>i i' j' d ds. to_a N = d # ds \<and> to_b N = [] \<and> icp_datagram (c_host X) 42 (To_imp d) \<and>
     list_all2 (\<lambda>k d. from_peer (c_plan X) (c_host X) k (To_imp d)) (in_order i' j') ds \<and>
     confirmed_in X i (host_a N) \<and> at_end (s_plan X) i' j' UNIV (host_b N) \<and> wf_ncp (host_b N) \<and> so_far X 0 4 N)"

lemma counted_phases:
  "client_asked hb k z a i (counted h s) = client_asked hb k z a i s"
  "client_confirmed hb k z a i (counted h s) = client_confirmed hb k z a i s"
  "server_offered ha k z a i j (counted h s) = server_offered ha k z a i j s"
  "at_end P i j K (counted h s) = at_end P i j K s"
  "replies (counted h s) = replies s"
  by (simp_all add: client_asked_def client_confirmed_def server_offered_def at_end_def replies_def alone_def find_listen_def tidy_def)

lemma phase_quiet:
  assumes "0 \<le> k" "k < CONNECTIONS" "host (connection s k) = uint h"
  shows "client_asked h l z a i s \<Longrightarrow> rfnm_callback (connection s k) = None"
    "client_confirmed h l z a i s \<Longrightarrow> rfnm_callback (connection s k) = None"
    "server_ready h l z a s \<Longrightarrow> rfnm_callback (connection s k) = None"
    "server_offered h l z a i j s \<Longrightarrow> rfnm_callback (connection s k) = None"
  using assms by (auto simp: client_asked_def client_confirmed_def server_ready_def server_offered_def alone_def)

lemma deliver_a_eq:
  assumes "to_a N = d # ds" "process_imp (words_of d) ((host_a N)\<lparr>packet := carry hb d\<rparr>) = Some a"
    and "\<And>k. 0 \<le> k \<Longrightarrow> k < CONNECTIONS \<Longrightarrow> host (connection (host_b N) k) = uint ha \<Longrightarrow> rfnm_callback (connection (host_b N) k) = None"
  shows "deliver_a ha hb N = Some \<lparr>host_a = a, host_b = counted ha (host_b N), to_a = ds, to_b = to_b N @ mail hb (host_a N) a\<rparr>"
  using deliver_b_eq [of "swap N" d ds hb a ha] assms by (simp add: deliver_a_def swap_def)

lemma deliver_a_fails:
  "to_a N = d # ds \<Longrightarrow> process_imp (words_of d) ((host_a N)\<lparr>packet := carry hb d\<rparr>) = None \<Longrightarrow> deliver_a ha hb N = None"
  by (simp add: deliver_a_def deliver_b_def swap_def)

lemma sent_message:
  assumes "out t = out s @ [e]" "regular h e"
  shows "mail h s t = [imp_bytes e]" "To_imp (imp_bytes e) = e" "replies t = replies s"
  using assms regular_bytes [of h e] by (simp_all add: mail_of replies_def) (simp add: regular_def)

lemma rts_step:
  assumes "rts_under_way X N"
  shows "\<exists>M. deliver_b (c_host X) (s_host X) N = Some M \<and> str_under_way X M"
proof -
  obtain i d where f: "to_a N = []" "to_b N = [d]"
    "control (s_host X) NCP_RTS (bytes_of 1002 @ bytes_of (socket_no X) @ [42]) (To_imp d)"
    "asked_in X i (host_a N)" "ready_in X (host_b N)" "so_far X 1 0 N"
    using assms by (auto simp: rts_under_way_def)
  obtain t e i' j' where t: "process_imp (words_of d) ((host_b N)\<lparr>packet := carry (c_host X) d\<rparr>) = Some t"
    "out t = out (host_b N) @ [e]" "control (c_host X) NCP_STR (bytes_of (socket_no X) @ bytes_of 1002 @ [32]) e"
    "offered_in X i' j' t" "outstanding_rfnm (hosts t (c_host X)) = outstanding_rfnm (hosts (host_b N) (c_host X)) + 1"
    using server_takes_rts [OF f(5,3) carried_carry regular_words [OF messages_regular(1) [OF f(3)]]] by blast
  note e = sent_message [OF t(2) messages_regular(1) [OF t(3)]]
  have d: "deliver_b (c_host X) (s_host X) N = Some \<lparr>host_a = counted (s_host X) (host_a N), host_b = t, to_a = [imp_bytes e], to_b = []\<rparr>"
    using deliver_b_eq [OF f(2) t(1), of "s_host X"] phase_quiet(1) [OF _ _ _ f(4)] f(1) e(1) by simp
  show ?thesis
    unfolding d str_under_way_def using f(4,6) t(3-5) e by (simp add: so_far_def counted_phases) blast
qed

lemma str_step:
  assumes "str_under_way X N"
  shows "\<exists>M. deliver_a (c_host X) (s_host X) N = Some M \<and> all_under_way X M"
proof -
  obtain i i' j' d where f: "to_a N = [d]" "to_b N = []"
    "control (c_host X) NCP_STR (bytes_of (socket_no X) @ bytes_of 1002 @ [32]) (To_imp d)"
    "asked_in X i (host_a N)" "offered_in X i' j' (host_b N)" "so_far X 0 1 N"
    using assms by (auto simp: str_under_way_def)
  obtain t e where t: "process_imp (words_of d) ((host_a N)\<lparr>packet := carry (s_host X) d\<rparr>) = Some t"
    "out t = out (host_a N) @ [e]" "control (s_host X) NCP_ALL ([42, 0, 1] @ bytes_of 1000) e" "confirmed_in X i t"
    "outstanding_rfnm (hosts t (s_host X)) = outstanding_rfnm (hosts (host_a N) (s_host X)) + 1"
    using client_takes_str [OF f(4,3) carried_carry regular_words [OF messages_regular(1) [OF f(3)]]] by blast
  note e = sent_message [OF t(2) messages_regular(1) [OF t(3)]]
  have d: "deliver_a (c_host X) (s_host X) N = Some \<lparr>host_a = t, host_b = counted (c_host X) (host_b N), to_a = [], to_b = [imp_bytes e]\<rparr>"
    using deliver_a_eq [OF f(1) t(1), of "c_host X"] phase_quiet(4) [OF _ _ _ f(5)] f(2) e(1) by simp
  show ?thesis
    unfolding d all_under_way_def using f(5,6) t(3-5) e by (simp add: so_far_def counted_phases) blast
qed

lemma sent_messages:
  assumes "list_all2 (from_peer P h) ks es"
  shows "filter (regular h) es = es" "filter (\<lambda>e. \<not> is_to_imp e) es = []"
    "list_all2 (\<lambda>k d. from_peer P h k (To_imp d)) ks (map imp_bytes es)"
proof -
  have r: "\<forall>e \<in> set es. regular h e"
    using assms messages_regular(3) by (fastforce simp: list_all2_conv_all_nth in_set_conv_nth)
  then show "filter (regular h) es = es" "filter (\<lambda>e. \<not> is_to_imp e) es = []"
    by (auto simp: filter_id_conv filter_empty_conv regular_def)
  show "list_all2 (\<lambda>k d. from_peer P h k (To_imp d)) ks (map imp_bytes es)"
    unfolding list_all2_map2 by (rule list_all2_mono [OF assms]) (simp add: regular_bytes [OF messages_regular(3)])
qed

lemma all_step:
  assumes "all_under_way X N"
  shows "\<exists>M. deliver_b (c_host X) (s_host X) N = Some M \<and> number_under_way X M"
proof -
  obtain i i' j' d where f: "to_a N = []" "to_b N = [d]" "control (s_host X) NCP_ALL ([42, 0, 1] @ bytes_of 1000) (To_imp d)"
    "confirmed_in X i (host_a N)" "offered_in X i' j' (host_b N)" "so_far X 1 0 N"
    using assms by (auto simp: all_under_way_def)
  have few: "outstanding_rfnm (hosts (host_b N) (c_host X)) < 1" using f(6) by (simp add: so_far_def)
  obtain t e es where t: "process_imp (words_of d) ((host_b N)\<lparr>packet := carry (c_host X) d\<rparr>) = Some t"
    "out t = out (host_b N) @ e # es" "icp_datagram (c_host X) 42 e" "list_all2 (from_peer (c_plan X) (c_host X)) (in_order i' j') es"
    "at_end (s_plan X) i' j' UNIV t" "wf_ncp t" "outstanding_rfnm (hosts t (c_host X)) = outstanding_rfnm (hosts (host_b N) (c_host X)) + 4"
    using server_takes_all [OF f(5) few f(3) carried_carry regular_words [OF messages_regular(1) [OF f(3)]],
        where za = "c_size X" and a' = "c_app X"]
    unfolding c_plan_def s_plan_def by blast
  note r = messages_regular(2) [OF t(3)]
  note es = sent_messages [OF t(4)] and e = regular_bytes [OF r]
  have m: "mail (c_host X) (host_b N) t = imp_bytes e # map imp_bytes es" "replies t = replies (host_b N)"
    using t(2) r es(1,2) by (simp_all add: mail_of replies_def) (simp add: regular_def)
  have d: "deliver_b (c_host X) (s_host X) N =
      Some \<lparr>host_a = counted (s_host X) (host_a N), host_b = t, to_a = imp_bytes e # map imp_bytes es, to_b = []\<rparr>"
    using deliver_b_eq [OF f(2) t(1), of "s_host X"] phase_quiet(2) [OF _ _ _ f(4)] f(1) m(1) by simp
  show ?thesis
    unfolding d number_under_way_def using f(4,6) t(3,5-7) e es(3) m(2) by (simp add: so_far_def counted_phases) blast
qed

text \<open>From here each side waits for three messages, in the order in which the other side has sent them.\<close>

definition requests_under_way :: "icp_case \<Rightarrow> nat \<Rightarrow> net \<Rightarrow> bool" where
  "requests_under_way X n N \<longleftrightarrow> (\<exists>i j ks i' j' ks'. n = length ks + length ks' \<and>
     ends (c_plan X) i j (c_before X) ks (s_plan X) i' j' (s_before X) ks' N)"

lemma in_order_facts: "distinct (in_order i j)" "set (in_order i j) = UNIV" "length (in_order i j) = 3"
proof -
  have "UNIV = {Cls, Str, Rts}" using rfc.exhaust by auto
  then show "distinct (in_order i j)" "set (in_order i j) = UNIV" "length (in_order i j) = 3" by (auto simp: in_order_def)
qed

lemma number_step:
  assumes "number_under_way X N"
  shows "\<exists>M. deliver_a (c_host X) (s_host X) N = Some M \<and> requests_under_way X 6 M"
proof -
  obtain i i' j' d ds where f: "to_a N = d # ds" "to_b N = []" "icp_datagram (c_host X) 42 (To_imp d)"
    "list_all2 (\<lambda>k d. from_peer (c_plan X) (c_host X) k (To_imp d)) (in_order i' j') ds"
    "confirmed_in X i (host_a N)" "at_end (s_plan X) i' j' UNIV (host_b N)" "so_far X 0 4 N" "wf_ncp (host_b N)"
    using assms by (auto simp: number_under_way_def)
  have few: "outstanding_rfnm (hosts (host_a N) (s_host X)) < 2" using f(7) by (simp add: so_far_def)
  obtain t j es where t: "process_imp (words_of d) ((host_a N)\<lparr>packet := carry (s_host X) d\<rparr>) = Some t"
    "out t = out (host_a N) @ es" "list_all2 (from_peer (s_plan X) (s_host X)) (in_order i j) es"
    "at_end (c_plan X) i j UNIV t" "wf_ncp t" "outstanding_rfnm (hosts t (s_host X)) = outstanding_rfnm (hosts (host_a N) (s_host X)) + 3"
    using client_takes_number [OF f(5) few f(3) carried_carry regular_words [OF messages_regular(2) [OF f(3)]],
        where zb = "s_size X" and a' = "s_app X"]
    unfolding c_plan_def s_plan_def by blast
  note es = sent_messages [OF t(3)]
  have m: "mail (s_host X) (host_a N) t = map imp_bytes es" "replies t = replies (host_a N)"
    using t(2) es(1,2) by (simp_all add: mail_of replies_def)
  have d: "deliver_a (c_host X) (s_host X) N =
      Some \<lparr>host_a = t, host_b = counted (c_host X) (host_b N), to_a = ds, to_b = map imp_bytes es\<rparr>"
    using deliver_a_eq [OF f(1) t(1), of "c_host X"] end_quiet [OF f(6)] f(2) m(1) by simp
  have "ends (c_plan X) i j (c_before X) (in_order i' j') (s_plan X) i' j' (s_before X) (in_order i j)
      \<lparr>host_a = t, host_b = counted (c_host X) (host_b N), to_a = ds, to_b = map imp_bytes es\<rparr>"
    using f(4,6-8) t(4-6) es(3) m(2)
    by (simp add: ends_def end_of_def in_order_facts counted_phases heard_def so_far_def)
  moreover have "6 = length (in_order i' j') + length (in_order i j)" by (simp add: in_order_facts)
  ultimately show ?thesis unfolding d requests_under_way_def by blast
qed

text \<open>The last replies of the two applications.\<close>

lemma requests_step:
  assumes ok: "socket_no X \<noteq> 0" and s: "requests_under_way X (Suc n) N"
  shows "to_b N \<noteq> [] \<Longrightarrow> \<exists>M. deliver_b (c_host X) (s_host X) N = Some M \<and> requests_under_way X n M"
    and "to_a N \<noteq> [] \<Longrightarrow> \<exists>M. deliver_a (c_host X) (s_host X) N = Some M \<and> requests_under_way X n M"
proof -
  obtain i j ks i' j' ks' where e: "Suc n = length ks + length ks'"
    "ends (c_plan X) i j (c_before X) ks (s_plan X) i' j' (s_before X) ks' N"
    using s by (auto simp: requests_under_way_def)
  have p: "plan_ok (c_plan X)" "plan_ok (s_plan X)" using plans_ok ok by (simp_all add: c_plan_def s_plan_def)
  show "\<exists>M. deliver_b (c_host X) (s_host X) N = Some M \<and> requests_under_way X n M" if "to_b N \<noteq> []"
  proof -
    have "ks' \<noteq> []" using that e(2) by (auto simp: ends_def end_of_def)
    then obtain k l where l: "ks' = k # l" by (cases ks') auto
    have "n = length ks + length l" using e(1) l by simp
    then show ?thesis using ends_deliver_b [OF p(2) e(2) [unfolded l]] unfolding requests_under_way_def plan_peers by blast
  qed
  show "\<exists>M. deliver_a (c_host X) (s_host X) N = Some M \<and> requests_under_way X n M" if "to_a N \<noteq> []"
  proof -
    have "ks \<noteq> []" using that e(2) by (auto simp: ends_def end_of_def)
    then obtain k l where l: "ks = k # l" by (cases ks) auto
    have "n = length l + length ks'" using e(1) l by simp
    then show ?thesis using ends_deliver_a [OF p(1) e(2) [unfolded l]] unfolding requests_under_way_def plan_peers by blast
  qed
qed

section \<open>Every order of deliveries\<close>

definition icp_phase :: "icp_case \<Rightarrow> nat \<Rightarrow> net \<Rightarrow> bool" where
  "icp_phase X n N \<longleftrightarrow> (if n = 0 then rts_under_way X N else if n = 1 then str_under_way X N else if n = 2 then all_under_way X N
     else if n = 3 then number_under_way X N else n \<le> 10 \<and> requests_under_way X (10 - n) N)"

lemma phase_cases:
  assumes "icp_phase X n N"
  obtains "n = 0" "rts_under_way X N" | "n = 1" "str_under_way X N" | "n = 2" "all_under_way X N" | "n = 3" "number_under_way X N"
    | m where "4 \<le> n" "10 - n = Suc m" "10 - Suc n = m" "n < 10" "requests_under_way X (Suc m) N"
    | "n = 10" "requests_under_way X 0 N"
  using assms unfolding icp_phase_def by (cases "10 - n"; force split: if_splits)

lemma requests_left: "requests_under_way X m N \<Longrightarrow> to_a N = [] \<and> to_b N = [] \<longleftrightarrow> m = 0"
  by (auto simp: requests_under_way_def ends_def end_of_def)

lemma phase_deliver_b:
  assumes ok: "socket_no X \<noteq> 0" and s: "icp_phase X n N" and some: "to_b N \<noteq> []"
  shows "\<exists>M. deliver_b (c_host X) (s_host X) N = Some M \<and> icp_phase X (Suc n) M"
  using s
proof (cases rule: phase_cases)
  case 1 then show ?thesis using rts_step by (auto simp: icp_phase_def)
next
  case 2 then show ?thesis using some by (auto simp: str_under_way_def)
next
  case 3 then show ?thesis using all_step by (auto simp: icp_phase_def)
next
  case 4 then show ?thesis using some by (auto simp: number_under_way_def)
next
  case (5 m) then show ?thesis using requests_step(1) [OF ok 5(5) some] by (auto simp: icp_phase_def)
next
  case 6 then show ?thesis using requests_left some by blast
qed

lemma phase_deliver_a:
  assumes ok: "socket_no X \<noteq> 0" and s: "icp_phase X n N" and some: "to_a N \<noteq> []"
  shows "\<exists>M. deliver_a (c_host X) (s_host X) N = Some M \<and> icp_phase X (Suc n) M"
  using s
proof (cases rule: phase_cases)
  case 1 then show ?thesis using some by (auto simp: rts_under_way_def)
next
  case 2 then show ?thesis using str_step by (auto simp: icp_phase_def)
next
  case 3 then show ?thesis using some by (auto simp: all_under_way_def)
next
  case 4 then show ?thesis using number_step by (auto simp: icp_phase_def)
next
  case (5 m) then show ?thesis using requests_step(2) [OF ok 5(5) some] by (auto simp: icp_phase_def)
next
  case 6 then show ?thesis using requests_left some by blast
qed

lemma phase_busy:
  assumes "icp_phase X n N"
  shows "n \<le> 10" "n = 10 \<longleftrightarrow> to_a N = [] \<and> to_b N = []"
proof -
  show "n \<le> 10" using assms by (cases rule: phase_cases) simp_all
  show "n = 10 \<longleftrightarrow> to_a N = [] \<and> to_b N = []"
    using assms
  proof (cases rule: phase_cases)
    case (5 m) then show ?thesis using requests_left by blast
  next
    case 6 then show ?thesis using requests_left by blast
  qed (auto simp: rts_under_way_def str_under_way_def all_under_way_def number_under_way_def)
qed

lemma run_phase:
  assumes "net_run (c_host X) (s_host X) n N M" and "socket_no X \<noteq> 0" "icp_phase X 0 N"
  shows "icp_phase X n M"
  using assms(1,3)
proof (induction rule: net_run.induct)
  case (at_b n N M L)
  then have "to_b M \<noteq> []" by (auto simp: deliver_b_def)
  then show ?case using phase_deliver_b [OF assms(2) at_b.IH [OF at_b.prems]] at_b.hyps by auto
next
  case (at_a n N M L)
  then have "to_a M \<noteq> []" by (auto simp: deliver_a_def deliver_b_def swap_def)
  then show ?case using phase_deliver_a [OF assms(2) at_a.IH [OF at_a.prems]] at_a.hyps by auto
qed

text \<open>Two entries that are the two ends of one connection.\<close>

definition joined :: "u8 \<Rightarrow> u8 \<Rightarrow> conn \<Rightarrow> conn \<Rightarrow> bool" where
  "joined ha hb c d \<longleftrightarrow> host c = uint hb \<and> host d = uint ha \<and>
     lsock (rcv c) = rsock (snd d) \<and> rsock (rcv c) = lsock (snd d) \<and> link (rcv c) = link (snd d) \<and> bsize (rcv c) = bsize (snd d) \<and>
     lsock (rcv d) = rsock (snd c) \<and> rsock (rcv d) = lsock (snd c) \<and> link (rcv d) = link (snd c) \<and> bsize (rcv d) = bsize (snd c)"

text \<open>
  The result: both applications have got one reply more, with the number of the entry, and the entries are joined, with the
  sockets and links the protocol and the code choose; they are ready for data, and no other entry belongs to the other host.
\<close>

definition only_entry :: "u8 \<Rightarrow> int \<Rightarrow> ncp \<Rightarrow> bool" where
  "only_entry h i s \<longleftrightarrow> (\<forall>k. 0 \<le> k \<and> k < CONNECTIONS \<and> host (connection s k) = uint h \<longrightarrow> k = i)"

text \<open>The entry is idle: no request, no allocation, and no RFNM is missing.\<close>

definition fresh_entry :: "u8 \<Rightarrow> int \<Rightarrow> ncp \<Rightarrow> bool" where
  "fresh_entry h i s \<longleftrightarrow> wf_ncp s \<and> 0 \<le> i \<and> i < CONNECTIONS \<and> outstanding_rfnm (hosts s h) = 0 \<and>
     (let c = connection s i in all_msgs c = 0 \<and> all_bits c = 0 \<and> all_callback c = None \<and> rfnm_callback c = None \<and>
        flags c AND (CONN_CLIENT OR CONN_APPS) = 0)"

definition opened_between ::
    "u8 \<Rightarrow> u8 \<Rightarrow> u32 \<Rightarrow> u8 \<Rightarrow> u8 \<Rightarrow> client_t \<Rightarrow> client_t \<Rightarrow> ncp \<Rightarrow> ncp \<Rightarrow> net \<Rightarrow> bool" where
  "opened_between ha hb socket za zb ca cb a b M \<longleftrightarrow>
     (\<exists>i j. joined ha hb (connection (host_a M) i) (connection (host_b M) j) \<and>
        replies (host_a M) = replies a @ [To_app ca ([WIRE_OPEN + 1, hb] @ bytes_of socket @ [word_of_int i, zb, 0])] \<and>
        replies (host_b M) = replies b @ [To_app cb ([WIRE_LISTEN + 1, ha] @ bytes_of socket @ [word_of_int j, za])] \<and>
        only_entry hb i (host_a M) \<and> only_entry ha j (host_b M) \<and> fresh_entry hb i (host_a M) \<and> fresh_entry ha j (host_b M) \<and>
        rcv (connection (host_a M) i) = \<lparr>link = 45, bsize = uint zb, lsock = 1004, rsock = 129\<rparr> \<and>
        snd (connection (host_a M) i) = \<lparr>link = 46, bsize = uint za, lsock = 1005, rsock = 128\<rparr>)"

lemma end_only: "at_end P i j {} s \<Longrightarrow> only_entry (peer P) j s"
proof -
  assume s: "at_end P i j {} s"
  then have "host (connection s i) = - 1" by (simp add: at_end_def)
  then have "host (connection s i) \<noteq> uint (peer P)" using u8_not_minus1 [of "peer P", THEN not_sym] by simp
  then show ?thesis using s unfolding at_end_def alone_def only_entry_def by blast
qed

lemma end_fresh:
  assumes "end_of me P i j before [] s q" "outstanding_rfnm (hosts s (peer P)) = 0"
  shows "fresh_entry (peer P) j s"
  using assms by (simp add: end_of_def at_end_def data_entry_def fresh_entry_def Let_def end_flags_def)

lemma phase_end:
  assumes "icp_phase X 10 M" and "c_before X = replies a" "s_before X = replies b"
  shows "opened_between (c_host X) (s_host X) (socket_no X) (c_size X) (s_size X) (c_app X) (s_app X) a b M"
proof -
  obtain i j i' j' where e: "end_of (c_host X) (c_plan X) i j (c_before X) [] (host_a M) (to_a M)"
    "end_of (s_host X) (s_plan X) i' j' (s_before X) [] (host_b M) (to_b M)"
    "outstanding_rfnm (hosts (host_a M) (peer (c_plan X))) = 0" "outstanding_rfnm (hosts (host_b M) (peer (s_plan X))) = 0"
    using assms(1) by (auto simp: icp_phase_def requests_under_way_def ends_def)
  have r: "replies (host_a M) = c_before X @ [told (c_plan X) j]" "replies (host_b M) = s_before X @ [told (s_plan X) j']"
    using e by (simp_all add: end_of_def heard_def)
  have a: "at_end (c_plan X) i j {} (host_a M)" "at_end (s_plan X) i' j' {} (host_b M)" using e by (simp_all add: end_of_def)
  note d = end_entries(6) [OF a(1), unfolded data_entry_def] end_entries(6) [OF a(2), unfolded data_entry_def]
  have "joined (c_host X) (s_host X) (connection (host_a M) j) (connection (host_b M) j')"
    using d unfolding joined_def by (simp add: c_plan_def s_plan_def client_plan_def server_plan_def)
  moreover have halves: "rcv (connection (host_a M) j) = \<lparr>link = 45, bsize = uint (s_size X), lsock = 1004, rsock = 129\<rparr>"
    "snd (connection (host_a M) j) = \<lparr>link = 46, bsize = uint (c_size X), lsock = 1005, rsock = 128\<rparr>"
    using d by (cases "rcv (connection (host_a M) j)"; cases "snd (connection (host_a M) j)"; simp add: c_plan_def client_plan_def)+
  ultimately show ?thesis
    unfolding opened_between_def using r assms(2,3) end_only [OF a(1)] end_only [OF a(2)] halves
      end_fresh [OF e(1,3)] end_fresh [OF e(2,4)]
    by (intro exI [of _ j] exI [of _ j']) (simp add: told_def, simp add: c_plan_def s_plan_def client_plan_def server_plan_def)
qed

lemma opens:
  assumes a: "client_ready hb a" "outstanding_rfnm (hosts a hb) = 0"
    and b: "server_ready ha socket zb cb b" "outstanding_rfnm (hosts b ha) = 0" and ok: "socket \<noteq> 0"
  shows "\<exists>a1. application ca (WIRE_OPEN # hb # bytes_of socket @ [za]) a = Some a1 \<and>
    (\<forall>n M. net_run ha hb n \<lparr>host_a = a1, host_b = b, to_a = [], to_b = mail hb a a1\<rparr> M \<longrightarrow>
      n \<le> 10 \<and> (to_a M \<noteq> [] \<longrightarrow> deliver_a ha hb M \<noteq> None) \<and> (to_b M \<noteq> [] \<longrightarrow> deliver_b ha hb M \<noteq> None) \<and>
      (n = 10 \<longleftrightarrow> to_a M = [] \<and> to_b M = []) \<and>
      (n = 10 \<longrightarrow> opened_between ha hb socket za zb ca cb a b M))"
proof -
  let ?X = "\<lparr>c_host = ha, s_host = hb, socket_no = socket, c_size = za, s_size = zb, c_app = ca, s_app = cb,
    c_before = replies a, s_before = replies b\<rparr>"
  obtain a1 e i where a1: "application ca (WIRE_OPEN # hb # bytes_of socket @ [za]) a = Some a1" "out a1 = out a @ [e]"
    "control hb NCP_RTS (bytes_of 1002 @ bytes_of socket @ [42]) e" "client_asked hb socket za ca i a1"
    "outstanding_rfnm (hosts a1 hb) = outstanding_rfnm (hosts a hb) + 1"
    using client_asks [OF a(1)] by blast
  let ?N = "\<lparr>host_a = a1, host_b = b, to_a = [], to_b = mail hb a a1\<rparr>"
  note e = sent_message [OF a1(2) messages_regular(1) [OF a1(3)]]
  have "rts_under_way ?X ?N"
    using a1(3-5) a(2) b e by (auto simp: rts_under_way_def so_far_def)
  then have start: "icp_phase ?X 0 ?N" by (simp add: icp_phase_def)
  have "n \<le> 10 \<and> (to_a M \<noteq> [] \<longrightarrow> deliver_a ha hb M \<noteq> None) \<and> (to_b M \<noteq> [] \<longrightarrow> deliver_b ha hb M \<noteq> None) \<and>
      (n = 10 \<longleftrightarrow> to_a M = [] \<and> to_b M = []) \<and> (n = 10 \<longrightarrow> opened_between ha hb socket za zb ca cb a b M)"
    if run: "net_run ha hb n ?N M" for n M
  proof -
    have p: "icp_phase ?X n M" using run_phase [of ?X n ?N M] run start ok by simp
    have "n = 10 \<Longrightarrow> opened_between ha hb socket za zb ca cb a b M" using p phase_end [of ?X M a b] by simp
    then show "n \<le> 10 \<and> (to_a M \<noteq> [] \<longrightarrow> deliver_a ha hb M \<noteq> None) \<and> (to_b M \<noteq> [] \<longrightarrow> deliver_b ha hb M \<noteq> None) \<and>
      (n = 10 \<longleftrightarrow> to_a M = [] \<and> to_b M = []) \<and> (n = 10 \<longrightarrow> opened_between ha hb socket za zb ca cb a b M)"
      using phase_deliver_a [OF _ p] phase_deliver_b [OF _ p] phase_busy [OF p] ok by auto
  qed
  then show ?thesis using a1(1) by blast
qed

text \<open>
  C5. Opening a connection, from one application to the other. On a host that is alive to the client and has two
  free entries, an application asks for a socket that an application of another host listens to, and neither daemon has
  any other business with the other host. Then, whatever the order in which the network delivers the messages
  of the two daemons (those of one daemon in their order), no delivery fails, there is one to make until ten have been made, and no more
  after that. At that point each application has got exactly one reply, which gives it the number of the
  connection, its byte size and no error; the two entries are the ends of one connection, with the same sockets,
  links and sizes, and no other entry for the other host is left.
\<close>

theorem open_connects:
  assumes a: "client_ready hb a" "outstanding_rfnm (hosts a hb) = 0"
    and b: "server_ready ha socket zb cb b" "outstanding_rfnm (hosts b ha) = 0" and ok: "socket \<noteq> 0"
  shows "\<exists>a1. application ca (WIRE_OPEN # hb # bytes_of socket @ [za]) a = Some a1 \<and>
    (\<forall>n M. net_run ha hb n \<lparr>host_a = a1, host_b = b, to_a = [], to_b = mail hb a a1\<rparr> M \<longrightarrow>
      n \<le> 10 \<and> (to_a M \<noteq> [] \<longrightarrow> deliver_a ha hb M \<noteq> None) \<and> (to_b M \<noteq> [] \<longrightarrow> deliver_b ha hb M \<noteq> None) \<and>
      (n = 10 \<longleftrightarrow> to_a M = [] \<and> to_b M = []) \<and>
      (n = 10 \<longrightarrow> opened_between ha hb socket za zb ca cb a b M))"
  by (rule opens [OF assms])

text \<open>A system that is never stuck before the tenth delivery gets there.\<close>

lemma run_goes_on:
  assumes "\<And>n M. net_run ha hb n N M \<Longrightarrow> (to_a M \<noteq> [] \<longrightarrow> deliver_a ha hb M \<noteq> None) \<and> (to_b M \<noteq> [] \<longrightarrow> deliver_b ha hb M \<noteq> None) \<and>
      (n = m \<longleftrightarrow> to_a M = [] \<and> to_b M = [])"
  shows "n \<le> m \<Longrightarrow> \<exists>M. net_run ha hb n N M"
proof (induction n)
  case 0
  then show ?case using net_run.none by blast
next
  case (Suc n)
  then obtain M where M: "net_run ha hb n N M" by auto
  then have "to_a M \<noteq> [] \<or> to_b M \<noteq> []" using assms [OF M] Suc.prems by auto
  then show ?case using assms [OF M] net_run.at_a [OF M] net_run.at_b [OF M] by fastforce
qed

text \<open>Host 9 opens socket 23 of host 5, to which somebody listens there.\<close>

lemma alive_client_ready: "client_ready 5 alive_ncp" "outstanding_rfnm (hosts alive_ncp 5) = 0"
proof -
  have e: "connection alive_ncp = (\<lambda>_. destroy_conn zero_conn)" by (simp add: alive_ncp_def empty_ncp_def)
  have w: "wf_ncp alive_ncp" by (simp add: wf_ncp_def e destroy_conn_def zero_conn_def wf_defs)
  have "tidy alive_ncp" "alone 5 {} alive_ncp" by (simp_all add: tidy_def alone_def e destroy_conn_def zero_conn_def)
  moreover have "room_for_two alive_ncp"
    unfolding room_for_two_def by (intro exI [of _ 0] exI [of _ 1]) (simp add: e destroy_conn_def)
  moreover have "find_listen 1005 alive_ncp = - 1"
    by (simp add: find_listen_def scan_eq_minus1 alive_ncp_def empty_ncp_def zero_ncp_def)
  ultimately show "client_ready 5 alive_ncp" "outstanding_rfnm (hosts alive_ncp 5) = 0"
    using w by (simp_all add: client_ready_def) (simp_all add: alive_ncp_def empty_ncp_def zero_ncp_def)
qed

lemma listening_server_ready: "server_ready 9 23 8 zero_client listening_ncp" "outstanding_rfnm (hosts listening_ncp 9) = 0"
proof -
  have e: "connection listening_ncp = (\<lambda>_. destroy_conn zero_conn)" by (simp add: listening_ncp_def empty_ncp_def)
  have w: "wf_ncp listening_ncp" by (simp add: wf_ncp_def e destroy_conn_def zero_conn_def wf_defs)
  have "tidy listening_ncp" "alone 9 {} listening_ncp" by (simp_all add: tidy_def alone_def e destroy_conn_def zero_conn_def)
  moreover have "room_for_two listening_ncp"
    unfolding room_for_two_def by (intro exI [of _ 0] exI [of _ 1]) (simp add: e destroy_conn_def)
  moreover have "find_listen 23 listening_ncp = 0"
    unfolding find_listen_def by (rule scan_eqI) (simp_all add: listening_ncp_def)
  moreover have "find_listen 129 listening_ncp = - 1"
    by (simp add: find_listen_def scan_eq_minus1 listening_ncp_def empty_ncp_def zero_ncp_def)
  ultimately show "server_ready 9 23 8 zero_client listening_ncp" "outstanding_rfnm (hosts listening_ncp 9) = 0"
    using w by (simp_all add: server_ready_def) (simp_all add: listening_ncp_def empty_ncp_def zero_ncp_def)
qed

theorem open_connects_witness:
  "\<exists>a1 M. application zero_client (WIRE_OPEN # 5 # bytes_of 23 @ [8]) alive_ncp = Some a1 \<and>
     net_run 9 5 10 \<lparr>host_a = a1, host_b = listening_ncp, to_a = [], to_b = mail 5 alive_ncp a1\<rparr> M \<and>
     to_a M = [] \<and> to_b M = [] \<and> opened_between 9 5 23 8 8 zero_client zero_client alive_ncp listening_ncp M"
proof -
  have ok: "(23 :: u32) \<noteq> 0" by simp
  obtain a1 where a1: "application zero_client (WIRE_OPEN # 5 # bytes_of 23 @ [8]) alive_ncp = Some a1"
    and all: "\<And>n M. net_run 9 5 n \<lparr>host_a = a1, host_b = listening_ncp, to_a = [], to_b = mail 5 alive_ncp a1\<rparr> M \<Longrightarrow>
      n \<le> 10 \<and> (to_a M \<noteq> [] \<longrightarrow> deliver_a 9 5 M \<noteq> None) \<and> (to_b M \<noteq> [] \<longrightarrow> deliver_b 9 5 M \<noteq> None) \<and>
      (n = 10 \<longleftrightarrow> to_a M = [] \<and> to_b M = []) \<and>
      (n = 10 \<longrightarrow> opened_between 9 5 23 8 8 zero_client zero_client alive_ncp listening_ncp M)"
    using open_connects [OF alive_client_ready listening_server_ready ok, of zero_client 8] by blast
  let ?N = "\<lparr>host_a = a1, host_b = listening_ncp, to_a = [], to_b = mail 5 alive_ncp a1\<rparr>"
  obtain M where "net_run 9 5 10 ?N M" using run_goes_on [of 9 5 ?N 10 10] all by blast
  then show ?thesis using a1 all by blast
qed

end
