(* ===== verification/Ncp_Requests.thy ===== *)
theory Ncp_Requests
  imports Ncp_Conn
begin

text \<open>
  The border of the daemon: which requests of an application it carries out and on which it
  indexes outside its tables, how data from the network reaches the application that reads, and
  what it makes of malformed control messages.
\<close>

section \<open>Requests\<close>

lemma app_open_defined:
  "app_open s = None \<longleftrightarrow> (\<forall>j. 0 \<le> j \<and> j < CONNECTIONS \<longrightarrow> \<not> free_entry s j)"
proof (cases rule: make_open_cases [of "uint (app s 1)" 1002 "word_of_bytes (app s 2) (app s 3) (app s 4) (app s 5)" 0 0 s])
  case full
  then show ?thesis by (simp add: app_open_def Let_def upd_def)
next
  case (taken i)
  have "app_open s \<noteq> None"
    unfolding app_open_def Let_def taken(5) bind.bind_lunit prod.case
    by (intro defined_intros leaf_handlers_defined taken(1,2))
  then show ?thesis using taken by auto
qed

text \<open>
  C27. Requests the daemon cannot carry out. It trusts the connection number of a request: reading,
  interrupting and closing index outside the table exactly when the number is 20 or more. Opening
  fails exactly when no entry is free, since the index -1 is used. A datagram that consists of the
  code for writing alone always copies beyond the array of requests. Asking for an echo or to
  listen never fails.
\<close>

theorem request_faults:
  "(application a [WIRE_READ, i, n] s = None \<longleftrightarrow> 20 \<le> i) \<and>
   (application a [WIRE_INTERRUPT, i] s = None \<longleftrightarrow> 20 \<le> i) \<and>
   (application a [WIRE_CLOSE, i] s = None \<longleftrightarrow> 20 \<le> i) \<and>
   (application a (WIRE_OPEN # h # bytes_of socket @ [z]) s = None \<longleftrightarrow>
      (\<forall>j. 0 \<le> j \<and> j < CONNECTIONS \<longrightarrow> \<not> free_entry s j)) \<and>
   application a [WIRE_WRITE] s = None \<and>
   application a [WIRE_ECHO, h, x] s \<noteq> None \<and>
   application a (WIRE_LISTEN # bytes_of socket @ [z]) s \<noteq> None"
proof -
  have le: "20 \<le> i \<longleftrightarrow> \<not> uint i < CONNECTIONS" by (simp add: word_le_def not_less)
  have len: "int (length (take APP_CAP (WIRE_OPEN # h # bytes_of socket @ [z]))) = 7" by simp
  have app: "app (receive_request a (x # bs) s) 0 = x" for x bs
    by (simp add: receive_request_def put_bytes_def)
  have app1: "app (receive_request a (x # y # bs) s) 1 = y" for x y bs
    by (simp add: receive_request_def put_bytes_def)
  note app1 = app1 app1 [unfolded One_nat_def]
  note dispatch = application_def Let_def wire_check_def app
  have "application a [WIRE_READ, i, n] s = None \<longleftrightarrow> 20 \<le> i"
    unfolding le by (simp add: dispatch app_read_def app1 upd_def get_def bind_eq_None_conv ncp_commands_defined)
  moreover have "application a [WIRE_INTERRUPT, i] s = None \<longleftrightarrow> 20 \<le> i"
    unfolding le by (simp add: dispatch app_interrupt_def app1 get_def ncp_commands_defined)
  moreover have "application a [WIRE_CLOSE, i] s = None \<longleftrightarrow> 20 \<le> i"
  proof (cases "uint i < CONNECTIONS")
    case True
    have "app_close (receive_request a [WIRE_CLOSE, i] s) \<noteq> None"
      unfolding app_close_def Let_def app1 by (intro defined_intros True) simp_all
    then show ?thesis using True unfolding le by (simp add: dispatch)
  next
    case False
    then show ?thesis unfolding le by (simp add: dispatch app_close_def app1 upd_def)
  qed
  moreover have "application a (WIRE_OPEN # h # bytes_of socket @ [z]) s = None \<longleftrightarrow>
      (\<forall>j. 0 \<le> j \<and> j < CONNECTIONS \<longrightarrow> \<not> free_entry s j)"
    using len by (simp add: dispatch app_open_defined) (simp add: receive_request_def)
  moreover have "application a [WIRE_WRITE] s = None"
    by (simp add: dispatch app_write_def when_all_def memcpy_def c_div_pos bind_eq_None_conv)
  moreover have "application a [WIRE_ECHO, h, x] s \<noteq> None"
  proof -
    have "app_echo t \<noteq> None" for t unfolding app_echo_def Let_def by (intro defined_intros)
    then show ?thesis by (simp add: dispatch)
  qed
  moreover have "application a (WIRE_LISTEN # bytes_of socket @ [z]) s \<noteq> None"
  proof -
    have "app_listen t \<noteq> None" for t
      unfolding app_listen_def Let_def
      by (intro defined_intros) (use scan_hit in \<open>auto simp: find_listen_def upd_def\<close>)
    then show ?thesis by (simp add: dispatch)
  qed
  ultimately show ?thesis by blast
qed

theorem request_faults_witness:
  "application zero_client [WIRE_CLOSE, 20] open_ncp = None \<and> application zero_client [WIRE_CLOSE, 4] open_ncp \<noteq> None \<and>
   application zero_client (WIRE_OPEN # 5 # bytes_of 23 @ [8]) zero_ncp = None"
  using request_faults [of zero_client 20 0 open_ncp] request_faults [of zero_client 4 0 open_ncp]
    request_faults [of zero_client 0 0 zero_ncp 5 23 8]
  by (simp add: zero_ncp_def zero_conn_def)

section \<open>Data from the network\<close>

lemma data_reply:
  assumes "packet s 2 \<noteq> 0" and i: "i = find_link (uint (packet s 1)) (uint (packet s 2)) s" "i \<noteq> - 1"
    and c: "c = connection s i" and "bsize (rcv c) = uint (packet s 5)" and "\<not> has CONN_CLIENT c"
    and n: "n = unat (push_bit 8 (ucast (packet s 6)) OR ucast (packet s 7) :: u16)"
  shows "process_regular s = (if 191 < n then None
    else Some (s\<lparr>connection := (connection s)(i := clear_flags CONN_READ c),
      out := out s @ [To_app (reader c) ([WIRE_READ + 1, word_of_int i] @ get_bytes 9 n (packet s))]\<rparr>))"
proof -
  have r: "0 \<le> i" "i < CONNECTIONS" using i scan_hit unfolding find_link_def by auto
  have "process_regular s = reply_read (word_of_int i) 9 (int n) s"
    unfolding process_regular_def Let_def i(1) [symmetric] n
    using assms(1,5,6) i(2) r by (simp add: get_def c)
  moreover have "get_bytes 0 (n + 2) (put_bytes 2 (get_bytes 9 n (packet s)) (put_bytes 0 [WIRE_READ + 1, word_of_int i] (\<lambda>_. 0))) =
      [WIRE_READ + 1, word_of_int i] @ get_bytes 9 n (packet s)"
    unfolding add.commute [of n 2] get_bytes_append add_0
    by (simp only: get_put_bytes_len length_get_bytes) (simp add: get_put_bytes_len get_put_bytes_disjoint)
  moreover have "reader (clear_flags CONN_READ c) = reader c" by (simp add: clear_flags_def)
  ultimately show ?thesis
    using r by (simp add: reply_read_def upd_def memcpy_def deliver_def c)
qed

text \<open>
  C24. Data reaches the reader. A regular message on a link of a connection, with the byte size of
  the connection, that does not belong to an ICP: if it says that it has at most 191 bytes, the
  application that reads gets exactly the bytes after the header, the connection stops reading and
  nothing else happens. If it says that it has more, the reply is copied from beyond the end of the
  \<open>packet\<close> array, whatever the length of the datagram was.
\<close>

theorem data_delivered:
  assumes "packet s 2 \<noteq> 0" and i: "i = find_link (uint (packet s 1)) (uint (packet s 2)) s" "i \<noteq> - 1"
    and c: "c = connection s i" and "bsize (rcv c) = uint (packet s 5)" and "\<not> has CONN_CLIENT c"
    and n: "n = unat (push_bit 8 (ucast (packet s 6)) OR ucast (packet s 7) :: u16)"
  shows "process_regular s = (if 191 < n then None
    else Some (s\<lparr>connection := (connection s)(i := clear_flags CONN_READ c),
      out := out s @ [To_app (reader c) ([WIRE_READ + 1, word_of_int i] @ get_bytes 9 n (packet s))]\<rparr>))"
  by (rule data_reply [OF assms])

text \<open>Three bytes for the open connection.\<close>

definition data_packet :: mem where
  "data_packet = put_bytes 0 [0, 5, 45, 0, 0, 8, 0, 3, 0, 1, 2, 3] (\<lambda>_. 0)"

theorem data_delivered_witness:
  "\<exists>t. process_regular (open_ncp\<lparr>packet := data_packet\<rparr>) = Some t \<and>
     out t = [To_app zero_client [WIRE_READ + 1, 4, 1, 2, 3]]"
proof -
  let ?s = "open_ncp\<lparr>packet := data_packet\<rparr>"
  have pk: "packet ?s 1 = 5" "packet ?s 2 = 45" "packet ?s 5 = 8" "packet ?s 6 = 0" "packet ?s 7 = 3"
    by (simp_all add: data_packet_def put_bytes_def)
  have "find_link 5 45 ?s = 4"
    unfolding find_link_def Let_def
    by (rule scan_eqI; simp add: open_ncp_def established_def destroy_conn_def)
  then have f: "4 = find_link (uint (packet ?s 1)) (uint (packet ?s 2)) ?s" unfolding pk by simp
  have n: "3 = unat (push_bit 8 (ucast (packet ?s 6)) OR ucast (packet ?s 7) :: u16)" unfolding pk by simp
  have c: "connection ?s 4 = established" "reader established = zero_client" "out ?s = []"
    "bsize (rcv established) = 8" "\<not> has CONN_CLIENT established"
    by (simp_all add: open_ncp_def established_def zero_conn_def has_def empty_ncp_def zero_ncp_def)
  have "get_bytes 9 3 data_packet = [1, 2, 3]"
    by (simp add: data_packet_def get_bytes_def put_bytes_def upt_rec)
  moreover have "process_regular ?s = (if 191 < (3 :: nat) then None
    else Some (?s\<lparr>connection := (connection ?s)(4 := clear_flags CONN_READ established),
      out := out ?s @ [To_app (reader established) ([WIRE_READ + 1, word_of_int 4] @ get_bytes 9 3 (packet ?s))]\<rparr>))"
    by (rule data_delivered [OF _ f _ c(1) [symmetric] _ c(5) n]) (use pk c in simp_all)
  ultimately show ?thesis using c by simp
qed

section \<open>Malformed control messages\<close>

lemma sends_packet [simp]: "sends d ty ps (s\<lparr>packet := p\<rparr>) t = sends d ty ps s t"
  by (simp add: sends_def)

lemma send_command_at:
  assumes "length params + 1 = unat count" and "unat count \<le> 178"
    and "\<And>k. k < length params \<Longrightarrow> p (22 + k) = params ! k"
  shows "\<exists>t. send_ncp dest 8 count type (s\<lparr>packet := p\<rparr>) = Some t \<and> sends dest type params s t"
proof -
  have "put_bytes 22 params p = p"
    using assms(3) by (auto simp: put_bytes_def fun_eq_iff) (metis le_add_diff_inverse less_diff_conv2 add.commute)
  then show ?thesis
    using send_command [OF assms(1,2), of dest type "s\<lparr>packet := p\<rparr>"] by (simp add: write_packet_def)
qed

lemma err_sends:
  assumes "0 \<le> n" and m: "m = nat (min n 10)" and "src + m \<le> 22"
  shows "\<exists>t. ncp_err dest code src n s = Some t \<and>
    sends dest NCP_ERR (code # get_bytes src m (packet s) @ replicate (10 - m) 0) s t"
proof -
  let ?q = "put_bytes 23 (get_bytes src m (packet s)) (put_bytes 22 [code] (packet s))"
  let ?p = "if n < 10 then put_bytes (23 + nat n) (replicate (nat (10 - n)) 0) ?q else ?q"
  have mn: "nat (if n > 10 then 10 else n) = m" "\<not> (if n > 10 then 10 else n) < 0" using assms(1,2) by auto
  have same: "get_bytes src m (packet (write_packet 22 [code] s)) = get_bytes src m (packet s)"
    using assms(3) by (simp add: write_packet_def get_put_bytes_disjoint)
  have q: "memcpy_within PACKET_CAP 23 src (if n > 10 then 10 else n) (packet (write_packet 22 [code] s)) = Some ?q"
    using assms(3) mn unfolding memcpy_within_def memcpy_def mn(1) same
    by (auto simp: write_packet_def m)
  have "ncp_err dest code src n s = send_ncp dest 8 12 NCP_ERR (s\<lparr>packet := ?p\<rparr>)"
    unfolding ncp_err_def Let_def q bind.bind_lunit by (simp add: write_packet_def)
  moreover have "\<exists>t. send_ncp dest 8 12 NCP_ERR (s\<lparr>packet := ?p\<rparr>) = Some t \<and>
      sends dest NCP_ERR (code # get_bytes src m (packet s) @ replicate (10 - m) 0) s t"
  proof (rule send_command_at)
    fix k
    assume "k < length (code # get_bytes src m (packet s) @ replicate (10 - m) 0)"
    then have "k < 11" using m by auto
    then show "?p (22 + k) = (code # get_bytes src m (packet s) @ replicate (10 - m) 0) ! k"
      using assms(1) m by (cases k) (auto simp: put_bytes_def nth_append nth_Cons')
  qed (use m in auto)
  ultimately show ?thesis by simp
qed

text \<open>
  An unknown command. If the first command of a control message has a number above 13, the
  daemon answers with one ERR with code 1 and changes no connection. The ten bytes of data it adds
  start with the padding byte of the header, one before the offending command.
\<close>

theorem unknown_command:
  assumes "packet s 9 > NCP_MAX" and "0 < count"
  shows "\<exists>t e. process_ncp h 9 count s = Some t \<and> out t = out s @ [e] \<and>
    control h NCP_ERR (ERR_OPCODE # get_bytes 8 10 (packet s)) e \<and> connection t = connection s"
proof -
  have "0 < unat count" using assms(2) by (simp add: word_less_nat_alt)
  then have "process_ncp h 9 count s = ncp_err h ERR_OPCODE 8 10 s"
    using assms(1) by (simp add: process_ncp_def process_ncp_loop.simps args_def)
  then show ?thesis
    using err_sends [of 10 10 8 h ERR_OPCODE s] by (auto simp: sends_def)
qed

theorem unknown_command_witness:
  "\<exists>t e. process_ncp 5 9 1 (zero_ncp\<lparr>packet := put_bytes 9 [99] (\<lambda>_. 0)\<rparr>) = Some t \<and> out t = [e] \<and>
    control 5 NCP_ERR [ERR_OPCODE, 0, 99, 0, 0, 0, 0, 0, 0, 0, 0] e"
  using unknown_command [of "zero_ncp\<lparr>packet := put_bytes 9 [99] (\<lambda>_. 0)\<rparr>" 1 5]
  by (auto simp: put_bytes_def get_bytes_def upt_rec zero_ncp_def)

text \<open>
  C28. Two commands in one message. The reply to a command is built in the array that the rest of
  the message is still read from. So of two ECO in one message only the first is answered with an
  ERP: where the second one was, the header of the reply is now read as a CLS of sockets that do not
  exist, and the peer gets two ERR instead of the second byte.
\<close>

theorem second_echo_lost:
  assumes "packet s 9 = NCP_ECO" and "packet s 11 = NCP_ECO" and "imp_flags (imp s) = FLAG_READY"
    and none: "\<And>ls rs. find_rcv_sockets (uint h) ls rs s = - 1" "\<And>ls rs. find_snd_sockets (uint h) ls rs s = - 1"
  shows "\<exists>t e1 e2 e3 d2 d3. process_ncp h 9 4 s = Some t \<and> out t = out s @ [e1, e2, e3] \<and>
    control h NCP_ERP [packet s 10] e1 \<and> control h NCP_ERR d2 e2 \<and> control h NCP_ERR d3 e3"
proof -
  let ?u = "write_packet 22 [packet s 10] s"
  define s1 where "s1 = after_control h 8 2 NCP_ERP ?u"
  have erp: "ncp_erp h (packet s 10) s = Some s1" by (simp add: ncp_erp_def send_ncp_eq s1_def)
  have "sends h NCP_ERP [packet s 10] s s1"
    using commands_send(6) [of h "packet s 10" s] erp by auto
  then obtain e1 where s1: "out s1 = out s @ [e1]" "control h NCP_ERP [packet s 10] e1" "connection s1 = connection s"
    by (auto simp: sends_def)
  have "packet s1 11 = 3"
    using assms(3) by (simp add: s1_def after_control_def upd_host_def sent_packet_def put_bytes_def imp_header_def
        write_packet_def bytes_of_def)
  have f: "find_rcv_sockets (uint h) ls rs s1 = - 1" "find_snd_sockets (uint h) ls rs s1 = - 1" for ls rs
    using none by (simp_all add: find_rcv_sockets_def find_snd_sockets_def s1(3))
  obtain s2 e2 d2 where s2: "ncp_err h ERR_SOCKET 11 9 s1 = Some s2" "out s2 = out s1 @ [e2]" "control h NCP_ERR d2 e2"
    using err_sends [of 9 9 11 h ERR_SOCKET s1] by (auto simp: sends_def)
  obtain s3 e3 d3 where s3: "ncp_err h ERR_SHORT 8 2 s2 = Some s3" "out s3 = out s2 @ [e3]" "control h NCP_ERR d3 e3"
    using err_sends [of 2 2 8 h ERR_SHORT s2] by (auto simp: sends_def)
  have cls: "process_cls h 12 s1 = Some (8, s2)"
    using f s2(1) by (simp add: process_cls_def args_def)
  have "process_ncp_loop h 9 4 (Suc (Suc 0)) s1 = Some s3"
    using \<open>packet s1 11 = 3\<close> cls s3(1)
    by (simp add: process_ncp_loop.simps [of h 9 4 "Suc (Suc 0)"] process_ncp_loop.simps [of h 9 4 11]
        args_def ncp_message_def)
  then have "process_ncp h 9 4 s = Some s3"
    using assms(1) erp
    by (simp add: process_ncp_def process_ncp_loop.simps [of h 9 4 0] args_def ncp_message_def process_eco_def)
  then show ?thesis using s1 s2 s3 by (intro exI conjI) (assumption | simp)+
qed

theorem second_echo_lost_witness:
  "\<exists>t e1 e2 e3 d2 d3. process_ncp 5 9 4 (empty_ncp\<lparr>packet := put_bytes 9 [9, 17, 9, 34] (\<lambda>_. 0),
      imp := imp_init\<lparr>imp_flags := FLAG_READY\<rparr>\<rparr>) = Some t \<and> out t = [e1, e2, e3] \<and>
    control 5 NCP_ERP [17] e1 \<and> control 5 NCP_ERR d2 e2 \<and> control 5 NCP_ERR d3 e3"
proof -
  let ?s = "empty_ncp\<lparr>packet := put_bytes 9 [9, 17, 9, 34] (\<lambda>_. 0), imp := imp_init\<lparr>imp_flags := FLAG_READY\<rparr>\<rparr>"
  have p: "packet ?s 9 = NCP_ECO" "packet ?s 11 = NCP_ECO" "packet ?s 10 = 17"
    by (simp_all add: put_bytes_def)
  have "imp_flags (imp ?s) = FLAG_READY" by simp
  moreover have "find_rcv_sockets (uint (5 :: u8)) ls rs ?s = - 1"
    "find_snd_sockets (uint (5 :: u8)) ls rs ?s = - 1" for ls rs
    by (simp_all add: find_rcv_sockets_def find_snd_sockets_def scan_eq_minus1 empty_ncp_def destroy_conn_def)
  moreover have "out ?s = []" by (simp add: empty_ncp_def zero_ncp_def)
  ultimately show ?thesis using second_echo_lost [OF p(1,2), of 5] p(3) by simp
qed

end
