(* ===== verification/Ncp_Stream.thy ===== *)
theory Ncp_Stream
  imports Ncp_Open Ncp_Requests
begin

text \<open>
  Data between two applications, through both daemons: what one writes, in any pieces, the other reads, in the pieces that
  its allocations allow. The abstract view of a connection is a queue of bytes.
\<close>

section \<open>The side that writes\<close>

text \<open>The datagram with the bytes \<open>bs\<close> for host \<open>h\<close> on link \<open>l\<close>.\<close>

definition data_on :: "u8 \<Rightarrow> u8 \<Rightarrow> u8 list \<Rightarrow> effect \<Rightarrow> bool" where
  "data_on h l bs e \<longleftrightarrow> (\<exists>d. e = To_imp d \<and> take (9 + length bs) (drop 12 d) = [0, h, l, 0, 0, 8, 0, word_of_nat (length bs), 0] @ bs)"

text \<open>The bytes that an application wants to write and that have not been sent.\<close>

definition pending_bytes :: "conn \<Rightarrow> u8 list" where
  "pending_bytes c = (if all_callback c = None then [] else unsent c)"

text \<open>What sending does not touch.\<close>

definition same_writer :: "conn \<Rightarrow> conn \<Rightarrow> bool" where
  "same_writer c d \<longleftrightarrow> host d = host c \<and> snd d = snd c \<and> rcv d = rcv c \<and> flags d = flags c \<and> writer d = writer c \<and> wlength d = wlength c"

lemma write_sends:
  assumes w: "wf_conn c" and i: "0 \<le> i" "i < CONNECTIONS" "c = connection s i" and cb: "all_callback c = Some Send_data"
    and h: "host c = uint h" "link (snd c) = uint l" "bsize (snd c) = 8"
    and a: "all_msgs c = 1" "8 \<le> all_bits c" and m: "0 < remaining c" "sendable c < 180" and q: "rfnm_callback c = None"
  shows "\<exists>t d e bs. check_all i s = Some t \<and> out t = out s @ [e] \<and> data_on h l bs e \<and> bs \<noteq> [] \<and> length bs \<le> 179 \<and>
    connection t = (connection s)(i := d) \<and> same_writer c d \<and> unsent c = bs @ pending_bytes d \<and>
    all_msgs d = 0 \<and> all_bits d = all_bits c - 8 * int (length bs) \<and> 0 \<le> all_bits d \<and> all_callback d \<in> {None, Some Send_data} \<and>
    (all_callback d = None \<longrightarrow> rfnm_callback d = Some Send_data_now) \<and>
    (all_callback d \<noteq> None \<longrightarrow> rfnm_callback d = None \<and> 0 < remaining d) \<and> remaining d \<le> remaining c \<and>
    hosts t = (hosts s)(h := (hosts s h)\<lparr>outstanding_rfnm := outstanding_rfnm (hosts s h) + 1\<rparr>)"
proof -
  have g: "get i s = Some c" using i by (simp add: get_def)
  have some: "all_callback c \<noteq> None" using cb by simp
  note b = window_bounds [OF w some a(2)]
  have z: "0 < sendable c" using a(2) m(1) by (auto simp: sendable_def pos_imp_zdiv_pos_iff)
  note fit = m(2)
  have ms: "1 \<le> all_msgs c" "bsize (snd c) \<noteq> 0" using a(1) h(3) by simp_all
  obtain u where u: "connection u = (connection s)(i := advanced c)" "time_tick u = time_tick s"
    "out u = out s @ [To_imp (data_datagram (imp s) c)]"
    "hosts u = (hosts s)(word_of_int (host c) := (hosts s (word_of_int (host c)))\<lparr>outstanding_rfnm :=
      outstanding_rfnm (hosts s (word_of_int (host c))) + 1\<rparr>)"
    "check_all i s = (if remaining c = sendable c then
         do { s \<leftarrow> run Send_data i u; upd i (\<lambda>c. c\<lparr>all_callback := None, all_timeout := None\<rparr>) s }
       else upd i (\<lambda>c. c\<lparr>all_time := time_tick u + ALL_TIMEOUT\<rparr>) u)"
    using check_all_sends [OF w g cb ms(1) a(2) ms(2) fit] by blast
  let ?e = "To_imp (data_datagram (imp s) c)"
  define bs where "bs = take (nat (sendable c)) (unsent c)"
  have len: "length (unsent c) = nat (remaining c)" by (simp add: unsent_def)
  have lb: "length bs = nat (sendable c)" using b(2) by (simp add: len bs_def)
  have cut: "take (nat (sendable c)) (drop 21 (data_datagram (imp s) c)) @ unsent (advanced c) = unsent c"
    by (rule advanced_unsent [OF w some a(2)])
  have count: "c_div (8 * sendable c) 8 = sendable c" using z by (simp add: c_div_pos)
  have hdr: "data_header c = [0, h, l, 0, 0, 8, 0, word_of_nat (length bs), 0]"
    using z fit h lb by (simp add: data_header_def count Let_def)
  have left: "length (unsent (advanced c)) = nat (remaining c - sendable c)"
    by (simp add: unsent_def advanced_def headed_def)
  have "length (take (nat (sendable c)) (drop 21 (data_datagram (imp s) c))) + length (unsent (advanced c)) = length (unsent c)"
    by (simp only: cut [symmetric] length_append)
  then have "length (take (nat (sendable c)) (drop 21 (data_datagram (imp s) c))) = nat (sendable c)"
    using b(2) z by (simp only: left len)
  then have bs: "take (nat (sendable c)) (drop 21 (data_datagram (imp s) c)) = bs"
    unfolding bs_def by (subst cut [symmetric]) simp
  have "take (9 + length bs) (drop 12 (data_datagram (imp s) c)) = data_header c @ bs"
    unfolding lb take_add data_datagram_front by (simp add: bs)
  then have on: "data_on h l bs ?e" by (simp add: data_on_def hdr)
  have ne: "bs \<noteq> []" "length bs \<le> 179" using lb z fit by auto
  have bits: "all_bits (advanced c) = all_bits c - 8 * int (length bs)" "0 \<le> all_bits (advanced c)" "all_msgs (advanced c) = 0"
    using b(6) z h(3) a(1) lb by (simp_all add: advanced_def headed_def count)
  have same: "same_writer c (advanced c)" "rfnm_callback (advanced c) = None" "all_callback (advanced c) = Some Send_data"
    "remaining (advanced c) = remaining c - sendable c"
    using cb q by (simp_all add: same_writer_def advanced_def headed_def)
  have adv: "unsent c = bs @ unsent (advanced c)" using cut bs by simp
  have hosts: "word_of_int (host c) = h" using h(1) by simp
  show ?thesis
  proof (cases "remaining c = sendable c")
    case True
    let ?d = "(advanced c)\<lparr>rfnm_callback := Some Send_data_now, rfnm_timeout := Some Send_data_timeout,
      rfnm_time := time_tick u + RFNM_TIMEOUT, all_callback := None, all_timeout := None\<rparr>"
    let ?t = "u\<lparr>connection := (connection s)(i := ?d)\<rparr>"
    have "check_all i s = Some ?t"
      using True i u(1,5) by (simp add: run_def send_data_def when_rfnm_def upd_def)
    moreover have "unsent (advanced c) = []" using left True by simp
    ultimately show ?thesis
      using u(3,4) on ne bits same adv hosts True z
      by (intro exI [of _ ?t] exI [of _ ?d] exI [of _ ?e] exI [of _ bs]) (simp add: pending_bytes_def same_writer_def)
  next
    case False
    let ?d = "(advanced c)\<lparr>all_time := time_tick u + ALL_TIMEOUT\<rparr>"
    let ?t = "u\<lparr>connection := (connection s)(i := ?d)\<rparr>"
    have "check_all i s = Some ?t" using False i u(1,5) by (simp add: upd_def)
    moreover have "unsent ?d = unsent (advanced c)" by (simp add: unsent_def)
    ultimately show ?thesis
      using u(3,4) on ne bits same adv hosts False b(2) z
      by (intro exI [of _ ?t] exI [of _ ?d] exI [of _ ?e] exI [of _ bs]) (simp add: pending_bytes_def same_writer_def)
  qed
qed

text \<open>A stream of bytes: the hosts, the link, the entries at both ends, and the two applications.\<close>

record stream =
  from_host :: u8
  to_host :: u8
  on_link :: u8
  w_entry :: int
  r_entry :: int
  w_app :: client_t
  r_app :: client_t

definition writer_entry :: "stream \<Rightarrow> conn \<Rightarrow> bool" where
  "writer_entry X c \<longleftrightarrow> host c = uint (to_host X) \<and> link (snd c) = uint (on_link X) \<and> bsize (snd c) = 8 \<and>
     all_callback c \<in> {None, Some Send_data} \<and> rfnm_callback c \<in> {None, Some Send_data_now} \<and>
     (all_callback c \<noteq> None \<longrightarrow> 0 < remaining c \<and> rfnm_callback c = None) \<and>
     all_msgs c \<in> {0, 1} \<and> 0 \<le> all_bits c \<and> (all_msgs c = 1 \<longrightarrow> 8 \<le> all_bits c)"

text \<open>Between two events nothing waits that could be sent.\<close>

definition writer_ok :: "stream \<Rightarrow> ncp \<Rightarrow> bool" where
  "writer_ok X s \<longleftrightarrow> wf_ncp s \<and> 0 \<le> w_entry X \<and> w_entry X < CONNECTIONS \<and> only_entry (to_host X) (w_entry X) s \<and>
     writer_entry X (connection s (w_entry X)) \<and>
     (all_msgs (connection s (w_entry X)) = 1 \<longrightarrow> all_callback (connection s (w_entry X)) = None)"

definition flushed :: "stream \<Rightarrow> conn \<Rightarrow> conn \<Rightarrow> u8 list \<Rightarrow> effect list \<Rightarrow> bool" where
  "flushed X c d bs es \<longleftrightarrow> same_writer c d \<and> pending_bytes c = bs @ pending_bytes d \<and>
     all_bits d = all_bits c - 8 * int (length bs) \<and>
     (if bs = [] then es = [] \<and> d = c
      else length bs \<le> 179 \<and> (\<exists>e. es = [e] \<and> data_on (to_host X) (on_link X) bs e) \<and> all_msgs c = 1 \<and> all_msgs d = 0 \<and>
        rfnm_callback d = (if all_callback d = None then Some Send_data_now else None))"

lemma only_entry_upd:
  "only_entry h i s \<Longrightarrow> connection t = (connection s)(i := d) \<Longrightarrow> only_entry h i t"
  by (auto simp: only_entry_def)

text \<open>The next piece is too long for the packet.\<close>

definition overflows :: "conn \<Rightarrow> bool" where
  "overflows c \<longleftrightarrow> all_callback c \<noteq> None \<and> all_msgs c = 1 \<and> 180 \<le> sendable c"

lemma sendable_min: "sendable c = min (remaining c) (all_bits c div 8)"
  unfolding sendable_def min_def by (cases "8 * remaining c > all_bits c") (simp_all, linarith+)

lemma writer_fails:
  assumes i: "0 \<le> i" "i < CONNECTIONS" and c: "c = connection s i" "writer_entry X c" and o: "overflows c"
  shows "check_all i s = None"
  using assms check_all_fails [of i s c Send_data] by (auto simp: get_def writer_entry_def overflows_def)

lemma writer_flush:
  assumes wf: "wf_ncp s" and i: "i = w_entry X" "0 \<le> i" "i < CONNECTIONS" "only_entry (to_host X) i s"
    and c: "c = connection s i" "writer_entry X c" and fit: "\<not> overflows c"
  shows "\<exists>t d bs es. check_all i s = Some t \<and> out t = out s @ es \<and> writer_ok X t \<and> connection t i = d \<and> flushed X c d bs es \<and>
    outstanding_rfnm (hosts t (to_host X)) = outstanding_rfnm (hosts s (to_host X)) + int (length es)"
proof (cases "all_msgs c = 1 \<and> all_callback c \<noteq> None")
  case True
  note e = c(2) [unfolded writer_entry_def]
  have cb: "all_callback c = Some Send_data" "all_msgs c = 1" "8 \<le> all_bits c" "0 < remaining c" "sendable c < 180" "rfnm_callback c = None"
    "host c = uint (to_host X)" "link (snd c) = uint (on_link X)" "bsize (snd c) = 8"
    using True e fit by (auto simp: overflows_def)
  have w: "wf_conn c" using wfD [OF wf i(2,3)] c(1) by simp
  obtain t d e bs where t: "check_all i s = Some t" "out t = out s @ [e]" "data_on (to_host X) (on_link X) bs e" "bs \<noteq> []" "length bs \<le> 179"
    "connection t = (connection s)(i := d)" "same_writer c d" "unsent c = bs @ pending_bytes d" "all_msgs d = 0"
    "all_bits d = all_bits c - 8 * int (length bs)" "0 \<le> all_bits d" "all_callback d \<in> {None, Some Send_data}"
    "all_callback d = None \<longrightarrow> rfnm_callback d = Some Send_data_now"
    "all_callback d \<noteq> None \<longrightarrow> rfnm_callback d = None \<and> 0 < remaining d" "remaining d \<le> remaining c"
    "hosts t = (hosts s)(to_host X := (hosts s (to_host X))\<lparr>outstanding_rfnm := outstanding_rfnm (hosts s (to_host X)) + 1\<rparr>)"
    using write_sends [OF w i(2,3) c(1) cb(1,7-9,2-6)] by (elim exE conjE, intro that) assumption+
  have "wf_ncp t" using withinD [OF wf_rel.w_check_all t(1)] wf by simp
  moreover have "writer_entry X d" using cb t by (auto simp: writer_entry_def same_writer_def)
  ultimately have "writer_ok X t" using i t(6,9) only_entry_upd [OF i(4) t(6)] by (simp add: writer_ok_def)
  moreover have "flushed X c d bs [e]" using t cb by (simp add: flushed_def) (auto simp: pending_bytes_def)
  ultimately show ?thesis using t(1,2,6,16) by (intro exI [of _ t] exI [of _ d] exI [of _ bs] exI [of _ "[e]"]) simp
next
  case False
  have "check_all i s = Some s"
    using False i c by (auto simp: check_all_def get_def writer_entry_def split: option.split)
  moreover have "writer_ok X s" using wf i c False by (auto simp: writer_ok_def)
  moreover have "flushed X c c [] []" by (simp add: flushed_def same_writer_def)
  ultimately show ?thesis using c(1) by (intro exI [of _ s] exI [of _ c] exI [of _ "[]"]) simp
qed

text \<open>A request to write is queued, and flushed if there is an allocation.\<close>

lemma write_request:
  assumes s: "writer_ok X s" and c: "c = connection s (w_entry X)" "all_callback c = None" "rfnm_callback c = None"
    and bs: "bs \<noteq> []" "length bs \<le> 198"
  shows "if all_msgs c = 1 \<and> 180 \<le> min (int (length bs)) (all_bits c div 8)
    then application (w_app X) (WIRE_WRITE # word_of_int (w_entry X) # bs) s = None
    else \<exists>t c1 d sent es. application (w_app X) (WIRE_WRITE # word_of_int (w_entry X) # bs) s = Some t \<and> out t = out s @ es \<and>
    writer_ok X t \<and> connection t (w_entry X) = d \<and> flushed X c1 d sent es \<and>
    outstanding_rfnm (hosts t (to_host X)) = outstanding_rfnm (hosts s (to_host X)) + int (length es) \<and>
    pending_bytes c1 = bs \<and> has CONN_WRITE c1 \<and> writer c1 = w_app X \<and> wlength c1 = int (length bs) \<and>
    all_msgs c1 = all_msgs c \<and> all_bits c1 = all_bits c \<and> rfnm_callback c1 = None"
proof -
  let ?i = "w_entry X" and ?n = "int (length bs)"
  let ?r = "receive_request (w_app X) (WIRE_WRITE # word_of_int ?i # bs) s"
  note f = s [unfolded writer_ok_def] and e = s [unfolded writer_ok_def writer_entry_def]
  have take: "take APP_CAP (WIRE_WRITE # word_of_int ?i # bs) = WIRE_WRITE # word_of_int ?i # bs" using bs(2) by simp
  have r: "app ?r 0 = WIRE_WRITE" "app ?r 1 = word_of_int ?i" "connection ?r = connection s" "hosts ?r = hosts s" "out ?r = out s"
    "cur_client ?r = w_app X" "get_bytes 2 (length bs) (app ?r) = bs"
    unfolding receive_request_def take
    by (simp_all add: put_bytes_def) (rule nth_equalityI; simp add: get_bytes_def put_bytes_def)
  have ir: "uint (word_of_int ?i :: u8) = ?i" "0 \<le> ?i" "?i < CONNECTIONS" using f by (simp_all add: uint_word_of_int)
  let ?b = "put_bytes 5 bs (buffer c)"
  let ?c1 = "(set_flags CONN_WRITE c)\<lparr>writer := w_app X, all_callback := Some Send_data, all_timeout := Some Send_data_timeout,
     all_time := time_tick s + ALL_TIMEOUT, wlength := ?n, remaining := ?n, ptr := 5, buffer := ?b\<rparr>"
  let ?s1 = "?r\<lparr>connection := (connection s)(?i := ?c1)\<rparr>"
  have oct: "c_div (8 * ?n + 7) 8 = ?n" by (simp add: c_div_pos)
  have bits: "\<not> (?n < 0 \<or> int BUFFER_CAP - 5 < ?n)" using bs(2) by simp
  have mem: "memcpy BUFFER_CAP APP_CAP 5 2 ?n (buffer c) (app ?r) = Some ?b"
    using bs(2) r(7) by (simp add: memcpy_def)
  have tick: "time_tick ?r = time_tick s" by (simp add: receive_request_def)
  have app: "application (w_app X) (WIRE_WRITE # word_of_int ?i # bs) s = check_all ?i ?s1"
    unfolding application_def Let_def take
    using r(1-6) bits ir c(1) mem
    by (simp add: wire_check_def app_write_def when_all_def Let_def oct upd_def get_def set_flags_def tick One_nat_def [symmetric] del: One_nat_def)
  have w: "wf_conn c" using wfD [of s ?i] f c(1) by simp
  have wf: "wf_ncp ?s1"
    unfolding wf_ncp_def
  proof (intro allI impI)
    fix k :: int
    assume k: "0 \<le> k \<and> k < CONNECTIONS"
    have "wf_conn ?c1" using w bs e c by (simp add: wf_defs set_flags_def)
    then show "wf_conn (connection ?s1 k)" using k f by (simp add: wf_ncp_def)
  qed
  have i1: "only_entry (to_host X) ?i ?s1" using f by (simp add: only_entry_def)
  have e1: "?c1 = connection ?s1 ?i" "writer_entry X ?c1"
    using e c bs by (auto simp: writer_entry_def set_flags_def)
  have o: "overflows ?c1 \<longleftrightarrow> all_msgs c = 1 \<and> 180 \<le> min ?n (all_bits c div 8)"
    by (simp add: overflows_def sendable_min set_flags_def)
  show ?thesis
  proof (cases "overflows ?c1")
    case True
    then show ?thesis using writer_fails [OF ir(2,3) e1] app o by simp
  next
    case False
    obtain t d sent es where t: "check_all ?i ?s1 = Some t" "out t = out ?s1 @ es" "writer_ok X t" "connection t ?i = d"
      "flushed X ?c1 d sent es" "outstanding_rfnm (hosts t (to_host X)) = outstanding_rfnm (hosts ?s1 (to_host X)) + int (length es)"
      using writer_flush [OF wf refl ir(2,3) i1 e1 False] by blast
    have "pending_bytes ?c1 = bs" by (simp add: pending_bytes_def unsent_def get_put_bytes_len)
    moreover have "has CONN_WRITE ?c1" by (simp add: has_def set_flags_def bit.conj_disj_distrib2)
    ultimately have "\<exists>t c1 d sent es. application (w_app X) (WIRE_WRITE # word_of_int (w_entry X) # bs) s = Some t \<and> out t = out s @ es \<and>
      writer_ok X t \<and> connection t (w_entry X) = d \<and> flushed X c1 d sent es \<and>
      outstanding_rfnm (hosts t (to_host X)) = outstanding_rfnm (hosts s (to_host X)) + int (length es) \<and>
      pending_bytes c1 = bs \<and> has CONN_WRITE c1 \<and> writer c1 = w_app X \<and> wlength c1 = int (length bs) \<and>
      all_msgs c1 = all_msgs c \<and> all_bits c1 = all_bits c \<and> rfnm_callback c1 = None"
      using app t c r(4,5) by (intro exI [of _ t] exI [of _ ?c1] exI [of _ d] exI [of _ sent] exI [of _ es]) (simp add: set_flags_def)
    then show ?thesis by (subst if_not_P) (use False o in blast)+
  qed
qed

text \<open>An allocation is added, and what waits is flushed.\<close>

lemma writer_link: "writer_ok X s \<Longrightarrow> find_link (uint (to_host X)) (uint (on_link X)) s = w_entry X"
  unfolding find_link_def Let_def by (intro scan_eqI) (auto simp: writer_ok_def writer_entry_def only_entry_def)

lemma allocation_taken:
  assumes s: "writer_ok X s" and c: "c = connection s (w_entry X)" "all_msgs c = 0" and a: "allocates s 10 (on_link X) 1 bits"
    and bits: "8 \<le> uint bits" "all_bits c + uint bits < 2147483648"
  shows "if all_callback c \<noteq> None \<and> 180 \<le> min (remaining c) ((all_bits c + uint bits) div 8)
    then process_all (to_host X) 10 s = None
    else \<exists>t d sent es. process_all (to_host X) 10 s = Some (7, t) \<and> out t = out s @ es \<and> writer_ok X t \<and>
    connection t (w_entry X) = d \<and> flushed X (add_allocation 1 bits c) d sent es \<and>
    outstanding_rfnm (hosts t (to_host X)) = outstanding_rfnm (hosts s (to_host X)) + int (length es) \<and>
    all_bits (add_allocation 1 bits c) = all_bits c + uint bits"
proof -
  let ?i = "w_entry X" and ?c1 = "add_allocation 1 bits c"
  let ?s1 = "s\<lparr>connection := (connection s)(?i := ?c1)\<rparr>"
  note f = s [unfolded writer_ok_def] and e = s [unfolded writer_ok_def writer_entry_def]
  have ir: "0 \<le> ?i" "?i < CONNECTIONS" using f by simp_all
  have sum: "sint (word_of_int (all_bits c) + bits :: u32) = all_bits c + uint bits"
  proof -
    have "0 \<le> all_bits c" using e c by simp
    moreover have "word_of_int (all_bits c) + bits = word_of_int (all_bits c + uint bits)" by simp
    ultimately show ?thesis using bits by (simp only: sint_sbintrunc') (simp add: signed_take_bit_int_eq_self)
  qed
  have w: "wf_conn c" using wfD [of s ?i] f c(1) by simp
  have "host c \<noteq> - 1" using e c u8_not_minus1 [of "to_host X"] by simp
  then have "wf_conn ?c1" using wf_rel.wf_add_allocation w by blast
  then have wf: "wf_ncp ?s1" using f by (simp add: wf_ncp_def)
  have i1: "only_entry (to_host X) ?i ?s1" using f by (simp add: only_entry_def)
  have e1: "?c1 = connection ?s1 ?i" "writer_entry X ?c1"
    using e c sum bits by (auto simp: writer_entry_def add_allocation_def)
  have o: "overflows ?c1 \<longleftrightarrow> all_callback c \<noteq> None \<and> 180 \<le> min (remaining c) ((all_bits c + uint bits) div 8)"
    using c sum by (simp add: overflows_def sendable_min add_allocation_def)
  have run: "process_all (to_host X) 10 s = do { s \<leftarrow> check_all ?i ?s1; Some (7, s) }"
    using a writer_link [OF s] ir c by (simp add: process_all_def args_def allocates_def Let_def get_def upd_def)
  show ?thesis
  proof (cases "overflows ?c1")
    case True
    then show ?thesis using writer_fails [OF ir e1] run o by simp
  next
    case False
    obtain t d sent es where t: "check_all ?i ?s1 = Some t" "out t = out ?s1 @ es" "writer_ok X t" "connection t ?i = d"
      "flushed X ?c1 d sent es" "outstanding_rfnm (hosts t (to_host X)) = outstanding_rfnm (hosts ?s1 (to_host X)) + int (length es)"
      using writer_flush [OF wf refl ir i1 e1 False] by blast
    then have "\<exists>t d sent es. process_all (to_host X) 10 s = Some (7, t) \<and> out t = out s @ es \<and> writer_ok X t \<and>
      connection t ?i = d \<and> flushed X ?c1 d sent es \<and>
      outstanding_rfnm (hosts t (to_host X)) = outstanding_rfnm (hosts s (to_host X)) + int (length es) \<and>
      all_bits ?c1 = all_bits c + uint bits"
      using run sum by (intro exI [of _ t] exI [of _ d] exI [of _ sent] exI [of _ es]) (simp add: add_allocation_def)
    then show ?thesis by (subst if_not_P) (use False o in blast)+
  qed
qed

text \<open>The RFNM of the last piece answers the writer; any other one is only counted.\<close>

definition write_reply :: "client_t \<Rightarrow> int \<Rightarrow> nat \<Rightarrow> effect" where
  "write_reply a i n = To_app a [WIRE_WRITE + 1, word_of_int i, 0, word_of_nat n]"

lemma writer_rfnm:
  assumes s: "writer_ok X s" and c: "c = connection s (w_entry X)" and few: "outstanding_rfnm (hosts s (to_host X)) \<le> 4"
    and n: "wlength c = int n" "n \<le> 198" and a: "writer c = w_app X"
  shows "\<exists>t d es. process_imp 2 (s\<lparr>packet := rfnm_packet (to_host X)\<rparr>) = Some t \<and> writer_ok X t \<and>
    outstanding_rfnm (hosts t (to_host X)) = outstanding_rfnm (hosts s (to_host X)) - 1 \<and> out t = out s @ es \<and>
    d = connection t (w_entry X) \<and> all_callback d = all_callback c \<and> unsent d = unsent c \<and>
    all_msgs d = all_msgs c \<and> all_bits d = all_bits c \<and> rfnm_callback d = None \<and>
    (if rfnm_callback c = None then es = [] \<and> d = c
     else es = [write_reply (w_app X) (w_entry X) n] \<and> \<not> has CONN_WRITE d)"
proof -
  let ?i = "w_entry X" and ?h = "uint (to_host X)" and ?s = "counted (to_host X) s"
  note f = s [unfolded writer_ok_def] and e = s [unfolded writer_ok_def writer_entry_def]
  have i: "0 \<le> ?i" "?i < CONNECTIONS" using f by simp_all
  have only: "host (connection s k) \<noteq> ?h" if "0 \<le> k" "k < CONNECTIONS" "k \<noteq> ?i" for k
    using f that by (auto simp: only_entry_def)
  have run: "process_imp 2 (s\<lparr>packet := rfnm_packet (to_host X)\<rparr>) = check_rfnm ?h ?s"
    by (simp add: process_imp_def process_rfnm_def rfnm_packet_def counted_def Let_def)
  show ?thesis
  proof (cases "rfnm_callback c")
    case None
    then have "idle ?h [0..CONNECTIONS - 1] ?s" using only c by (fastforce simp: idle_def)
    then have "check_rfnm ?h ?s = Some ?s" unfolding check_rfnm_def by (rule loop_idle)
    moreover have "writer_ok X ?s" using s by (simp add: writer_ok_def only_entry_def)
    ultimately show ?thesis using run None c by (intro exI [of _ ?s] exI [of _ c] exI [of _ "[]"]) simp
  next
    case (Some cb)
    then have cb: "cb = Send_data_now" using e c by auto
    let ?d = "clear_flags CONN_WRITE (dequeued c)"
    let ?t = "?s\<lparr>connection := (connection s)(?i := ?d), out := out s @ [write_reply (w_app X) ?i n]\<rparr>"
    have w: "ucast (drop_bit 8 (word_of_nat n :: u16)) = (0 :: u8)" "ucast (word_of_nat n :: u16) = (word_of_nat n :: u8)"
      using n(2) by (simp_all add: drop_bit_eq_div word_unat_eq_iff unsigned_ucast_eq unat_div unsigned_of_nat take_bit_eq_mod)
    have u: "uint (word_of_int ?i :: u8) = ?i" using i by (simp add: uint_word_of_int)
    have now: "call m cb ?i (?s\<lparr>connection := (connection ?s)(?i := dequeued (connection ?s ?i))\<rparr>) = Some ?t" for m
      using i u n(1) a c by (simp add: cb send_data_now_def get_def reply_write_def upd_def deliver_def write_reply_def w
          dequeued_def clear_flags_def)
    have idle: "idle ?h [0..?i - 1] ?s" "idle ?h [?i + 1..CONNECTIONS - 1] ?t" using only i by (auto simp: idle_def)
    have "check_rfnm ?h ?s = Some ?t"
      unfolding check_rfnm_def table_split [OF i] eval_nat_numeral
      by (subst loop_hit [OF idle(1) i _ _ , of cb])
        (use e c Some few now idle(2) in \<open>simp_all add: loop_idle del: call.simps upto.simps\<close>)
    moreover have "writer_ok X ?t"
    proof -
      have "wf_conn c" using wfD [of s ?i] f c by simp
      then have "wf_ncp ?t" using f by (simp add: wf_ncp_def) (simp add: wf_defs dequeued_def)
      then show ?thesis using e c by (auto simp: writer_ok_def writer_entry_def only_entry_def clear_flags_def dequeued_def)
    qed
    ultimately show ?thesis
      using run Some c by (intro exI [of _ ?t] exI [of _ ?d] exI [of _ "[write_reply (w_app X) ?i n]"])
        (simp add: clear_flags_def dequeued_def unsent_def has_def and.assoc)
  qed
qed

section \<open>The side that reads\<close>

definition reader_ok :: "stream \<Rightarrow> ncp \<Rightarrow> bool" where
  "reader_ok X s \<longleftrightarrow> wf_ncp s \<and> 0 \<le> r_entry X \<and> r_entry X < CONNECTIONS \<and> only_entry (from_host X) (r_entry X) s \<and>
     (let c = connection s (r_entry X) in host c = uint (from_host X) \<and> link (rcv c) = uint (on_link X) \<and> bsize (rcv c) = 8 \<and>
        rfnm_callback c = None \<and> \<not> has CONN_CLIENT c)"

definition read_reply :: "client_t \<Rightarrow> int \<Rightarrow> u8 list \<Rightarrow> effect" where
  "read_reply a j bs = To_app a ([WIRE_READ + 1, word_of_int j] @ bs)"

lemma read_request:
  assumes s: "reader_ok X s"
  shows "\<exists>t e. application (r_app X) [WIRE_READ, word_of_int (r_entry X), n] s = Some t \<and> out t = out s @ [e] \<and>
    control (from_host X) NCP_ALL ([on_link X, 0, 1] @ bytes_of (8 * ucast n)) e \<and> reader_ok X t \<and>
    has CONN_READ (connection t (r_entry X)) \<and> reader (connection t (r_entry X)) = r_app X \<and>
    outstanding_rfnm (hosts t (from_host X)) = outstanding_rfnm (hosts s (from_host X)) + 1"
proof -
  let ?j = "r_entry X" and ?r = "receive_request (r_app X) [WIRE_READ, word_of_int (r_entry X), n] s"
  note f = s [unfolded reader_ok_def Let_def]
  let ?c = "(set_flags CONN_READ (connection s ?j))\<lparr>reader := r_app X\<rparr>"
  let ?s1 = "?r\<lparr>connection := (connection s)(?j := ?c)\<rparr>"
  have r: "app ?r 0 = WIRE_READ" "app ?r 1 = word_of_int ?j" "app ?r 2 = n" "connection ?r = connection s" "hosts ?r = hosts s"
    "out ?r = out s" "cur_client ?r = r_app X"
    by (simp_all add: receive_request_def put_bytes_def)
  have j: "uint (word_of_int ?j :: u8) = ?j" "0 \<le> ?j" "?j < CONNECTIONS" using f by (simp_all add: uint_word_of_int)
  have c: "word_of_int (host ?c) = from_host X" "word_of_int (link (rcv ?c)) = on_link X" using f by (simp_all add: set_flags_def)
  obtain t where t: "ncp_all (from_host X) (on_link X) 1 (8 * ucast n) ?s1 = Some t"
    "sends (from_host X) NCP_ALL ([on_link X, ucast (drop_bit 8 (1 :: u16)), ucast (1 :: u16)] @ bytes_of (8 * ucast n)) ?s1 t"
    using commands_send(4) by blast
  have run: "application (r_app X) [WIRE_READ, word_of_int ?j, n] s = Some t"
    using r j c t(1) by (simp add: application_def wire_check_def app_read_def Let_def upd_def get_def One_nat_def [symmetric] del: One_nat_def)
  have "wf_ncp t" using withinD [OF wf_rel.w_application run] f by simp
  moreover have "connection t = (connection s)(?j := ?c)" using t(2) by (simp add: sends_def)
  ultimately have "reader_ok X t" "has CONN_READ (connection t ?j)" "reader (connection t ?j) = r_app X"
    using f by (auto simp: reader_ok_def Let_def only_entry_def set_flags_def has_def bit.conj_disj_distrib2)
  then show ?thesis using run t(2) r by (auto simp: sends_def)
qed

lemma data_read:
  assumes s: "reader_ok X s" and l: "on_link X \<noteq> 0" and a: "reader (connection s (r_entry X)) = r_app X"
    and m: "data_on (to_host X) (on_link X) bs (To_imp d)" "carried (from_host X) d p" "2 \<le> n" and bs: "length bs \<le> 179"
  shows "\<exists>t. process_imp n (s\<lparr>packet := p\<rparr>) = Some t \<and> out t = out s @ [read_reply (r_app X) (r_entry X) bs] \<and> reader_ok X t \<and>
    \<not> has CONN_READ (connection t (r_entry X)) \<and> hosts t = hosts s"
proof -
  let ?j = "r_entry X" and ?s = "s\<lparr>packet := p\<rparr>" and ?l = "[0, to_host X, on_link X, 0, 0, 8, 0, word_of_nat (length bs), 0] @ bs"
  note f = s [unfolded reader_ok_def Let_def]
  have d: "take (9 + length bs) (drop 12 d) = ?l" using m(1) by (simp add: data_on_def)
  then have "length (take (9 + length bs) (drop 12 d)) = length ?l" by simp
  then have len: "21 + length bs \<le> length d" by simp
  have n: "p k = ?l ! k" if "k < 9 + length bs" "k \<noteq> 1" for k
  proof -
    have "p k = d ! (12 + k)" using m(2) that len by (simp add: carried_def)
    also have "\<dots> = take (9 + length bs) (drop 12 d) ! k" using that len by simp
    finally show ?thesis by (simp only: d)
  qed
  have p: "packet ?s 0 = 0" "packet ?s 1 = from_host X" "packet ?s 2 = on_link X" "packet ?s 5 = 8" "packet ?s 6 = 0"
    "packet ?s 7 = word_of_nat (length bs)"
    using n [of 0] n [of 2] n [of 5] n [of 6] n [of 7] m(2) by (simp_all add: carried_def)
  have bytes: "get_bytes 9 (length bs) (packet ?s) = bs"
    by (rule nth_equalityI) (simp_all add: get_bytes_def n nth_append)
  have count: "length bs = unat (push_bit 8 (ucast (packet ?s 6)) OR ucast (packet ?s 7) :: u16)"
    using bs by (simp only: p) (simp add: unsigned_ucast_eq unsigned_of_nat take_bit_eq_mod)
  have look: "?j = find_link (uint (packet ?s 1)) (uint (packet ?s 2)) ?s"
    unfolding p find_link_def Let_def by (rule sym, rule scan_eqI) (use f in \<open>auto simp: only_entry_def\<close>)
  have ne: "packet ?s 2 \<noteq> 0" "?j \<noteq> - 1" using l p f by auto
  have c: "bsize (rcv (connection ?s ?j)) = uint (packet ?s 5)" "\<not> has CONN_CLIENT (connection ?s ?j)" using f p by simp_all
  have "process_regular ?s = Some (?s\<lparr>connection := (connection s)(?j := clear_flags CONN_READ (connection s ?j)),
      out := out s @ [read_reply (r_app X) ?j bs]\<rparr>)"
    using data_reply [OF ne(1) look ne(2) refl c count] bs a bytes by (simp add: read_reply_def)
  moreover have "process_imp n ?s = process_regular ?s" using p(1) m(3) by (simp add: process_imp_def Let_def)
  ultimately obtain t where t: "process_imp n ?s = Some t" "t = ?s\<lparr>connection := (connection s)(?j := clear_flags CONN_READ (connection s ?j)),
      out := out s @ [read_reply (r_app X) ?j bs]\<rparr>" by simp
  have "wf_ncp t" using withinD [OF wf_rel.w_process_imp t(1)] f by simp
  then show ?thesis
    using t f by (auto simp: reader_ok_def Let_def only_entry_def clear_flags_def has_def and.assoc)
qed

section \<open>Too many allocations\<close>

text \<open>
  C26. Allocations add up, and run over. Every read allocates the bits of the longest reply, and what the data does not use
  is never taken back. When the sum reaches 2^31, the ALL that brings room for a message makes the
  number of bits negative: nothing is sent, and data that waits goes on waiting, although a message and bits are allocated.
\<close>

theorem allocation_wraps:
  assumes i: "find_link (uint h) (uint l) s = i" "i \<noteq> - 1" and c: "c = connection s i" and a: "allocates s off l 1 bits"
    and b: "0 \<le> all_bits c" "2 ^ 31 \<le> all_bits c + uint bits" "all_bits c + uint bits < 2 ^ 32" and m: "all_msgs c = 0"
  shows "process_all h off s = Some (7, s\<lparr>connection := (connection s)(i := add_allocation 1 bits c)\<rparr>) \<and>
    all_msgs (add_allocation 1 bits c) = 1 \<and> all_bits (add_allocation 1 bits c) < 0 \<and>
    all_callback (add_allocation 1 bits c) = all_callback c \<and> unsent (add_allocation 1 bits c) = unsent c"
proof -
  let ?d = "add_allocation 1 bits c" and ?t = "s\<lparr>connection := (connection s)(i := add_allocation 1 bits c)\<rparr>"
  have ir: "0 \<le> i" "i < CONNECTIONS" using i scan_hit unfolding find_link_def Let_def by blast+
  define K where "K = all_bits c + uint bits"
  have K: "2 ^ 31 \<le> K" "K < 2 ^ 32" using b(2,3) by (simp_all add: K_def)
  have "K div 2 ^ 31 = 1" using K by (simp add: int_div_pos_eq [of _ _ 1 "K - 2 ^ 31"])
  then have "bit K 31" by (simp add: bit_iff_odd)
  then have "signed_take_bit 31 K < 0" by (simp add: signed_take_bit_negative_iff)
  moreover have "word_of_int (all_bits c) + bits = word_of_int K" by (simp add: K_def)
  ultimately have "sint (word_of_int (all_bits c) + bits) < 0" by (simp only: sint_sbintrunc') simp
  then have neg: "all_bits ?d < 0" by (simp add: add_allocation_def)
  have "check_all i ?t = Some ?t"
    using ir neg by (simp add: check_all_def get_def split: option.split)
  then have "process_all h off s = Some (7, ?t)"
    using a i ir c m by (simp add: process_all_def args_def allocates_def Let_def get_def upd_def)
  then show ?thesis using neg m by (simp add: add_allocation_def unsent_def)
qed

text \<open>A connection with almost 2^31 bits left over, on which three bytes wait, and an ALL for a read of 255 bytes.\<close>

definition much_left_ncp :: ncp where
  "much_left_ncp = empty_ncp\<lparr>connection := (\<lambda>_. destroy_conn zero_conn)(4 := established\<lparr>all_bits := 2147483640,
     all_callback := Some Send_data, ptr := 5, wlength := 3, remaining := 3\<rparr>),
     packet := put_bytes 10 [46, 0, 1, 0, 0, 7, 248] (\<lambda>_. 0)\<rparr>"

theorem allocation_wraps_witness:
  "\<exists>t. process_all 5 10 much_left_ncp = Some (7, t) \<and> all_bits (connection t 4) < 0 \<and> all_callback (connection t 4) = Some Send_data \<and>
     length (unsent (connection t 4)) = 3 \<and> out t = []"
proof -
  let ?c = "connection much_left_ncp 4"
  have i: "find_link (uint (5 :: u8)) (uint (46 :: u8)) much_left_ncp = 4"
    unfolding find_link_def Let_def by (rule scan_eqI) (simp_all add: much_left_ncp_def established_def destroy_conn_def)
  have c: "all_bits ?c = 2147483640" "all_msgs ?c = 0" "all_callback ?c = Some Send_data" "length (unsent ?c) = 3"
    by (simp_all add: much_left_ncp_def established_def zero_conn_def unsent_def)
  have "word_of_bytes 0 0 7 248 = (2040 :: u32)" by (simp add: word_of_bytes_def)
  then have a: "allocates much_left_ncp 10 46 1 2040"
    by (simp add: allocates_def much_left_ncp_def put_bytes_def)
  have b: "0 \<le> all_bits ?c" "2 ^ 31 \<le> all_bits ?c + uint (2040 :: u32)" "all_bits ?c + uint (2040 :: u32) < 2 ^ 32"
    by (simp_all add: c)
  have o: "out much_left_ncp = []" by (simp add: much_left_ncp_def empty_ncp_def zero_ncp_def)
  have "(4 :: int) \<noteq> - 1" by simp
  from allocation_wraps [OF i this refl a b c(2)] show ?thesis using c o by auto
qed

end
