(* ===== verification/Ncp_Transfer.thy ===== *)
theory Ncp_Transfer
  imports Ncp_Stream
begin

text \<open>
  Two daemons with an open connection between them, an application that writes at one end and one that reads at the other:
  every order of requests and deliveries. The abstract view is a queue of bytes, which loses, doubles and reorders nothing.
\<close>

section \<open>The events\<close>

datatype stream_event = Wr "u8 list" | Rd u8 | At_a | At_b

text \<open>Each application waits for the reply to a request before it makes the next one, as the library does.\<close>

definition allowed :: "stream \<Rightarrow> stream_event \<Rightarrow> net \<Rightarrow> bool" where
  "allowed X e N \<longleftrightarrow> (case e of
     Wr bs \<Rightarrow> bs \<noteq> [] \<and> \<not> has CONN_WRITE (connection (host_a N) (w_entry X))
   | Rd n \<Rightarrow> n \<noteq> 0 \<and> \<not> has CONN_READ (connection (host_b N) (r_entry X))
   | At_a \<Rightarrow> to_a N \<noteq> []
   | At_b \<Rightarrow> to_b N \<noteq> [])"

definition do_event :: "stream \<Rightarrow> stream_event \<Rightarrow> net \<Rightarrow> net option" where
  "do_event X e N = (case e of
     Wr bs \<Rightarrow> do { a \<leftarrow> application (w_app X) (WIRE_WRITE # word_of_int (w_entry X) # bs) (host_a N);
       Some (N\<lparr>host_a := a, to_b := to_b N @ mail (to_host X) (host_a N) a\<rparr>) }
   | Rd n \<Rightarrow> do { b \<leftarrow> application (r_app X) [WIRE_READ, word_of_int (r_entry X), n] (host_b N);
       Some (N\<lparr>host_b := b, to_a := to_a N @ mail (from_host X) (host_b N) b\<rparr>) }
   | At_a \<Rightarrow> deliver_a (from_host X) (to_host X) N
   | At_b \<Rightarrow> deliver_b (from_host X) (to_host X) N)"

inductive stream_run :: "stream \<Rightarrow> stream_event list \<Rightarrow> net \<Rightarrow> net \<Rightarrow> bool" for X where
  nothing: "stream_run X [] N N"
| event: "stream_run X es N M \<Longrightarrow> allowed X e M \<Longrightarrow> do_event X e M = Some L \<Longrightarrow> stream_run X (es @ [e]) N L"

text \<open>
  What has been written, request by request, how many bits have been asked for, and in how many reads. Of a longer
  request the daemon receives 198 bytes of data, and says so in its reply.
\<close>

definition written :: "stream_event list \<Rightarrow> u8 list list" where
  "written es = concat (map (\<lambda>e. case e of Wr bs \<Rightarrow> [take 198 bs] | _ \<Rightarrow> []) es)"

definition asked_bits :: "stream_event list \<Rightarrow> int" where
  "asked_bits es = sum_list (map (\<lambda>e. case e of Rd n \<Rightarrow> 8 * uint n | _ \<Rightarrow> 0) es)"

definition reads :: "stream_event list \<Rightarrow> nat" where
  "reads es = length (filter (\<lambda>e. case e of Rd n \<Rightarrow> True | _ \<Rightarrow> False) es)"

lemma reads_snoc [simp]:
  "reads [] = 0" "reads (es @ [Wr bs]) = reads es" "reads (es @ [Rd n]) = reads es + 1"
  "reads (es @ [At_a]) = reads es" "reads (es @ [At_b]) = reads es"
  by (simp_all add: reads_def)

lemma written_snoc [simp]:
  "written [] = []" "written (es @ [Wr bs]) = written es @ [take 198 bs]" "written (es @ [Rd n]) = written es"
  "written (es @ [At_a]) = written es" "written (es @ [At_b]) = written es"
  by (simp_all add: written_def)

lemma asked_snoc [simp]:
  "asked_bits [] = 0" "asked_bits (es @ [Wr bs]) = asked_bits es" "asked_bits (es @ [Rd n]) = asked_bits es + 8 * uint n"
  "asked_bits (es @ [At_a]) = asked_bits es" "asked_bits (es @ [At_b]) = asked_bits es"
  by (simp_all add: asked_bits_def)

text \<open>
  The daemon of the writer fails when the next piece would have 180 bytes or more. \<open>cs\<close> is what has been read, in its pieces:
  a request is sent at once if a read waits for it, and an allocation sends what has been written and not read;
  the limit is what has been asked for and not delivered.
\<close>

definition still_asked :: "stream_event list \<Rightarrow> u8 list list \<Rightarrow> int" where
  "still_asked es cs = (asked_bits es - 8 * int (length (concat cs))) div 8"

definition too_long :: "stream \<Rightarrow> stream_event list \<Rightarrow> u8 list list \<Rightarrow> stream_event \<Rightarrow> net \<Rightarrow> bool" where
  "too_long X es cs e N \<longleftrightarrow> (case e of
     Wr bs \<Rightarrow> has CONN_READ (connection (host_b N) (r_entry X)) \<and> to_a N = [] \<and>
       180 \<le> min (int (length (take 198 bs))) (still_asked es cs)
   | At_a \<Rightarrow> 180 \<le> min (int (length (concat (written es))) - int (length (concat cs))) (still_asked es cs)
   | _ \<Rightarrow> False)"

section \<open>The invariant\<close>

text \<open>
  A read in its four phases: nobody reads, the allocation is under way, it has arrived and nothing is written, the data is
  under way. \<open>k\<close> is the number of bits that have been asked for and not used, the last argument what is under way.
\<close>

inductive stream_phase :: "stream \<Rightarrow> int \<Rightarrow> conn \<Rightarrow> bool \<Rightarrow> u8 list list \<Rightarrow> u8 list list \<Rightarrow> u8 list \<Rightarrow> bool" for X k c where
  at_rest: "all_bits c = k \<Longrightarrow> all_msgs c = 0 \<Longrightarrow> rfnm_callback c = None \<Longrightarrow> stream_phase X k c False [] [] []"
| wanted: "control (from_host X) NCP_ALL ([on_link X, 0, 1] @ bytes_of bits) (To_imp a) \<Longrightarrow> 8 \<le> uint bits \<Longrightarrow>
    all_bits c + uint bits = k \<Longrightarrow> all_msgs c = 0 \<Longrightarrow> rfnm_callback c = None \<Longrightarrow> stream_phase X k c True [a] [] []"
| granted: "all_bits c = k \<Longrightarrow> all_msgs c = 1 \<Longrightarrow> all_callback c = None \<Longrightarrow> rfnm_callback c = None \<Longrightarrow> stream_phase X k c True [] [] []"
| flying: "all_bits c = k \<Longrightarrow> data_on (to_host X) (on_link X) bs (To_imp b) \<Longrightarrow> bs \<noteq> [] \<Longrightarrow> length bs \<le> 179 \<Longrightarrow> all_msgs c = 0 \<Longrightarrow>
    (rfnm_callback c = None \<longleftrightarrow> all_callback c \<noteq> None) \<Longrightarrow> stream_phase X k c True [] [b] bs"

inductive_cases phase_read: "stream_phase X k c rd [a] tb bs"
inductive_cases phase_data: "stream_phase X k c rd ta [b] bs"
inductive_cases phase_idle: "stream_phase X k c False ta tb bs"

definition write_state :: "stream \<Rightarrow> u8 list list \<Rightarrow> effect list \<Rightarrow> ncp \<Rightarrow> bool" where
  "write_state X ws before s \<longleftrightarrow> writer_ok X s \<and> (let c = connection s (w_entry X) in
     replies s = before @ map (\<lambda>bs. write_reply (w_app X) (w_entry X) (length bs)) (if has CONN_WRITE c then butlast ws else ws) \<and>
     (has CONN_WRITE c \<longleftrightarrow> all_callback c \<noteq> None \<or> rfnm_callback c \<noteq> None) \<and>
     (has CONN_WRITE c \<longrightarrow> ws \<noteq> [] \<and> writer c = w_app X \<and> wlength c = int (length (last ws)) \<and> length (last ws) \<le> 198))"

definition read_state :: "stream \<Rightarrow> u8 list list \<Rightarrow> effect list \<Rightarrow> ncp \<Rightarrow> bool" where
  "read_state X cs before s \<longleftrightarrow> reader_ok X s \<and> (let d = connection s (r_entry X) in
     replies s = before @ map (read_reply (r_app X) (r_entry X)) cs \<and> (has CONN_READ d \<longrightarrow> reader d = r_app X))"

definition stream_inv :: "stream \<Rightarrow> effect list \<Rightarrow> effect list \<Rightarrow> stream_event list \<Rightarrow> u8 list list \<Rightarrow> net \<Rightarrow> bool" where
  "stream_inv X ra rb es cs N \<longleftrightarrow> write_state X (written es) ra (host_a N) \<and> read_state X cs rb (host_b N) \<and>
     outstanding_rfnm (hosts (host_a N) (to_host X)) = int (length (to_b N)) \<and>
     outstanding_rfnm (hosts (host_b N) (from_host X)) = int (length (to_a N)) \<and>
     [] \<notin> set cs \<and>
     length cs + (if has CONN_READ (connection (host_b N) (r_entry X)) then 1 else 0) = reads es \<and>
     (\<exists>bs. concat (written es) = concat cs @ bs @ pending_bytes (connection (host_a N) (w_entry X)) \<and>
        stream_phase X (asked_bits es - 8 * int (length (concat cs @ bs))) (connection (host_a N) (w_entry X)) (has CONN_READ (connection (host_b N) (r_entry X)))
          (to_a N) (to_b N) bs)"

section \<open>Each event keeps it\<close>

lemma data_regular:
  assumes "data_on h l bs e" "bs \<noteq> []"
  shows "regular h e"
proof -
  obtain d where "e = To_imp d" "take (9 + length bs) (drop 12 d) = [0, h, l, 0, 0, 8, 0, word_of_nat (length bs), 0] @ bs"
    using assms(1) by (auto simp: data_on_def)
  moreover have "10 \<le> 9 + length bs" using assms(2) by (cases bs) simp_all
  ultimately show ?thesis by (auto intro: regular_front)
qed

lemma length_pending: "pending_bytes c = (if all_callback c = None then [] else unsent c)" "length (unsent c) = nat (remaining c)"
  by (simp_all add: pending_bytes_def unsent_def)

lemma pending_empty:
  assumes "writer_entry X c"
  shows "pending_bytes c = [] \<longleftrightarrow> all_callback c = None"
proof -
  have "length (unsent c) = nat (remaining c)" by (simp add: unsent_def)
  then have "unsent c \<noteq> []" if "all_callback c \<noteq> None" using assms that by (auto simp: writer_entry_def)
  then show ?thesis by (auto simp: pending_bytes_def)
qed

text \<open>After a flush: nothing was sent and the entry is as before, or the data is under way.\<close>

lemma flush_sends:
  assumes f: "flushed X c d bs es" and o: "out t = out s @ es" and k: "all_bits c = k"
  shows "replies t = replies s" "bs = [] \<Longrightarrow> d = c \<and> es = [] \<and> mail (to_host X) s t = []"
    "bs \<noteq> [] \<Longrightarrow> \<exists>b. mail (to_host X) s t = [b] \<and> length es = 1 \<and> stream_phase X (k - 8 * int (length bs)) d True [] [b] bs \<and> all_msgs c = 1"
proof -
  have e: "\<exists>e. es = [e] \<and> data_on (to_host X) (on_link X) bs e" if "bs \<noteq> []" using f that by (simp add: flushed_def)
  show "replies t = replies s"
  proof (cases "bs = []")
    case True
    then show ?thesis using f o by (simp add: flushed_def replies_def)
  next
    case False
    then obtain e where "es = [e]" "regular (to_host X) e" using e data_regular by blast
    then show ?thesis using o sent_message(3) by blast
  qed
  show "bs = [] \<Longrightarrow> d = c \<and> es = [] \<and> mail (to_host X) s t = []" using f o by (simp add: flushed_def mail_of)
  show "\<exists>b. mail (to_host X) s t = [b] \<and> length es = 1 \<and> stream_phase X (k - 8 * int (length bs)) d True [] [b] bs \<and> all_msgs c = 1" if bs: "bs \<noteq> []"
  proof -
    obtain x where x: "es = [x]" "data_on (to_host X) (on_link X) bs x" using e bs by blast
    note r = data_regular [OF x(2) bs]
    have m: "mail (to_host X) s t = [imp_bytes x]" "To_imp (imp_bytes x) = x" using sent_message(1,2) [OF _ r] o x(1) by blast+
    have "length bs \<le> 179" using f bs by (simp add: flushed_def)
    then have "stream_phase X (k - 8 * int (length bs)) d True [] [imp_bytes x] bs"
      using f bs x(2) m(2) k by (intro flying) (simp_all add: flushed_def)
    then show ?thesis using m x(1) f bs by (simp add: flushed_def)
  qed
qed

lemma phase_unchanged:
  assumes "stream_phase X k c rd ta tb []" "all_msgs d = all_msgs c" "all_bits d = all_bits c" "rfnm_callback d = rfnm_callback c"
    "all_msgs d \<noteq> 1"
  shows "stream_phase X k d rd ta tb []"
  using assms(1)
proof cases
  case at_rest
  then show ?thesis using assms stream_phase.at_rest by simp
next
  case (wanted bits a)
  then show ?thesis using assms stream_phase.wanted [of X bits a d k] by simp
qed (use assms in simp_all)

text \<open>What is asked for and not used, as the entry of the writer has it.\<close>

lemma phase_asked: "stream_phase X k c rd ta tb bs \<Longrightarrow> ta = [] \<Longrightarrow> all_bits c = k"
  by (auto elim: stream_phase.cases)

lemma application_cut: "application a (x # y # bs) s = application a (x # y # take 198 bs) s"
  by (simp add: application_def receive_request_def min_def)

lemma inv_write:
  assumes s: "stream_inv X ra rb es cs N" and e: "allowed X (Wr ws) N"
  shows "if too_long X es cs (Wr ws) N then do_event X (Wr ws) N = None
    else \<exists>M. do_event X (Wr ws) N = Some M \<and> stream_inv X ra rb (es @ [Wr ws]) cs M"
proof -
  let ?s = "host_a N" and ?i = "w_entry X" and ?rd = "has CONN_READ (connection (host_b N) (r_entry X))" and ?ws = "take 198 ws"
  define c where "c = connection ?s ?i"
  define k where "k = asked_bits es - 8 * int (length (concat cs))"
  obtain bs where f: "write_state X (written es) ra ?s" "read_state X cs rb (host_b N)"
    "outstanding_rfnm (hosts ?s (to_host X)) = int (length (to_b N))"
    "outstanding_rfnm (hosts (host_b N) (from_host X)) = int (length (to_a N))"
    "[] \<notin> set cs" "concat (written es) = concat cs @ bs @ pending_bytes c"
    "stream_phase X (asked_bits es - 8 * int (length (concat cs @ bs))) c ?rd (to_a N) (to_b N) bs"
    "length cs + (if ?rd then 1 else 0) = reads es"
    using s unfolding stream_inv_def c_def by blast
  have w: "writer_ok X ?s" "all_callback c = None" "rfnm_callback c = None" "replies ?s = ra @ map (\<lambda>bs. write_reply (w_app X) ?i (length bs)) (written es)"
    using f(1) e by (auto simp: write_state_def allowed_def Let_def c_def)
  have l: "?ws \<noteq> []" "length ?ws \<le> 198" using e by (simp_all add: allowed_def)
  have p: "pending_bytes c = []" using w(2) by (simp add: pending_bytes_def)
  have quiet: "to_b N = []" "bs = []" using f(7) w(2,3) by (auto elim: stream_phase.cases)
  have ph: "stream_phase X k c ?rd (to_a N) [] []" using f(7) quiet by (simp add: k_def)
  have granted: "all_msgs c = 1 \<longleftrightarrow> ?rd \<and> to_a N = []" using ph by cases auto
  have room: "all_bits c div 8 = still_asked es cs" if "all_msgs c = 1"
    using phase_asked [OF ph] granted that by (simp add: still_asked_def k_def)
  have long: "all_msgs c = 1 \<and> 180 \<le> min (int (length ?ws)) (all_bits c div 8) \<longleftrightarrow> too_long X es cs (Wr ws) N"
    using granted room by (auto simp: too_long_def)
  note req = write_request [OF w(1) c_def w(2,3) l, folded application_cut, unfolded long]
  show ?thesis
  proof (cases "too_long X es cs (Wr ws) N")
    case True
    then show ?thesis using req by (simp add: do_event_def)
  next
    case False
    then obtain t c1 d sent xs where t: "application (w_app X) (WIRE_WRITE # word_of_int ?i # ws) ?s = Some t" "out t = out ?s @ xs"
      "writer_ok X t" "connection t ?i = d" "flushed X c1 d sent xs"
      "outstanding_rfnm (hosts t (to_host X)) = outstanding_rfnm (hosts ?s (to_host X)) + int (length xs)"
      "pending_bytes c1 = ?ws" "has CONN_WRITE c1" "writer c1 = w_app X" "wlength c1 = int (length ?ws)"
      "all_msgs c1 = all_msgs c" "all_bits c1 = all_bits c" "rfnm_callback c1 = None"
      using req unfolding if_not_P [OF False] by blast
    note sends = flush_sends [OF t(5,2) t(12)]
    let ?M = "N\<lparr>host_a := t, to_b := to_b N @ mail (to_host X) ?s t\<rparr>"
    have same: "flags d = flags c1" "writer d = writer c1" "wlength d = wlength c1" "?ws = sent @ pending_bytes d"
      using t(5,7) by (simp_all add: flushed_def same_writer_def)
    have cb: "all_callback c1 \<noteq> None" using t(7) l(1) by (cases "all_callback c1") (simp_all add: pending_bytes_def)
    have "write_state X (written (es @ [Wr ws])) ra t"
    proof -
      have "all_callback d \<noteq> None \<or> rfnm_callback d \<noteq> None" using t(5) cb by (auto simp: flushed_def split: if_splits)
      then show ?thesis using t(3,4,8-10) w(4) sends(1) same l by (simp add: write_state_def Let_def has_def)
    qed
    moreover have "\<exists>bs'. concat (written es) @ ?ws = concat cs @ bs' @ pending_bytes d \<and>
        stream_phase X (asked_bits es - 8 * int (length (concat cs @ bs'))) d ?rd (to_a N) (to_b N @ mail (to_host X) ?s t) bs' \<and>
        length (to_b N @ mail (to_host X) ?s t) = length xs"
    proof (cases "sent = []")
      case True
      have "d = c1" "xs = []" "mail (to_host X) ?s t = []" using sends(2) True by simp_all
      moreover have "all_msgs c1 \<noteq> 1" using t(3,4) cb \<open>d = c1\<close> by (simp add: writer_ok_def)
      ultimately show ?thesis
        using f(6) p quiet t(7,11-13) w(3) phase_unchanged [OF ph, of c1] by (intro exI [of _ "[]"]) (simp add: k_def)
    next
      case False
      then obtain b where b: "mail (to_host X) ?s t = [b]" "length xs = 1"
        "stream_phase X (all_bits c - 8 * int (length sent)) d True [] [b] sent" "all_msgs c1 = 1"
        using sends(3) by blast
      then have g: "?rd" "to_a N = []" using granted t(11) by simp_all
      then have eq: "all_bits c - 8 * int (length sent) = asked_bits es - 8 * int (length (concat cs @ sent))"
        using phase_asked [OF ph] by (simp add: k_def)
      show ?thesis using b(1,2) b(3) [unfolded eq] g f(6) p quiet same(4) by (intro exI [of _ sent]) simp
    qed
    ultimately have "stream_inv X ra rb (es @ [Wr ws]) cs ?M"
      using f(2-5,8) t(4,6) quiet by (auto simp: stream_inv_def)
    then show ?thesis using t(1) False by (simp add: do_event_def)
  qed
qed

lemma inv_read:
  assumes s: "stream_inv X ra rb es cs N" and e: "allowed X (Rd n) N"
  shows "\<exists>M. do_event X (Rd n) N = Some M \<and> stream_inv X ra rb (es @ [Rd n]) cs M"
proof -
  let ?s = "host_b N" and ?j = "r_entry X" and ?c = "connection (host_a N) (w_entry X)"
  obtain bs where f: "write_state X (written es) ra (host_a N)" "read_state X cs rb ?s"
    "outstanding_rfnm (hosts (host_a N) (to_host X)) = int (length (to_b N))"
    "outstanding_rfnm (hosts ?s (from_host X)) = int (length (to_a N))"
    "[] \<notin> set cs" "concat (written es) = concat cs @ bs @ pending_bytes ?c"
    "stream_phase X (asked_bits es - 8 * int (length (concat cs @ bs))) ?c False (to_a N) (to_b N) bs"
    "length cs = reads es"
    using s e by (auto simp: stream_inv_def allowed_def)
  have r: "reader_ok X ?s" "replies ?s = rb @ map (read_reply (r_app X) ?j) cs" using f(2) by (simp_all add: read_state_def Let_def)
  obtain t x where t: "application (r_app X) [WIRE_READ, word_of_int ?j, n] ?s = Some t" "out t = out ?s @ [x]"
    "control (from_host X) NCP_ALL ([on_link X, 0, 1] @ bytes_of (8 * ucast n)) x" "reader_ok X t"
    "has CONN_READ (connection t ?j)" "reader (connection t ?j) = r_app X"
    "outstanding_rfnm (hosts t (from_host X)) = outstanding_rfnm (hosts ?s (from_host X)) + 1"
    using read_request [OF r(1)] by blast
  note x = sent_message [OF t(2) messages_regular(1) [OF t(3)]]
  let ?M = "N\<lparr>host_b := t, to_a := to_a N @ [imp_bytes x]\<rparr>"
  have "uint n \<noteq> 0" using e uint_0_iff [of n] by (simp add: allowed_def)
  then have n: "1 \<le> uint n" using uint_ge_0 [of n] by linarith
  have u: "uint (8 * ucast n :: u32) = 8 * uint n"
  proof -
    have l: "uint n < 256" using uint_lt2p [of n] by simp
    have "uint n mod 4294967296 = uint n" "8 * uint n mod 4294967296 = 8 * uint n"
      by (rule mod_pos_pos_trivial; use l n in linarith)+
    then show ?thesis by (simp add: uint_word_ariths unsigned_ucast_eq take_bit_eq_mod)
  qed
  have rest: "all_msgs ?c = 0" "rfnm_callback ?c = None" "to_a N = []" "to_b N = []" "bs = []"
    "all_bits ?c = asked_bits es - 8 * int (length (concat cs @ bs))"
    using f(7) by (auto elim: phase_idle)
  have "stream_phase X (asked_bits (es @ [Rd n]) - 8 * int (length (concat cs @ []))) ?c True [imp_bytes x] [] []"
    by (rule wanted [where bits = "8 * ucast n"]) (use t(3) x(2) u n rest in simp_all)
  then have "stream_inv X ra rb (es @ [Rd n]) cs ?M"
    using f(1,3-6,8) t(4-7) x(3) r(2) n rest by (simp add: stream_inv_def read_state_def Let_def)
  then show ?thesis using t(1) x(1) by (simp add: do_event_def)
qed

lemma reader_quiet:
  "reader_ok X s \<Longrightarrow> 0 \<le> k \<Longrightarrow> k < CONNECTIONS \<Longrightarrow> host (connection s k) = uint (from_host X) \<Longrightarrow> rfnm_callback (connection s k) = None"
  by (auto simp: reader_ok_def only_entry_def Let_def)

lemma reader_counted: "reader_ok X (counted h s) = reader_ok X s" "read_state X cs before (counted h s) = read_state X cs before s"
  by (simp_all add: read_state_def reader_ok_def only_entry_def Let_def replies_def)

lemma writer_packet [simp]: "writer_ok X (s\<lparr>packet := p\<rparr>) = writer_ok X s"
  by (simp add: writer_ok_def only_entry_def)

lemma write_state_keeps:
  assumes "write_state X ws before s" "writer_ok X t" "c = connection s (w_entry X)" "d = connection t (w_entry X)"
    "flags d = flags c" "writer d = writer c" "wlength d = wlength c" "replies t = replies s"
    "all_callback d \<noteq> None \<or> rfnm_callback d \<noteq> None \<longleftrightarrow> all_callback c \<noteq> None \<or> rfnm_callback c \<noteq> None"
  shows "write_state X ws before t"
proof -
  have "has CONN_WRITE d = has CONN_WRITE c" using assms(5) by (simp add: has_def)
  then show ?thesis
    using assms(1,2,6-) unfolding write_state_def Let_def assms(3,4) [symmetric] by simp
qed

lemma inv_at_a:
  assumes s: "stream_inv X ra rb es cs N" and e: "allowed X At_a N" and room: "asked_bits es < 2147483648"
  shows "if too_long X es cs At_a N then do_event X At_a N = None
    else \<exists>M. do_event X At_a N = Some M \<and> stream_inv X ra rb (es @ [At_a]) cs M \<and> to_a M = []"
proof -
  let ?s = "host_a N" and ?i = "w_entry X" and ?rd = "has CONN_READ (connection (host_b N) (r_entry X))"
  define c where "c = connection ?s ?i"
  obtain bs where f: "write_state X (written es) ra ?s" "read_state X cs rb (host_b N)"
    "outstanding_rfnm (hosts ?s (to_host X)) = int (length (to_b N))"
    "outstanding_rfnm (hosts (host_b N) (from_host X)) = int (length (to_a N))"
    "[] \<notin> set cs" "concat (written es) = concat cs @ bs @ pending_bytes c"
    "stream_phase X (asked_bits es - 8 * int (length (concat cs @ bs))) c ?rd (to_a N) (to_b N) bs"
    "length cs + (if ?rd then 1 else 0) = reads es"
    using s unfolding stream_inv_def c_def by blast
  obtain a bits where p: "to_a N = [a]" "to_b N = []" "bs = []" "?rd" "control (from_host X) NCP_ALL ([on_link X, 0, 1] @ bytes_of bits) (To_imp a)"
    "8 \<le> uint bits" "all_bits c + uint bits = asked_bits es - 8 * int (length (concat cs))" "all_msgs c = 0" "rfnm_callback c = None"
    using f(7) e by (auto simp: allowed_def elim: stream_phase.cases)
  have w: "writer_ok X ?s" using f(1) by (simp add: write_state_def)
  let ?p = "?s\<lparr>packet := carry (to_host X) a\<rparr>" and ?c1 = "add_allocation 1 bits c"
  have c: "c = connection ?p ?i" by (simp add: c_def)
  have b: "all_bits c + uint bits < 2147483648" using p(7) room by simp
  have w': "writer_ok X ?p" using w by simp
  have "writer_entry X c" using w c_def by (simp add: writer_ok_def)
  then have "all_callback c \<noteq> None \<longrightarrow> 0 < remaining c" by (simp add: writer_entry_def)
  moreover have "int (length (concat (written es))) - int (length (concat cs)) = int (length (pending_bytes c))"
    using f(6) p(3) by simp
  ultimately have long: "all_callback c \<noteq> None \<and> 180 \<le> min (remaining c) ((all_bits c + uint bits) div 8) \<longleftrightarrow> too_long X es cs At_a N"
    using length_pending [of c] p(7) by (auto simp: too_long_def still_asked_def)
  note taken = allocation_taken [OF w' c p(8) allocation_arrives [OF p(5) carried_carry] p(6) b, unfolded long]
  show ?thesis
  proof (cases "too_long X es cs At_a N")
    case True
    then have "process_imp (words_of a) ?p = None"
      using taken by (intro process_control_fails [OF p(5) carried_carry regular_words [OF messages_regular(1) [OF p(5)]]])
        (simp_all add: ncp_message_def)
    from deliver_a_fails [OF p(1) this] show ?thesis using True by (simp add: do_event_def)
  next
    case False
    then obtain t d sent xs where t: "process_all (to_host X) 10 ?p = Some (7, t)" "out t = out ?p @ xs" "writer_ok X t"
      "connection t ?i = d" "flushed X ?c1 d sent xs"
      "outstanding_rfnm (hosts t (to_host X)) = outstanding_rfnm (hosts ?p (to_host X)) + int (length xs)"
      "all_bits ?c1 = all_bits c + uint bits"
      using taken unfolding if_not_P [OF False] by blast
    have run: "process_imp (words_of a) ?p = Some t"
      by (rule process_control [OF p(5) carried_carry regular_words [OF messages_regular(1) [OF p(5)]]])
        (simp_all add: ncp_message_def t(1) bytes_of_def)
    have k: "pending_bytes ?c1 = pending_bytes c" "flags ?c1 = flags c" "writer ?c1 = writer c" "wlength ?c1 = wlength c"
      "rfnm_callback ?c1 = rfnm_callback c" "all_callback ?c1 = all_callback c" "all_msgs ?c1 = 1"
      using p(8) by (simp_all add: add_allocation_def pending_bytes_def unsent_def)
    note sends = flush_sends [OF t(5) _ refl, of t ?s]
    have o: "out t = out ?s @ xs" using t(2) by simp
    let ?M = "\<lparr>host_a = t, host_b = counted (from_host X) (host_b N), to_a = [], to_b = mail (to_host X) ?s t\<rparr>"
    have r: "reader_ok X (host_b N)" using f(2) by (simp add: read_state_def)
    have del: "deliver_a (from_host X) (to_host X) N = Some ?M"
      using deliver_a_eq [OF p(1) run, of "from_host X"] reader_quiet [OF r] p(2) by simp
    have same: "flags d = flags c" "writer d = writer c" "wlength d = wlength c" "pending_bytes c = sent @ pending_bytes d"
      using t(5) k by (simp_all add: flushed_def same_writer_def)
    have "all_callback d \<noteq> None \<or> rfnm_callback d \<noteq> None \<longleftrightarrow> all_callback c \<noteq> None \<or> rfnm_callback c \<noteq> None"
    proof (cases "sent = []")
      case True
      then show ?thesis using sends(2) [OF o] k by auto
    next
      case False
      then have "all_callback c \<noteq> None" using same(4) by (cases "all_callback c") (simp_all add: pending_bytes_def)
      moreover have "all_callback d \<noteq> None \<or> rfnm_callback d \<noteq> None" using t(5) False by (simp add: flushed_def)
      ultimately show ?thesis by auto
    qed
    then have "write_state X (written es) ra t"
      using write_state_keeps [OF f(1) t(3)] t(4) same(1-3) sends(1) [OF o] c_def by blast
    moreover have "\<exists>bs'. concat (written es) = concat cs @ bs' @ pending_bytes d \<and>
        stream_phase X (asked_bits es - 8 * int (length (concat cs @ bs'))) d ?rd [] (mail (to_host X) ?s t) bs' \<and> length (mail (to_host X) ?s t) = length xs"
    proof (cases "sent = []")
      case True
      have d: "d = ?c1" "xs = []" "mail (to_host X) ?s t = []" using sends(2) [OF o] True by simp_all
      moreover have "all_callback d = None" using t(3,4) k(7) d(1) by (simp add: writer_ok_def)
      ultimately show ?thesis using f(6) p(3,4,7,9) k t(7) by (intro exI [of _ "[]"]) (simp add: granted)
    next
      case False
      then obtain x where x: "mail (to_host X) ?s t = [x]" "length xs = 1"
        "stream_phase X (all_bits ?c1 - 8 * int (length sent)) d True [] [x] sent"
        using sends(3) [OF o] by blast
      have eq: "all_bits ?c1 - 8 * int (length sent) = asked_bits es - 8 * int (length (concat cs @ sent))" using t(7) p(7) by simp
      show ?thesis using x(1,2) x(3) [unfolded eq] f(6) p(3,4) same(4) by (intro exI [of _ sent]) simp
    qed
    ultimately have "stream_inv X ra rb (es @ [At_a]) cs ?M"
      using f(2-5,8) t(4,6) p(1,2) by (auto simp: stream_inv_def reader_counted)
    then show ?thesis using del False by (simp add: do_event_def)
  qed
qed

lemma not_regular [simp]: "\<not> regular h (write_reply a i n)" "\<not> regular h (read_reply a j bs)"
  "\<not> is_to_imp (write_reply a i n)" "\<not> is_to_imp (read_reply a j bs)"
  by (simp_all add: regular_def write_reply_def read_reply_def)

text \<open>The RFNM of the data: it answers a write that is done.\<close>

lemma inv_rfnm:
  assumes f: "write_state X ws before s" and few: "outstanding_rfnm (hosts s (to_host X)) = 1"
    and c: "c = connection s (w_entry X)" and m: "all_msgs c = 0" "rfnm_callback c = None \<longleftrightarrow> all_callback c \<noteq> None"
  shows "\<exists>t. process_imp 2 (s\<lparr>packet := rfnm_packet (to_host X)\<rparr>) = Some t \<and> write_state X ws before t \<and>
    outstanding_rfnm (hosts t (to_host X)) = 0 \<and> mail (to_host X) s t = [] \<and>
    pending_bytes (connection t (w_entry X)) = pending_bytes c \<and> all_bits (connection t (w_entry X)) = all_bits c \<and>
    all_msgs (connection t (w_entry X)) = 0 \<and> rfnm_callback (connection t (w_entry X)) = None"
proof -
  have w: "writer_ok X s" using f by (simp add: write_state_def)
  have g: "has CONN_WRITE c" "ws \<noteq> []" "writer c = w_app X" "wlength c = int (length (last ws))" "length (last ws) \<le> 198"
    "replies s = before @ map (\<lambda>bs. write_reply (w_app X) (w_entry X) (length bs)) (butlast ws)"
    using f m(2) unfolding write_state_def Let_def c [symmetric] by auto
  have "outstanding_rfnm (hosts s (to_host X)) \<le> 4" using few by simp
  then obtain t d xs where t: "process_imp 2 (s\<lparr>packet := rfnm_packet (to_host X)\<rparr>) = Some t" "writer_ok X t"
    "outstanding_rfnm (hosts t (to_host X)) = outstanding_rfnm (hosts s (to_host X)) - 1" "out t = out s @ xs"
    "d = connection t (w_entry X)" "all_callback d = all_callback c" "unsent d = unsent c" "all_msgs d = all_msgs c" "all_bits d = all_bits c"
    "rfnm_callback d = None"
    "if rfnm_callback c = None then xs = [] \<and> d = c else xs = [write_reply (w_app X) (w_entry X) (length (last ws))] \<and> \<not> has CONN_WRITE d"
    using writer_rfnm [OF w c _ g(4,5,3)] by blast
  have "write_state X ws before t"
  proof (cases "rfnm_callback c = None")
    case True
    then have "xs = []" "d = c" using t(11) by simp_all
    then show ?thesis
      using write_state_keeps [OF f t(2) c t(5)] t(4) by (simp add: replies_def)
  next
    case False
    then have "xs = [write_reply (w_app X) (w_entry X) (length (last ws))]" "\<not> has CONN_WRITE d" "all_callback d = None"
      using t(6,11) m(2) by simp_all
    moreover have "map (\<lambda>bs. write_reply (w_app X) (w_entry X) (length bs)) ws =
        map (\<lambda>bs. write_reply (w_app X) (w_entry X) (length bs)) (butlast ws) @ [write_reply (w_app X) (w_entry X) (length (last ws))]"
      by (subst append_butlast_last_id [OF g(2), symmetric]) (simp only: map_append list.map)
    ultimately show ?thesis
      using t(2,4,5,10) g(6) unfolding write_state_def Let_def t(5) [symmetric] by (simp add: replies_def)
  qed
  moreover have "mail (to_host X) s t = []" using t(4,11) by (auto simp: mail_of split: if_splits)
  moreover have "pending_bytes d = pending_bytes c" using t(6,7) by (simp add: pending_bytes_def)
  ultimately show ?thesis using t few m(1) by auto
qed

lemma inv_at_b:
  assumes s: "stream_inv X ra rb es cs N" and e: "allowed X At_b N" and l: "on_link X \<noteq> 0"
  shows "\<exists>M cs'. do_event X At_b N = Some M \<and> stream_inv X ra rb (es @ [At_b]) cs' M \<and> to_a M = [] \<and> to_b M = []"
proof -
  let ?s = "host_b N" and ?a = "host_a N"
  define c where "c = connection ?a (w_entry X)"
  obtain bs where f: "write_state X (written es) ra ?a" "read_state X cs rb ?s"
    "outstanding_rfnm (hosts ?a (to_host X)) = int (length (to_b N))"
    "outstanding_rfnm (hosts ?s (from_host X)) = int (length (to_a N))"
    "[] \<notin> set cs" "concat (written es) = concat cs @ bs @ pending_bytes c"
    "stream_phase X (asked_bits es - 8 * int (length (concat cs @ bs))) c (has CONN_READ (connection ?s (r_entry X))) (to_a N) (to_b N) bs"
    "length cs + (if has CONN_READ (connection ?s (r_entry X)) then 1 else 0) = reads es"
    using s unfolding stream_inv_def c_def by blast
  obtain b where p: "to_a N = []" "to_b N = [b]" "has CONN_READ (connection ?s (r_entry X))" "data_on (to_host X) (on_link X) bs (To_imp b)"
    "bs \<noteq> []" "length bs \<le> 179" "all_msgs c = 0" "rfnm_callback c = None \<longleftrightarrow> all_callback c \<noteq> None"
    "all_bits c = asked_bits es - 8 * int (length (concat cs @ bs))"
    using f(7)
  proof cases
    case (flying b)
    then show thesis by (intro that [of b]) simp_all
  qed (use e in \<open>simp_all add: allowed_def\<close>)
  have r: "reader_ok X ?s" "reader (connection ?s (r_entry X)) = r_app X" "replies ?s = rb @ map (read_reply (r_app X) (r_entry X)) cs"
    using f(2) p(3) by (simp_all add: read_state_def Let_def)
  obtain t where t: "process_imp (words_of b) (?s\<lparr>packet := carry (from_host X) b\<rparr>) = Some t"
    "out t = out ?s @ [read_reply (r_app X) (r_entry X) bs]" "reader_ok X t" "\<not> has CONN_READ (connection t (r_entry X))" "hosts t = hosts ?s"
    using data_read [OF r(1) l r(2) p(4) carried_carry regular_words [OF data_regular [OF p(4,5)]] p(6)] by blast
  have one: "outstanding_rfnm (hosts ?a (to_host X)) = 1" using f(3) p(2) by simp
  obtain a where a: "process_imp 2 (?a\<lparr>packet := rfnm_packet (to_host X)\<rparr>) = Some a" "write_state X (written es) ra a"
    "outstanding_rfnm (hosts a (to_host X)) = 0" "mail (to_host X) ?a a = []"
    "pending_bytes (connection a (w_entry X)) = pending_bytes c" "all_bits (connection a (w_entry X)) = all_bits c"
    "all_msgs (connection a (w_entry X)) = 0" "rfnm_callback (connection a (w_entry X)) = None"
    using inv_rfnm [OF f(1) one c_def p(7,8)] by blast
  have "do_event X At_b N = Some \<lparr>host_a = a, host_b = t, to_a = [], to_b = []\<rparr>"
    using t(1,2) a(1,4) p(1,2) by (simp add: do_event_def deliver_b_def mail_of)
  moreover have "stream_inv X ra rb (es @ [At_b]) (cs @ [bs]) \<lparr>host_a = a, host_b = t, to_a = [], to_b = []\<rparr>"
  proof -
    have "read_state X (cs @ [bs]) rb t" using t r(3) by (simp add: read_state_def Let_def replies_def)
    moreover have "stream_phase X (asked_bits es - 8 * int (length (concat (cs @ [bs]) @ []))) (connection a (w_entry X)) False [] [] []"
      using a(6-8) p(9) by (intro at_rest) simp_all
    ultimately show ?thesis using a(2,3,5) t(4,5) f(4-6,8) p(1,3,5) by (simp add: stream_inv_def)
  qed
  ultimately show ?thesis by (intro exI [of _ "\<lparr>host_a = a, host_b = t, to_a = [], to_b = []\<rparr>"] exI [of _ "cs @ [bs]"]) simp
qed

lemma inv_event:
  assumes "stream_inv X ra rb es cs N" "allowed X e N" "asked_bits es < 2147483648" "on_link X \<noteq> 0"
  shows "if too_long X es cs e N then do_event X e N = None
    else \<exists>M cs'. do_event X e N = Some M \<and> stream_inv X ra rb (es @ [e]) cs' M"
proof (cases e)
  case (Wr bs)
  then show ?thesis using inv_write [of X ra rb es cs N bs] assms(1,2) by (cases "too_long X es cs (Wr bs) N") (simp_all, blast)
next
  case (Rd n)
  moreover have "\<not> too_long X es cs (Rd n) N" by (simp add: too_long_def)
  ultimately show ?thesis using inv_read [of X ra rb es cs N n] assms(1,2) by simp blast
next
  case At_a
  then show ?thesis using inv_at_a [of X ra rb es cs N] assms(1-3) by (cases "too_long X es cs At_a N") (simp_all, blast)
next
  case At_b
  moreover have "\<not> too_long X es cs At_b N" by (simp add: too_long_def)
  ultimately show ?thesis using inv_at_b [of X ra rb es cs N] assms(1,2,4) by simp blast
qed

lemma asked_mono: "asked_bits es \<le> asked_bits (es @ [e])"
  by (cases e) simp_all

lemma run_inv:
  assumes "stream_run X es N M" "stream_inv X ra rb [] [] N" "on_link X \<noteq> 0" "asked_bits es < 2147483648"
  shows "\<exists>cs. stream_inv X ra rb es cs M"
  using assms(1,2,4)
proof (induction rule: stream_run.induct)
  case (nothing N)
  then show ?case by blast
next
  case (event es N M e L)
  have "asked_bits es < 2147483648" using event.prems(2) asked_mono [of es e] by simp
  then obtain cs where "stream_inv X ra rb es cs M" using event.IH event.prems(1) by blast
  from inv_event [OF this event.hyps(2) \<open>asked_bits es < 2147483648\<close> assms(3)] event.hyps(3)
  show ?case by (auto split: if_splits)
qed

text \<open>Two daemons with an open connection on which nothing happens.\<close>

definition stream_ready :: "stream \<Rightarrow> net \<Rightarrow> bool" where
  "stream_ready X N \<longleftrightarrow> writer_ok X (host_a N) \<and> reader_ok X (host_b N) \<and> on_link X \<noteq> 0 \<and> to_a N = [] \<and> to_b N = [] \<and>
     (let c = connection (host_a N) (w_entry X) in all_msgs c = 0 \<and> all_bits c = 0 \<and> all_callback c = None \<and> rfnm_callback c = None \<and>
        \<not> has CONN_WRITE c) \<and> \<not> has CONN_READ (connection (host_b N) (r_entry X)) \<and>
     outstanding_rfnm (hosts (host_a N) (to_host X)) = 0 \<and> outstanding_rfnm (hosts (host_b N) (from_host X)) = 0"

lemma ready_inv: "stream_ready X N \<Longrightarrow> stream_inv X (replies (host_a N)) (replies (host_b N)) [] [] N"
  by (auto simp: stream_inv_def stream_ready_def write_state_def read_state_def Let_def pending_bytes_def intro: at_rest)

text \<open>What is written and not read is a part of the last request.\<close>

lemma rest_of_request:
  assumes "write_state X ws before s" "c = connection s (w_entry X)"
  shows "length (pending_bytes c) \<le> (if ws = [] then 0 else length (last ws))"
proof (cases "all_callback c")
  case (Some cb)
  have "writer_ok X s" using assms(1) by (simp add: write_state_def)
  then have "wf_conn c" using wfD [of s "w_entry X"] assms(2) by (simp add: writer_ok_def)
  then have "remaining c \<le> wlength c" by (simp add: wf_defs)
  then show ?thesis using assms Some by (auto simp: write_state_def Let_def length_pending)
qed (simp add: length_pending)

lemma too_long_request:
  assumes "too_long X es cs e N" "write_state X (written es) before s"
    and "concat (written es) = concat cs @ bs @ pending_bytes (connection s (w_entry X))" "e = At_a \<Longrightarrow> bs = []"
  shows "1440 \<le> asked_bits es \<and> (\<exists>bs\<in>set (written (es @ [e])). 180 \<le> length bs)"
proof -
  have "180 \<le> still_asked es cs" using assms(1) by (auto simp: too_long_def split: stream_event.splits)
  then have "1440 \<le> asked_bits es" unfolding still_asked_def by linarith
  moreover have "\<exists>bs\<in>set (written (es @ [e])). 180 \<le> length bs"
  proof (cases e)
    case (Wr ws)
    then show ?thesis using assms(1) by (simp add: too_long_def)
  next
    case At_a
    then have "180 \<le> length (pending_bytes (connection s (w_entry X)))" using assms by (simp add: too_long_def)
    then show ?thesis
      using rest_of_request [OF assms(2) refl] At_a by (intro bexI [of _ "last (written es)"]) (auto split: if_splits)
  qed (use assms(1) in \<open>simp_all add: too_long_def\<close>)
  ultimately show ?thesis by blast
qed

lemma stream_fifo:
  assumes "stream_ready X N" "stream_run X es N M" "asked_bits es < 2 ^ 31"
  shows "\<exists>cs rest. concat (written es) = concat cs @ rest \<and> [] \<notin> set cs \<and>
      length cs + (if has CONN_READ (connection (host_b M) (r_entry X)) then 1 else 0) = reads es \<and>
      replies (host_b M) = replies (host_b N) @ map (read_reply (r_app X) (r_entry X)) cs \<and>
      replies (host_a M) = replies (host_a N) @ map (\<lambda>bs. write_reply (w_app X) (w_entry X) (length bs))
        (if has CONN_WRITE (connection (host_a M) (w_entry X)) then butlast (written es) else written es) \<and>
      (to_a M = [] \<and> to_b M = [] \<longrightarrow>
        (has CONN_READ (connection (host_b M) (r_entry X)) \<longrightarrow> rest = []) \<and>
        (has CONN_WRITE (connection (host_a M) (w_entry X)) \<longleftrightarrow> rest \<noteq> [])) \<and>
      (\<forall>e. allowed X e M \<longrightarrow> (do_event X e M = None \<longleftrightarrow> too_long X es cs e M)) \<and>
      (\<forall>e. allowed X e M \<and> do_event X e M = None \<longrightarrow> 1440 \<le> asked_bits es \<and> (\<exists>bs\<in>set (written (es @ [e])). 180 \<le> length bs))"
proof -
  have l: "on_link X \<noteq> 0" and b: "asked_bits es < 2147483648" using assms(1,3) by (simp_all add: stream_ready_def)
  obtain cs where i: "stream_inv X (replies (host_a N)) (replies (host_b N)) es cs M"
    using run_inv [OF assms(2) ready_inv [OF assms(1)] l b] by blast
  let ?c = "connection (host_a M) (w_entry X)" and ?rd = "has CONN_READ (connection (host_b M) (r_entry X))"
  obtain bs where f: "write_state X (written es) (replies (host_a N)) (host_a M)" "read_state X cs (replies (host_b N)) (host_b M)"
    "concat (written es) = concat cs @ bs @ pending_bytes ?c"
    "stream_phase X (asked_bits es - 8 * int (length (concat cs @ bs))) ?c ?rd (to_a M) (to_b M) bs"
    "[] \<notin> set cs" "length cs + (if ?rd then 1 else 0) = reads es"
    using i unfolding stream_inv_def by blast
  have w: "writer_entry X ?c" using f(1) by (simp add: write_state_def writer_ok_def)
  have p: "pending_bytes ?c = [] \<longleftrightarrow> all_callback ?c = None"
    by (rule pending_empty [OF w])
  have "(?rd \<longrightarrow> bs @ pending_bytes ?c = []) \<and> (has CONN_WRITE ?c \<longleftrightarrow> bs @ pending_bytes ?c \<noteq> [])" if "to_a M = []" "to_b M = []"
    using f(4) that
  proof cases
    case at_rest
    then show ?thesis using f(1) p by (simp add: write_state_def Let_def)
  next
    case granted
    then show ?thesis using f(1) p by (simp add: write_state_def Let_def)
  qed simp_all
  moreover have fails: "do_event X e M = None \<longleftrightarrow> too_long X es cs e M" if "allowed X e M" for e
    using inv_event [OF i that b l] by (auto split: if_splits)
  moreover have "1440 \<le> asked_bits es \<and> (\<exists>bs\<in>set (written (es @ [e])). 180 \<le> length bs)"
    if "allowed X e M" "do_event X e M = None" for e
  proof -
    have "bs = []" if "e = At_a"
      using f(4) \<open>allowed X e M\<close> that by (auto simp: allowed_def elim: stream_phase.cases)
    then show ?thesis using too_long_request [OF _ f(1,3)] fails that by blast
  qed
  moreover have "replies (host_b M) = replies (host_b N) @ map (read_reply (r_app X) (r_entry X)) cs"
    "replies (host_a M) = replies (host_a N) @ map (\<lambda>bs. write_reply (w_app X) (w_entry X) (length bs))
        (if has CONN_WRITE ?c then butlast (written es) else written es)"
    using f(1,2) by (simp_all add: write_state_def read_state_def Let_def)
  ultimately show ?thesis using f(3,5,6) by (intro exI [of _ cs] exI [of _ "bs @ pending_bytes ?c"]) blast
qed

text \<open>
  C4. A connection is a queue of bytes. On an open connection without traffic, with byte size 8 and the only one between its
  hosts, one application writes at one end and the other reads at the other end, in any order and in pieces of any size, and
  the network delivers what the daemons send at any time. (Of a request to write more than 198 bytes the daemon receives 198, and says so; the application has to
  write the rest again.) The replies to the reads are, in order and without gaps, the bytes that
  were written; each read but the one that waits has got one reply, with at least one byte, and each write but the one that
  waits one reply with the number of bytes that were taken. If
  nothing is under way and the reader waits, then everything written has been read; if nothing is under
  way and all has been read, no writer waits. (In all, less than 2^31 bits may be asked for.)
  The next event makes a daemon fail exactly when \<open>too_long\<close> says so, that is when a piece of 180 bytes or more would be sent: at
  a write, if a read waits for it, or at the delivery of an allocation, if a write waits for that. It takes both, reads that have asked
  for 180 bytes or more and a write of 180 to 198 bytes; so writes of at most 179 bytes never make a daemon fail.
\<close>

theorem stream_is_queue:
  assumes "stream_ready X N" "stream_run X es N M" "asked_bits es < 2 ^ 31"
  shows "\<exists>cs rest. concat (written es) = concat cs @ rest \<and> [] \<notin> set cs \<and>
      length cs + (if has CONN_READ (connection (host_b M) (r_entry X)) then 1 else 0) = reads es \<and>
      replies (host_b M) = replies (host_b N) @ map (read_reply (r_app X) (r_entry X)) cs \<and>
      replies (host_a M) = replies (host_a N) @ map (\<lambda>bs. write_reply (w_app X) (w_entry X) (length bs))
        (if has CONN_WRITE (connection (host_a M) (w_entry X)) then butlast (written es) else written es) \<and>
      (to_a M = [] \<and> to_b M = [] \<longrightarrow>
        (has CONN_READ (connection (host_b M) (r_entry X)) \<longrightarrow> rest = []) \<and>
        (has CONN_WRITE (connection (host_a M) (w_entry X)) \<longleftrightarrow> rest \<noteq> [])) \<and>
      (\<forall>e. allowed X e M \<longrightarrow> (do_event X e M = None \<longleftrightarrow> too_long X es cs e M)) \<and>
      (\<forall>e. allowed X e M \<and> do_event X e M = None \<longrightarrow> 1440 \<le> asked_bits es \<and> (\<exists>bs\<in>set (written (es @ [e])). 180 \<le> length bs))"
  by (rule stream_fifo [OF assms])

section \<open>Two hosts with an open connection\<close>

text \<open>Without requests the system comes to rest, after two deliveries at most.\<close>

definition quiet_after :: "stream \<Rightarrow> effect list \<Rightarrow> effect list \<Rightarrow> stream_event list \<Rightarrow> net \<Rightarrow> bool" where
  "quiet_after X ra rb es N \<longleftrightarrow> (\<exists>es' cs L. stream_run X es' N L \<and> to_a L = [] \<and> to_b L = [] \<and> written es' = written es \<and>
     reads es' = reads es \<and> asked_bits es' = asked_bits es \<and> stream_inv X ra rb es' cs L)"

lemma stream_settles:
  assumes run: "stream_run X es N M" and inv: "stream_inv X ra rb es cs M" and l: "on_link X \<noteq> 0" and b: "asked_bits es < 1440"
  shows "quiet_after X ra rb es N"
proof -
  have second: "quiet_after X ra rb es N"
    if r: "stream_run X fs N K" and i: "stream_inv X ra rb fs ds K" and a: "to_a K = []"
      and f: "written fs = written es" "reads fs = reads es" "asked_bits fs = asked_bits es" for fs ds K
  proof (cases "to_b K = []")
    case True
    then show ?thesis unfolding quiet_after_def using r i a f by blast
  next
    case False
    then have e: "allowed X At_b K" by (simp add: allowed_def)
    obtain L cs where L: "do_event X At_b K = Some L" "stream_inv X ra rb (fs @ [At_b]) cs L" "to_a L = []" "to_b L = []"
      using inv_at_b [OF i e l] by blast
    show ?thesis
      unfolding quiet_after_def using stream_run.event [OF r e L(1)] L(2-4) f by (intro exI [of _ "fs @ [At_b]"]) auto
  qed
  have short: "\<not> too_long X es cs At_a M" using b by (auto simp: too_long_def still_asked_def)
  show ?thesis
  proof (cases "to_a M = []")
    case True
    then show ?thesis using second run inv by blast
  next
    case False
    then have e: "allowed X At_a M" by (simp add: allowed_def)
    obtain L where L: "do_event X At_a M = Some L" "stream_inv X ra rb (es @ [At_a]) cs L" "to_a L = []"
      using inv_at_a [OF inv e] b short by auto
    show ?thesis using second [OF stream_run.event [OF run e L(1)] L(2,3)] by simp
  qed
qed

text \<open>An application on host 9 writes to one on host 5, on link 46.\<close>

definition byte_stream :: stream where
  "byte_stream = \<lparr>from_host = 9, to_host = 5, on_link = 46, w_entry = 4, r_entry = 4,
     w_app = \<lparr>sun_path = ''/tmp/client.7'', addr_len = 110\<rparr>, r_app = \<lparr>sun_path = ''/tmp/client.8'', addr_len = 110\<rparr>\<rparr>"

definition other_end :: ncp where
  "other_end = empty_ncp\<lparr>connection := (\<lambda>_. destroy_conn zero_conn)(4 := established\<lparr>host := 9,
     rcv := \<lparr>link = 46, bsize = 8, lsock = 20, rsock = 11\<rparr>, snd := \<lparr>link = 45, bsize = 8, lsock = 21, rsock = 10\<rparr>\<rparr>)\<rparr>"

definition joined_net :: net where
  "joined_net = \<lparr>host_a = open_ncp, host_b = other_end, to_a = [], to_b = []\<rparr>"

lemma joined_ready: "stream_ready byte_stream joined_net"
proof -
  have "wf_ncp open_ncp" "wf_ncp other_end"
    by (simp_all add: wf_ncp_def open_ncp_def other_end_def established_def zero_conn_def destroy_conn_def wf_defs)
  moreover have "only_entry 5 4 open_ncp" "only_entry 9 4 other_end"
    by (auto simp: only_entry_def open_ncp_def other_end_def destroy_conn_def)
  ultimately have "writer_ok byte_stream open_ncp" "reader_ok byte_stream other_end"
    by (simp_all add: writer_ok_def reader_ok_def writer_entry_def byte_stream_def Let_def)
      (simp_all add: open_ncp_def other_end_def established_def zero_conn_def has_def)
  then show ?thesis
    by (simp add: stream_ready_def joined_net_def Let_def byte_stream_def)
      (simp add: open_ncp_def other_end_def established_def zero_conn_def has_def empty_ncp_def zero_ncp_def)
qed

theorem stream_is_queue_witness:
  "\<exists>es M bs. stream_run byte_stream es joined_net M \<and> written es = [[1, 2, 3]] \<and> reads es = 1 \<and> bs \<noteq> [] \<and> take (length bs) [1, 2, 3] = bs \<and>
     replies (host_b M) = [read_reply (r_app byte_stream) 4 bs]"
proof -
  let ?X = byte_stream and ?N = joined_net and ?i = "stream_inv byte_stream [] []"
  have l: "on_link ?X \<noteq> 0" by (simp add: byte_stream_def)
  have o: "replies (host_a ?N) = []" "replies (host_b ?N) = []"
    by (simp_all add: joined_net_def replies_def open_ncp_def other_end_def empty_ncp_def zero_ncp_def)
  have i0: "?i [] [] ?N" using ready_inv [OF joined_ready] o by simp
  have e1: "allowed ?X (Wr [1, 2, 3]) ?N" using joined_ready by (simp add: allowed_def stream_ready_def Let_def)
  obtain M1 where M1: "do_event ?X (Wr [1, 2, 3]) ?N = Some M1" "?i ([] @ [Wr [1, 2, 3]]) [] M1"
    using inv_write [OF i0 e1] by (auto simp: too_long_def)
  have "host_b M1 = host_b ?N" using M1(1) by (auto simp: do_event_def bind_eq_Some_conv)
  then have e2: "allowed ?X (Rd 10) M1" using joined_ready by (simp add: allowed_def stream_ready_def Let_def)
  obtain M2 where M2: "do_event ?X (Rd 10) M1 = Some M2" "?i (([] @ [Wr [1, 2, 3]]) @ [Rd 10]) [] M2"
    using inv_read [OF M1(2) e2] by blast
  have r: "stream_run ?X (([] @ [Wr [1, 2, 3]]) @ [Rd 10]) ?N M2"
    using stream_run.event [OF stream_run.event [OF stream_run.nothing e1 M1(1)] e2 M2(1)] .
  have b: "asked_bits (([] @ [Wr [1, 2, 3]]) @ [Rd 10]) = 80" by (simp only: asked_snoc) simp
  have "quiet_after ?X [] [] (([] @ [Wr [1, 2, 3]]) @ [Rd 10]) ?N"
    by (rule stream_settles [OF r M2(2) l]) (simp only: b)
  then obtain es M where M: "stream_run ?X es ?N M" "to_a M = []" "to_b M = []" "written es = [[1, 2, 3]]" "reads es = 1" "asked_bits es = 80"
    unfolding quiet_after_def b by (simp only: written_snoc reads_snoc) (simp, blast)
  have lt: "asked_bits es < 2 ^ 31" using M(6) by simp
  obtain cs rest where c: "[1, 2, 3] = concat cs @ rest" "[] \<notin> set cs"
    "length cs + (if has CONN_READ (connection (host_b M) (r_entry ?X)) then 1 else 0) = 1"
    "replies (host_b M) = map (read_reply (r_app ?X) (r_entry ?X)) cs"
    "has CONN_READ (connection (host_b M) (r_entry ?X)) \<longrightarrow> rest = []"
    using stream_is_queue [OF joined_ready M(1) lt] M(2-5) o by auto
  have "\<not> has CONN_READ (connection (host_b M) (r_entry ?X))" using c by (cases cs) auto
  then obtain bs where bs: "cs = [bs]" using c(3) by (cases cs; cases "tl cs") auto
  then have "bs \<noteq> []" "take (length bs) [1, 2, 3] = bs" using c(1,2) by auto
  then show ?thesis using M bs c(4) by (intro exI [of _ es] exI [of _ M] exI [of _ bs]) (simp add: byte_stream_def)
qed

section \<open>From the request to open to the data\<close>

text \<open>The two streams of a connection that was opened between \<open>ha\<close> and \<open>hb\<close>, with the entries \<open>i\<close> and \<open>j\<close>.\<close>

definition upstream :: "u8 \<Rightarrow> u8 \<Rightarrow> int \<Rightarrow> int \<Rightarrow> client_t \<Rightarrow> client_t \<Rightarrow> stream" where
  "upstream ha hb i j w r = \<lparr>from_host = ha, to_host = hb, on_link = 46, w_entry = i, r_entry = j, w_app = w, r_app = r\<rparr>"

definition downstream :: "u8 \<Rightarrow> u8 \<Rightarrow> int \<Rightarrow> int \<Rightarrow> client_t \<Rightarrow> client_t \<Rightarrow> stream" where
  "downstream ha hb i j w r = \<lparr>from_host = hb, to_host = ha, on_link = 45, w_entry = j, r_entry = i, w_app = w, r_app = r\<rparr>"

lemma fresh_flags:
  assumes "f AND (CONN_CLIENT OR CONN_APPS) = (0 :: u32)"
  shows "f AND CONN_CLIENT = 0" "f AND CONN_READ = 0" "f AND CONN_WRITE = 0"
  using assms and.assoc [of f "CONN_CLIENT OR CONN_APPS" CONN_CLIENT] and.assoc [of f "CONN_CLIENT OR CONN_APPS" CONN_READ]
    and.assoc [of f "CONN_CLIENT OR CONN_APPS" CONN_WRITE] by simp_all

lemma fresh_writer:
  assumes "fresh_entry (to_host X) (w_entry X) s" "only_entry (to_host X) (w_entry X) s" "c = connection s (w_entry X)"
    "host c = uint (to_host X)" "link (snd c) = uint (on_link X)" "bsize (snd c) = 8"
  shows "writer_ok X s"
  using assms by (simp add: fresh_entry_def writer_ok_def writer_entry_def Let_def)

lemma fresh_reader:
  assumes "fresh_entry (from_host X) (r_entry X) s" "only_entry (from_host X) (r_entry X) s" "c = connection s (r_entry X)"
    "host c = uint (from_host X)" "link (rcv c) = uint (on_link X)" "bsize (rcv c) = 8"
  shows "reader_ok X s"
  using assms fresh_flags by (simp add: fresh_entry_def reader_ok_def Let_def has_def)

text \<open>
  C6. An opened connection is two queues. If a client has opened a connection with byte size 8 on both sides, then
  the system is ready for a stream in either direction, between the entries that the two applications
  have been told; so \<open>stream_is_queue\<close> holds of what they write and read from then on.
\<close>

theorem opened_is_stream:
  assumes o: "opened_between ha hb socket 8 8 ca cb a b M" and q: "to_a M = []" "to_b M = []"
  shows "\<exists>i j. replies (host_a M) = replies a @ [To_app ca ([WIRE_OPEN + 1, hb] @ bytes_of socket @ [word_of_int i, 8, 0])] \<and>
    replies (host_b M) = replies b @ [To_app cb ([WIRE_LISTEN + 1, ha] @ bytes_of socket @ [word_of_int j, 8])] \<and>
    (\<forall>w r. stream_ready (upstream ha hb i j w r) M \<and> stream_ready (downstream ha hb i j w r) (swap M))"
proof -
  obtain i j where f: "joined ha hb (connection (host_a M) i) (connection (host_b M) j)"
    "replies (host_a M) = replies a @ [To_app ca ([WIRE_OPEN + 1, hb] @ bytes_of socket @ [word_of_int i, 8, 0])]"
    "replies (host_b M) = replies b @ [To_app cb ([WIRE_LISTEN + 1, ha] @ bytes_of socket @ [word_of_int j, 8])]"
    "only_entry hb i (host_a M)" "only_entry ha j (host_b M)" "fresh_entry hb i (host_a M)" "fresh_entry ha j (host_b M)"
    "rcv (connection (host_a M) i) = \<lparr>link = 45, bsize = uint (8 :: u8), lsock = 1004, rsock = 129\<rparr>"
    "snd (connection (host_a M) i) = \<lparr>link = 46, bsize = uint (8 :: u8), lsock = 1005, rsock = 128\<rparr>"
    using o by (auto simp: opened_between_def)
  have up: "writer_ok (upstream ha hb i j w r) (host_a M)" "reader_ok (upstream ha hb i j w r) (host_b M)" for w r
    using f by (auto simp: upstream_def joined_def intro!: fresh_writer [OF _ _ refl] fresh_reader [OF _ _ refl])
  have down: "writer_ok (downstream ha hb i j w r) (host_b M)" "reader_ok (downstream ha hb i j w r) (host_a M)" for w r
    using f by (auto simp: downstream_def joined_def intro!: fresh_writer [OF _ _ refl] fresh_reader [OF _ _ refl])
  have idle: "fresh_entry h k s \<Longrightarrow> \<not> has CONN_READ (connection s k) \<and> \<not> has CONN_WRITE (connection s k)" for h k s
    using fresh_flags by (simp add: fresh_entry_def Let_def has_def)
  have "stream_ready (upstream ha hb i j w r) M" for w r
    using up [of w r] idle [OF f(6)] idle [OF f(7)] f(6,7) q
    by (simp add: stream_ready_def Let_def) (simp add: upstream_def fresh_entry_def Let_def)
  moreover have "stream_ready (downstream ha hb i j w r) (swap M)" for w r
    using down [of w r] idle [OF f(6)] idle [OF f(7)] f(6,7) q
    by (simp add: stream_ready_def Let_def swap_def) (simp add: downstream_def fresh_entry_def Let_def)
  ultimately show ?thesis using f(2,3) by blast
qed

theorem opened_is_stream_witness:
  "\<exists>a1 M i j. application zero_client (WIRE_OPEN # 5 # bytes_of 23 @ [8]) alive_ncp = Some a1 \<and>
     net_run 9 5 10 \<lparr>host_a = a1, host_b = listening_ncp, to_a = [], to_b = mail 5 alive_ncp a1\<rparr> M \<and>
     stream_ready (upstream 9 5 i j zero_client zero_client) M"
proof -
  have ok: "(23 :: u32) \<noteq> 0" by simp
  obtain a1 where a1: "application zero_client (WIRE_OPEN # 5 # bytes_of 23 @ [8]) alive_ncp = Some a1"
    and all: "\<And>n M. net_run 9 5 n \<lparr>host_a = a1, host_b = listening_ncp, to_a = [], to_b = mail 5 alive_ncp a1\<rparr> M \<Longrightarrow>
      n \<le> 10 \<and> (to_a M \<noteq> [] \<longrightarrow> deliver_a 9 5 M \<noteq> None) \<and> (to_b M \<noteq> [] \<longrightarrow> deliver_b 9 5 M \<noteq> None) \<and>
      (n = 10 \<longleftrightarrow> to_a M = [] \<and> to_b M = []) \<and>
      (n = 10 \<longrightarrow> opened_between 9 5 23 8 8 zero_client zero_client alive_ncp listening_ncp M)"
    using opens [OF alive_client_ready listening_server_ready ok, of zero_client 8] by blast
  let ?N = "\<lparr>host_a = a1, host_b = listening_ncp, to_a = [], to_b = mail 5 alive_ncp a1\<rparr>"
  obtain M where M: "net_run 9 5 10 ?N M" using run_goes_on [of 9 5 ?N 10 10] all by blast
  then have "opened_between 9 5 23 8 8 zero_client zero_client alive_ncp listening_ncp M" "to_a M = []" "to_b M = []"
    using all by blast+
  from opened_is_stream [OF this] show ?thesis using a1 M by blast
qed

end
