(* ===== verification/Ncp_Typed.thy ===== *)
theory Ncp_Typed
  imports Ncp_Frame Imp_Props
begin

text \<open>
  Everything the daemon sends has the form that its receiver expects: datagrams to the IMP carry the
  header that the other side of the interface checks, and replies to applications pass the size check
  of the library. A third interpretation of \<open>daemon_invariant\<close>.
\<close>

definition typed_datagram :: "u8 list \<Rightarrow> bool" where
  "typed_datagram d \<longleftrightarrow> 12 \<le> length d \<and> length d \<le> MESSAGE_CAP \<and> even (length d) \<and>
     take 4 d = [0x48, 0x33, 0x31, 0x36] \<and>
     256 * uint (d ! 8) + uint (d ! 9) = (int (length d) - 12) div 2 + 1 \<and> d ! 11 AND 1 \<noteq> 0"

fun typed_effect :: "effect \<Rightarrow> bool" where
  "typed_effect (To_imp d) \<longleftrightarrow> typed_datagram d"
| "typed_effect (To_app a bs) \<longleftrightarrow> typed_reply bs"

definition typed_out :: "ncp \<Rightarrow> bool" where
  "typed_out s \<longleftrightarrow> list_all typed_effect (out s)"

lemma last_bit: "ucast ((f :: u16) OR 1) AND (1 :: u8) \<noteq> 0"
proof
  assume "ucast (f OR 1) AND (1 :: u8) = 0"
  then have "bit (ucast (f OR 1) AND (1 :: u8)) 0 = bit (0 :: u8) 0" by simp
  then show False by (simp add: bit_simps)
qed

lemma send_typed:
  assumes "imp_send_message cap data n s = Some (d, data', s')" and "cap \<le> MESSAGE_CAP"
  shows "typed_datagram d"
proof -
  note D = send_SomeD [OF assms(1)]
  have n: "2 * n + 12 \<le> 200" using assms by (auto simp: imp_send_message_def Let_def split: if_splits)
  have k: "d ! k = imp_header s n ! k" if "k < 12" for k using D(2) that by blast
  have "take 4 d = [0x48, 0x33, 0x31, 0x36]"
  proof (rule nth_equalityI)
    fix i
    assume "i < length (take 4 d)"
    then have i: "i < 4" by simp
    then consider "i = 0" | "i = 1" | "i = 2" | "i = 3" by linarith
    then show "take 4 d ! i = [0x48, 0x33, 0x31, 0x36] ! i"
      using k [of i] i by cases (simp_all add: imp_header_def)
  qed (use D(1) in simp)
  moreover have "256 * uint (d ! 8) + uint (d ! 9) = int n + 1"
  proof -
    have "d ! 8 = 0" "d ! 9 = word_of_nat (n + 1)" using k n by (simp_all add: imp_header_def bytes_of_def)
    moreover have "uint (word_of_nat (n + 1) :: u8) = int n + 1"
      using n by (simp only: unsigned_of_nat) (simp add: take_bit_eq_mod)
    ultimately show ?thesis by simp
  qed
  moreover have "d ! 11 AND 1 \<noteq> 0" using k [of 11] last_bit by (simp add: imp_header_def bytes_of_def)
  ultimately show ?thesis using D(1) n by (simp add: typed_datagram_def)
qed

lemma send_imp_typed:
  assumes "send_imp fl ty d l m st data w s = Some t"
  shows "\<exists>bs. out t = out s @ [To_imp bs] \<and> typed_datagram bs"
  using assms send_typed [of PACKET_CAP]
  by (auto simp: send_imp_def Let_def bind_eq_Some_conv count_regular_def upd_host_def write_packet_def
      split: option.splits if_splits prod.splits)

interpretation typed_rel: daemon_invariant "\<lambda>s t. typed_out s \<longrightarrow> typed_out t"
proof unfold_locales
  fix s t ty d l m st data w
  assume "send_imp 0 ty d l m st data w s = Some t"
  from send_imp_typed [OF this] show "typed_out s \<longrightarrow> typed_out t" by (auto simp: typed_out_def)
qed (auto simp: typed_out_def upd_host_def)

section \<open>The start\<close>

lemma host_ready_typed: "host_ready f s = Some t \<Longrightarrow> typed_out s \<Longrightarrow> typed_out t"
  using send_typed [of 12] unfolding host_ready_def imp_host_ready_def
  by (auto simp: typed_out_def bind_eq_Some_conv split: if_splits)

lemma send_nops_typed: "send_nops s = Some t \<Longrightarrow> typed_out s \<Longrightarrow> typed_out t"
proof -
  have n: "typed_out v" if "send_nop u = Some v" "typed_out u" for u v
    using that send_imp_typed unfolding send_nop_def typed_out_def by fastforce
  show "send_nops s = Some t \<Longrightarrow> typed_out s \<Longrightarrow> typed_out t"
    by (auto simp: send_nops_def bind_eq_Some_conv dest: n)
qed

lemma reset_typed:
  assumes "reset s = Some t" and "typed_out s"
  shows "typed_out t"
proof -
  let ?f = "\<lambda>i s. do { s \<leftarrow> destroy i s;
    Some (s\<lparr>listening := (listening s)(i := (listening s i)\<lparr>l_sock := 0\<rparr>)\<rparr>) }"
  obtain u where u: "for_each [0..CONNECTIONS - 1] ?f s = Some u" and t: "out t = out u"
    using assms(1) by (auto simp: reset_def bind_eq_Some_conv)
  have "typed_out u"
    by (rule for_each_inv [where P = typed_out, OF _ u assms(2)])
      (auto simp: typed_out_def destroy_def upd_def bind_eq_Some_conv split: if_splits)
  with t show ?thesis by (simp add: typed_out_def)
qed

lemma start_typed: "start = Some s \<Longrightarrow> typed_out s"
proof -
  have "typed_out zero_ncp" by (simp add: typed_out_def zero_ncp_def)
  then show "start = Some s \<Longrightarrow> typed_out s"
    by (auto simp: start_def ncp_reset_def bind_eq_Some_conv
        dest: host_ready_typed reset_typed send_nops_typed)
qed

text \<open>
  C2. Everything that the daemon has sent, in whatever run, is well-typed: a datagram to the IMP is at most
  200 bytes long and has the magic, the word count of its length and the flag of a last part; a reply to
  an application has one of the even codes and the size that the library's check demands for it.
\<close>

theorem daemon_output_typed:
  assumes "reachable s" and "e \<in> set (out s)"
  shows "typed_effect e"
proof -
  have "typed_out s"
    using assms(1)
  proof (induction rule: reachable.induct)
    case (start s)
    then show ?case by (rule start_typed)
  next
    case (step s t)
    then show ?case using typed_rel.step_within by blast
  qed
  then show ?thesis using assms(2) by (simp add: typed_out_def list_all_iff)
qed

theorem daemon_output_typed_witness: "\<exists>s. start = Some s \<and> list_all typed_effect (out s)"
  using start_defined daemon_output_typed [OF reachable.start] by (auto simp: list_all_iff)

end
