(* ===== verification/Lib.thy ===== *)
theory Lib
  imports Prelude Wire
begin

text \<open>
  The library for applications (\<open>src/libncp.c\<close>): every call builds a request in the static
  \<open>message\<close> array, sends it to the daemon, waits for one reply in the same array, and takes the
  results out of it. The state is the array, the number of bytes in it, and the datagrams sent.
  The daemon is an argument: whether \<open>send\<close> took the whole datagram, and what \<open>recv\<close> gave.
\<close>

section \<open>State\<close>

abbreviation (input) LIB_CAP :: nat where "LIB_CAP \<equiv> 1000"

record lib_state =
  buf :: mem
  fill :: int
  sent :: "u8 list list"

record daemon_io =
  send_ok :: bool
  answer :: "u8 list option"

definition msg_type :: "u8 \<Rightarrow> lib_state \<Rightarrow> lib_state" where
  "msg_type x l = l\<lparr>buf := (buf l)(0 := x), fill := 1\<rparr>"

definition msg_add :: "u8 \<Rightarrow> lib_state \<Rightarrow> lib_state option" where
  "msg_add x l =
     (if 0 \<le> fill l \<and> fill l < int LIB_CAP
      then Some (l\<lparr>buf := (buf l)(nat (fill l) := x), fill := fill l + 1\<rparr>) else None)"

text \<open>\<open>recv\<close>: -1 and an unchanged array for an error, else the length of what it stored.\<close>

definition receive :: "u8 list option \<Rightarrow> lib_state \<Rightarrow> int \<times> lib_state" where
  "receive r l = (case r of None \<Rightarrow> (- 1, l)
     | Some bs \<Rightarrow> (int (length (take LIB_CAP bs)), l\<lparr>buf := put_bytes 0 (take LIB_CAP bs) (buf l)\<rparr>))"

definition transact :: "daemon_io \<Rightarrow> lib_state \<Rightarrow> int \<times> lib_state" where
  "transact io l =
     (let type = uint (buf l 0) in
      if \<not> wire_check (buf l 0) (fill l) then (- 1, l)
      else if \<not> send_ok io then (- 1, l)
      else let (n, l) = receive (answer io) (l\<lparr>sent := sent l @ [get_bytes 0 (nat (fill l)) (buf l)]\<rparr>)
        in if uint (buf l 0) \<noteq> type + 1 then (- 1, l)
           else if \<not> wire_check (buf l 0) n then (- 1, l)
           else (n, l))"

section \<open>Requests\<close>

text \<open>
  The values stored through pointers are returned as \<open>Some\<close>; \<open>None\<close> where the code returns
  before it stores them.
\<close>

definition ncp_echo :: "daemon_io \<Rightarrow> int \<Rightarrow> int \<Rightarrow> lib_state \<Rightarrow> (int \<times> u8 option \<times> lib_state) option" where
  "ncp_echo io h data l =
     do { l \<leftarrow> msg_add (word_of_int h) (msg_type WIRE_ECHO l);
          l \<leftarrow> msg_add (word_of_int data) l;
          let (n, l) = transact io l;
          Some (if n = - 1 then (- 1, None, l)
                else if uint (buf l 1) \<noteq> h then (- 1, None, l)
                else if buf l 3 = 0x10 then (0, Some (buf l 2), l)
                else (- uint (buf l 3) - 2, Some (buf l 2), l)) }"

text \<open>The comparison \<open>u32 (message + 2) != socket\<close> is between unsigned numbers.\<close>

definition ncp_open ::
    "daemon_io \<Rightarrow> int \<Rightarrow> u32 \<Rightarrow> int \<Rightarrow> lib_state \<Rightarrow> (int \<times> (u8 \<times> u8) option \<times> lib_state) option" where
  "ncp_open io h socket sz l =
     do { l \<leftarrow> msg_add (word_of_int h) (msg_type WIRE_OPEN l);
          l \<leftarrow> msg_add (byte_of 3 socket) l;
          l \<leftarrow> msg_add (byte_of 2 socket) l;
          l \<leftarrow> msg_add (byte_of 1 socket) l;
          l \<leftarrow> msg_add (byte_of 0 socket) l;
          l \<leftarrow> msg_add (word_of_int sz) l;
          let (n, l) = transact io l;
          Some (if n = - 1 then (- 1, None, l)
                else if uint (buf l 1) \<noteq> h then (- 1, None, l)
                else if word_of_bytes (buf l 2) (buf l 3) (buf l 4) (buf l 5) \<noteq> socket then (- 1, None, l)
                else if buf l 8 = 255 then (- 2, None, l)
                else (0, Some (buf l 6, buf l 7), l)) }"

text \<open>The results of \<open>ncp_listen\<close> are the host, the connection and the byte size.\<close>

definition ncp_listen ::
    "daemon_io \<Rightarrow> u32 \<Rightarrow> int \<Rightarrow> lib_state \<Rightarrow> (int \<times> (u8 \<times> u8 \<times> u8) option \<times> lib_state) option" where
  "ncp_listen io socket sz l =
     do { l \<leftarrow> msg_add (byte_of 3 socket) (msg_type WIRE_LISTEN l);
          l \<leftarrow> msg_add (byte_of 2 socket) l;
          l \<leftarrow> msg_add (byte_of 1 socket) l;
          l \<leftarrow> msg_add (byte_of 0 socket) l;
          l \<leftarrow> msg_add (word_of_int sz) l;
          let (n, l) = transact io l;
          Some (if n = - 1 then (- 1, None, l)
                else if buf l 1 = 0 then (- 1, None, l)
                else if word_of_bytes (buf l 2) (buf l 3) (buf l 4) (buf l 5) \<noteq> socket then (- 1, None, l)
                else (0, Some (buf l 1, buf l 6, buf l 7), l)) }"

text \<open>
  \<open>ncp_read\<close> copies into the caller's array, of length \<open>cap\<close>; the results are the return value,
  the array and \<open>*length\<close>.
\<close>

definition ncp_read ::
    "daemon_io \<Rightarrow> int \<Rightarrow> nat \<Rightarrow> mem \<Rightarrow> int \<Rightarrow> lib_state \<Rightarrow> (int \<times> mem \<times> int \<times> lib_state) option" where
  "ncp_read io cn cap data len l =
     do { l \<leftarrow> msg_add (word_of_int cn) (msg_type WIRE_READ l);
          l \<leftarrow> msg_add (word_of_int len) l;
          let (n, l) = transact io l;
          if n = - 1 then Some (- 1, data, 0, l)
          else if uint (buf l 1) \<noteq> cn then Some (- 1, data, 0, l)
          else do { data \<leftarrow> memcpy cap LIB_CAP 0 2 (n - 2) data (buf l); Some (0, data, n - 2, l) } }"

definition ncp_write ::
    "daemon_io \<Rightarrow> int \<Rightarrow> nat \<Rightarrow> mem \<Rightarrow> int \<Rightarrow> lib_state \<Rightarrow> (int \<times> int \<times> lib_state) option" where
  "ncp_write io cn cap data len l =
     do { l \<leftarrow> msg_add (word_of_int cn) (msg_type WIRE_WRITE l);
          b \<leftarrow> memcpy LIB_CAP cap (nat (fill l)) 0 len (buf l) data;
          let (n, l) = transact io (l\<lparr>buf := b, fill := fill l + len\<rparr>);
          Some (if n = - 1 then (- 1, 0, l)
                else if uint (buf l 1) \<noteq> cn then (- 1, 0, l)
                else (0, 256 * uint (buf l 2) + uint (buf l 3), l)) }"

definition ncp_interrupt :: "daemon_io \<Rightarrow> int \<Rightarrow> lib_state \<Rightarrow> (int \<times> lib_state) option" where
  "ncp_interrupt io cn l =
     do { l \<leftarrow> msg_add (word_of_int cn) (msg_type WIRE_INTERRUPT l);
          let (n, l) = transact io l;
          Some (if n = - 1 then (- 1, l) else if uint (buf l 1) \<noteq> cn then (- 1, l) else (0, l)) }"

definition ncp_close :: "daemon_io \<Rightarrow> int \<Rightarrow> lib_state \<Rightarrow> (int \<times> lib_state) option" where
  "ncp_close io cn l =
     do { l \<leftarrow> msg_add (word_of_int cn) (msg_type WIRE_CLOSE l);
          let (n, l) = transact io l;
          Some (if n = - 1 then (- 1, l) else if uint (buf l 1) \<noteq> cn then (- 1, l) else (0, l)) }"

end
