(* ===== verification/Lib_Calls.thy ===== *)
theory Lib_Calls
  imports Lib
begin

text \<open>
  The exchange of a request and its reply, and what each call of the library does with the reply of
  the daemon. The locale \<open>exchange\<close> states what a request and its reply must satisfy for
  \<open>transact\<close> to carry them; each of the seven calls is an interpretation.
\<close>

section \<open>Building a request\<close>

definition holds :: "u8 list \<Rightarrow> lib_state \<Rightarrow> bool" where
  "holds bs l \<longleftrightarrow> fill l = int (length bs) \<and> get_bytes 0 (length bs) (buf l) = bs"

lemma holds_type: "holds [x] (msg_type x l)"
  by (simp add: holds_def msg_type_def get_bytes_def)

lemma holds_add:
  assumes "holds bs l" and "length bs < LIB_CAP"
  shows "\<exists>l'. msg_add x l = Some l' \<and> holds (bs @ [x]) l' \<and> sent l' = sent l"
proof -
  have "get_bytes 0 (length bs + 1) ((buf l)(length bs := x)) = bs @ [x]"
  proof -
    have "get_bytes 0 (length bs) ((buf l)(length bs := x)) = get_bytes 0 (length bs) (buf l)"
      by (simp add: get_bytes_def)
    moreover have "get_bytes (length bs) 1 ((buf l)(length bs := x)) = [x]" by (simp add: get_bytes_def)
    ultimately show ?thesis using assms(1) unfolding get_bytes_append by (simp add: holds_def)
  qed
  then show ?thesis using assms by (simp add: holds_def msg_add_def)
qed

text \<open>A request of several bytes, as the calls build it.\<close>

fun msg_adds :: "u8 list \<Rightarrow> lib_state \<Rightarrow> lib_state option" where
  "msg_adds [] l = Some l"
| "msg_adds (x # xs) l = do { l \<leftarrow> msg_add x l; msg_adds xs l }"

lemma holds_adds:
  "holds bs l \<Longrightarrow> length bs + length xs \<le> LIB_CAP \<Longrightarrow>
   \<exists>l'. msg_adds xs l = Some l' \<and> holds (bs @ xs) l' \<and> sent l' = sent l"
proof (induction xs arbitrary: bs l)
  case Nil
  then show ?case by simp
next
  case (Cons x xs)
  obtain l' where l': "msg_add x l = Some l'" "holds (bs @ [x]) l'" "sent l' = sent l"
    using holds_add [OF Cons.prems(1), of x] Cons.prems(2) by auto
  from Cons.IH [OF l'(2)] Cons.prems(2) l'(1,3) show ?case by auto
qed

lemma build_request:
  assumes "length xs < LIB_CAP"
  shows "\<exists>l'. msg_adds xs (msg_type x l) = Some l' \<and> holds (x # xs) l' \<and> sent l' = sent l"
  using holds_adds [OF holds_type, where xs = xs] assms by (auto simp: msg_type_def)

section \<open>The exchange\<close>

locale exchange =
  fixes request :: "'a \<Rightarrow> u8 list" and reply :: "'b \<Rightarrow> u8 list"
  assumes request_ok: "request a \<noteq> []" "wire_check (hd (request a)) (int (length (request a)))"
    and reply_ok: "reply b \<noteq> []" "length (reply b) \<le> LIB_CAP"
      "wire_check (hd (reply b)) (int (length (reply b)))"
    and codes: "uint (hd (reply b)) = uint (hd (request a)) + 1"
begin

lemma hd_get: "bs \<noteq> [] \<Longrightarrow> holds bs l \<Longrightarrow> buf l 0 = hd bs"
  by (metis add_0 hd_conv_nth length_greater_0_conv nth_get_bytes holds_def)

lemma transact_exchange:
  assumes "holds (request a) l" and "send_ok io" and "answer io = Some (reply b)"
  shows "transact io l = (int (length (reply b)),
    l\<lparr>sent := sent l @ [request a], buf := put_bytes 0 (reply b) (buf l)\<rparr>)"
proof -
  have h: "buf l 0 = hd (request a)" using hd_get assms(1) request_ok by blast
  have r: "put_bytes 0 (reply b) (buf l) 0 = hd (reply b)"
    using reply_ok(1) [of b] by (simp add: put_bytes_def hd_conv_nth)
  have f: "fill l = int (length (request a))" "get_bytes 0 (length (request a)) (buf l) = request a"
    using assms(1) by (simp_all add: holds_def)
  show ?thesis
    using assms(2,3) request_ok [of a] reply_ok [of b] codes [of b a] h r f
    by (simp add: transact_def receive_def Let_def)
qed

text \<open>No answer, or a failing \<open>send\<close>, is an error.\<close>

lemma transact_fails:
  assumes "holds (request a) l" and "\<not> send_ok io \<or> answer io = None"
  shows "fst (transact io l) = - 1"
  using assms(2) by (auto simp: transact_def receive_def Let_def)

end

interpretation echo_call: exchange "\<lambda>(h, x). [WIRE_ECHO, h, x]" "\<lambda>(h, x, e). [WIRE_ECHO + 1, h, x, e]"
  by unfold_locales (auto simp: wire_check_def)

interpretation open_call: exchange "\<lambda>(h, socket, z). WIRE_OPEN # h # bytes_of socket @ [z]"
    "\<lambda>(h, socket, i, z, e). [WIRE_OPEN + 1, h] @ bytes_of socket @ [i, z, e]"
  by unfold_locales (auto simp: wire_check_def)

interpretation listen_call: exchange "\<lambda>(socket, z). WIRE_LISTEN # bytes_of socket @ [z]"
    "\<lambda>(h, socket, i, z). [WIRE_LISTEN + 1, h] @ bytes_of socket @ [i, z]"
  by unfold_locales (auto simp: wire_check_def)

interpretation read_call: exchange "\<lambda>(i, n). [WIRE_READ, i, n]" "\<lambda>(i, bs). [WIRE_READ + 1, i] @ take 998 bs"
  by unfold_locales (auto simp: wire_check_def)

interpretation write_call: exchange "\<lambda>(i, bs). [WIRE_WRITE, i] @ bs"
    "\<lambda>(i, n). [WIRE_WRITE + 1, i, ucast (drop_bit 8 n), ucast (n :: u16)]"
  by unfold_locales (auto simp: wire_check_def)

interpretation close_call: exchange "\<lambda>i. [WIRE_CLOSE, i]" "\<lambda>i. [WIRE_CLOSE + 1, i]"
  by unfold_locales (auto simp: wire_check_def)

interpretation interrupt_call: exchange "\<lambda>i. [WIRE_INTERRUPT, i]" "\<lambda>i. [WIRE_INTERRUPT + 1, i]"
  by unfold_locales (auto simp: wire_check_def)

section \<open>The calls\<close>

lemma div_256: "0 \<le> n \<Longrightarrow> n < 65536 \<Longrightarrow> n div 256 mod 256 = n div 256" for n :: int
  by (rule mod_pos_pos_trivial) linarith+

lemma u16_of_bytes: "256 * uint (ucast (drop_bit 8 n) :: u8) + uint (ucast n :: u8) = uint (n :: u16)"
proof -
  have "uint (ucast (drop_bit 8 n) :: u8) = uint n div 256"
    using div_256 [OF uint_ge_0 u16_less, of n]
    by (simp only: unsigned_ucast_eq unsigned_drop_bit_eq) (simp add: take_bit_eq_mod drop_bit_eq_div)
  moreover have "uint (ucast n :: u8) = uint n mod 256"
    by (simp add: unsigned_ucast_eq take_bit_eq_mod)
  ultimately show ?thesis by simp
qed

text \<open>The calls with the bytes of the request in one piece.\<close>

lemma ncp_open_eq:
  "ncp_open io h socket sz l =
     do { l \<leftarrow> msg_adds (word_of_int h # bytes_of socket @ [word_of_int sz]) (msg_type WIRE_OPEN l);
          let (n, l) = transact io l;
          Some (if n = - 1 then (- 1, None, l)
                else if uint (buf l 1) \<noteq> h then (- 1, None, l)
                else if word_of_bytes (buf l 2) (buf l 3) (buf l 4) (buf l 5) \<noteq> socket then (- 1, None, l)
                else if buf l 8 = 255 then (- 2, None, l)
                else (0, Some (buf l 6, buf l 7), l)) }"
  by (simp add: ncp_open_def bytes_of_def)

lemma ncp_listen_eq:
  "ncp_listen io socket sz l =
     do { l \<leftarrow> msg_adds (bytes_of socket @ [word_of_int sz]) (msg_type WIRE_LISTEN l);
          let (n, l) = transact io l;
          Some (if n = - 1 then (- 1, None, l)
                else if buf l 1 = 0 then (- 1, None, l)
                else if word_of_bytes (buf l 2) (buf l 3) (buf l 4) (buf l 5) \<noteq> socket then (- 1, None, l)
                else (0, Some (buf l 1, buf l 6, buf l 7), l)) }"
  by (simp add: ncp_listen_def bytes_of_def)

lemma ncp_read_eq:
  "ncp_read io cn cap data len l =
     do { l \<leftarrow> msg_adds [word_of_int cn, word_of_int len] (msg_type WIRE_READ l);
          let (n, l) = transact io l;
          if n = - 1 then Some (- 1, data, 0, l)
          else if uint (buf l 1) \<noteq> cn then Some (- 1, data, 0, l)
          else do { data \<leftarrow> memcpy cap LIB_CAP 0 2 (n - 2) data (buf l); Some (0, data, n - 2, l) } }"
  by (simp add: ncp_read_def)

lemma ncp_echo_reply:
  assumes "send_ok io" and "answer io = Some [WIRE_ECHO + 1, h, y, e]"
  shows "\<exists>l'. ncp_echo io (uint h) (uint x) l = Some (if e = 0x10 then 0 else - uint e - 2, Some y, l') \<and>
    sent l' = sent l @ [[WIRE_ECHO, h, x]]"
proof -
  obtain l1 where l1: "msg_adds [h, x] (msg_type WIRE_ECHO l) = Some l1" "holds [WIRE_ECHO, h, x] l1" "sent l1 = sent l"
    using build_request [of "[h, x]" WIRE_ECHO l] by auto
  then show ?thesis
    using echo_call.transact_exchange [of "(h, x)" l1 io "(h, y, e)"] assms
    by (auto simp: ncp_echo_def put_bytes_def bind_eq_Some_conv)
qed

lemma ncp_open_reply:
  assumes "send_ok io" and "answer io = Some ([WIRE_OPEN + 1, h] @ bytes_of socket @ [i, z, e])"
  shows "\<exists>l'. ncp_open io (uint h) socket (uint y) l =
      Some (if e = 255 then (- 2, None, l') else (0, Some (i, z), l')) \<and>
    sent l' = sent l @ [WIRE_OPEN # h # bytes_of socket @ [y]]"
proof -
  obtain l1 where l1: "msg_adds (h # bytes_of socket @ [y]) (msg_type WIRE_OPEN l) = Some l1"
    "holds (WIRE_OPEN # h # bytes_of socket @ [y]) l1" "sent l1 = sent l"
    using build_request [of "h # bytes_of socket @ [y]" WIRE_OPEN l] by auto
  let ?b = "put_bytes 0 ([WIRE_OPEN + 1, h] @ bytes_of socket @ [i, z, e]) (buf l1)"
  have b: "?b 1 = h" "word_of_bytes (?b 2) (?b 3) (?b 4) (?b 5) = socket" "?b 6 = i" "?b 7 = z" "?b 8 = e"
    by (simp_all add: put_bytes_def bytes_of_def)
  show ?thesis
    using open_call.transact_exchange [of "(h, socket, y)" l1 io "(h, socket, i, z, e)"] assms l1 b
    by (simp add: ncp_open_eq)
qed

lemma ncp_listen_reply:
  assumes "send_ok io" and "answer io = Some ([WIRE_LISTEN + 1, h] @ bytes_of socket @ [i, z])"
  shows "\<exists>l'. ncp_listen io socket (uint y) l =
      Some (if h = 0 then (- 1, None, l') else (0, Some (h, i, z), l')) \<and>
    sent l' = sent l @ [WIRE_LISTEN # bytes_of socket @ [y]]"
proof -
  obtain l1 where l1: "msg_adds (bytes_of socket @ [y]) (msg_type WIRE_LISTEN l) = Some l1"
    "holds (WIRE_LISTEN # bytes_of socket @ [y]) l1" "sent l1 = sent l"
    using build_request [of "bytes_of socket @ [y]" WIRE_LISTEN l] by auto
  let ?b = "put_bytes 0 ([WIRE_LISTEN + 1, h] @ bytes_of socket @ [i, z]) (buf l1)"
  have b: "?b 1 = h" "word_of_bytes (?b 2) (?b 3) (?b 4) (?b 5) = socket" "?b 6 = i" "?b 7 = z"
    by (simp_all add: put_bytes_def bytes_of_def)
  show ?thesis
    using listen_call.transact_exchange [of "(socket, y)" l1 io "(h, socket, i, z)"] assms l1 b
    by (simp add: ncp_listen_eq)
qed

lemma ncp_read_reply:
  assumes "send_ok io" and "answer io = Some ([WIRE_READ + 1, i] @ bs)" and "length bs \<le> 998"
  shows "\<exists>l'. ncp_read io (uint i) cap data (uint n) l =
      (if length bs \<le> cap then Some (0, put_bytes 0 bs data, int (length bs), l') else None) \<and>
    sent l' = sent l @ [[WIRE_READ, i, n]]"
proof -
  obtain l1 where l1: "msg_adds [i, n] (msg_type WIRE_READ l) = Some l1" "holds [WIRE_READ, i, n] l1" "sent l1 = sent l"
    using build_request [of "[i, n]" WIRE_READ l] by auto
  let ?l = "l1\<lparr>sent := sent l @ [[WIRE_READ, i, n]], buf := put_bytes 0 ([WIRE_READ + 1, i] @ bs) (buf l1)\<rparr>"
  have t: "transact io l1 = (int (length bs) + 2, ?l)"
    using read_call.transact_exchange [of "(i, n)" l1 io "(i, bs)"] assms l1 by simp
  have "get_bytes 2 (length bs) (buf ?l) = bs"
    by (rule nth_equalityI) (simp_all add: put_bytes_def nth_append)
  moreover have "buf ?l 1 = i" by (simp add: put_bytes_def)
  ultimately show ?thesis
    using assms(3) l1(1) by (intro exI [of _ ?l]) (simp add: ncp_read_eq t memcpy_def del: msg_adds.simps)
qed

lemma ncp_write_reply:
  assumes "send_ok io" and "answer io = Some [WIRE_WRITE + 1, i, ucast (drop_bit 8 n), ucast (n :: u16)]"
    and "m \<le> cap"
  shows "if m \<le> 998
    then \<exists>l'. ncp_write io (uint i) cap data (int m) l = Some (0, uint n, l') \<and>
      sent l' = sent l @ [[WIRE_WRITE, i] @ get_bytes 0 m data]
    else ncp_write io (uint i) cap data (int m) l = None"
proof -
  obtain l1 where l1: "msg_add i (msg_type WIRE_WRITE l) = Some l1" "holds [WIRE_WRITE, i] l1" "sent l1 = sent l"
    using build_request [of "[i]" WIRE_WRITE l] by (auto simp: bind_eq_Some_conv)
  then have f: "fill l1 = 2" by (simp add: holds_def)
  show ?thesis
  proof (cases "m \<le> 998")
    case True
    let ?d = "get_bytes 0 m data"
    let ?l2 = "l1\<lparr>buf := put_bytes 2 ?d (buf l1), fill := 2 + int m\<rparr>"
    have "get_bytes 0 (2 + m) (buf ?l2) = [WIRE_WRITE, i] @ ?d"
      using l1(2) unfolding get_bytes_append
      by (simp add: get_put_bytes_len get_put_bytes_disjoint holds_def numeral_2_eq_2)
    then have "holds ([WIRE_WRITE, i] @ ?d) ?l2" by (simp add: holds_def)
    then have t: "transact io ?l2 = (4, ?l2\<lparr>sent := sent l @ [[WIRE_WRITE, i] @ ?d],
        buf := put_bytes 0 [WIRE_WRITE + 1, i, ucast (drop_bit 8 n), ucast n] (buf ?l2)\<rparr>)"
      using write_call.transact_exchange [of "(i, ?d)" ?l2 io "(i, n)"] assms(1,2) l1(3) by simp
    let ?b = "put_bytes 0 [WIRE_WRITE + 1, i, ucast (drop_bit 8 n), ucast n] (buf ?l2)"
    have b: "256 * uint (?b 2) + uint (?b 3) = uint n" "?b 1 = i"
      using u16_of_bytes [of n] by (simp_all add: put_bytes_def)
    have "memcpy LIB_CAP cap (nat (fill l1)) 0 (int m) (buf l1) data = Some (put_bytes 2 ?d (buf l1))"
      using True assms(3) f by (simp add: memcpy_def)
    then show ?thesis
      using True l1(1) f t b by (simp add: ncp_write_def)
  next
    case False
    then show ?thesis using l1(1) f by (simp add: ncp_write_def memcpy_def)
  qed
qed


end
