(* ===== verification/Posix.thy ===== *)
theory Posix
  imports Lib_Calls
begin

text \<open>
  What the applications use of the C library and the system: the results of \<open>read\<close> and \<open>write\<close>,
  C strings, \<open>atoi\<close>, and how a process that waits for input or ends is described. The system is
  an argument of the operations: a list of the answers it gives, one for each call. When the list
  ends the process waits for the next answer.
\<close>

section \<open>Processes\<close>

text \<open>
  What a process, or a function of one, has come to: it has left through \<open>exit\<close>, it waits for the
  system, or the function has returned.
\<close>

datatype ('a, 'b) run = Exited int 'a | Waiting 'a | Returned 'b 'a

primrec run_state :: "('a, 'b) run \<Rightarrow> 'a" where
  "run_state (Exited n s) = s"
| "run_state (Waiting s) = s"
| "run_state (Returned r s) = s"

section \<open>Files\<close>

text \<open>
  \<open>read (fd, &c, 1)\<close> whose result is not looked at, on a file whose readable bytes are known:
  at the end of them the variable keeps its value.
\<close>

definition read1 :: "u8 \<Rightarrow> u8 list \<Rightarrow> u8 \<times> u8 list" where
  "read1 c fd = (case fd of [] \<Rightarrow> (c, []) | b # bs \<Rightarrow> (b, bs))"

lemma read1_simps [simp]: "read1 c [] = (c, [])" "read1 c (b # bs) = (b, bs)"
  by (simp_all add: read1_def)

text \<open>
  The result of \<open>read\<close> with room for \<open>cap\<close> bytes: \<open>None\<close> for -1, the empty list for the end of the
  file. \<open>count\<close> is the number the call returns.
\<close>

definition read_upto :: "nat \<Rightarrow> u8 list option \<Rightarrow> u8 list option" where
  "read_upto cap r = map_option (take cap) r"

definition count_of :: "u8 list option \<Rightarrow> int" where
  "count_of r = (case r of None \<Rightarrow> - 1 | Some bs \<Rightarrow> int (length bs))"

text \<open>
  A loop around \<open>write\<close> that three of the programs have. After a short write it goes on with fewer
  bytes, but again from the start of the buffer. Each call takes the next result of \<open>write\<close>; the loop
  returns 1, or the result that is not positive.
\<close>

fun write_loop :: "u8 list \<Rightarrow> int \<Rightarrow> int list \<Rightarrow> u8 list \<Rightarrow> (u8 list, int) run" where
  "write_loop data n [] to = (if n \<le> 0 then Returned 1 to else Waiting to)"
| "write_loop data n (m # ms) to =
     (if n \<le> 0 then Returned 1 to
      else if m \<le> 0 then Returned m to
      else write_loop data (n - m) ms (to @ take (nat m) (take (nat n) data)))"

lemma write_loop_whole: "bs \<noteq> [] \<Longrightarrow> write_loop bs (int (length bs)) (int (length bs) # ms) to = Returned 1 (to @ bs)"
  by (cases ms) auto

section \<open>Strings\<close>

text \<open>The bytes before the first NUL, of which \<open>strlen\<close> is the number.\<close>

definition c_str :: "u8 list \<Rightarrow> u8 list" where
  "c_str bs = takeWhile (\<lambda>b. b \<noteq> 0) bs"

definition bytes_of_string :: "string \<Rightarrow> u8 list" where
  "bytes_of_string s = map of_char s"

lemma bytes_of_string_simps [simp]:
  "bytes_of_string [] = []" "bytes_of_string (c # s) = of_char c # bytes_of_string s"
  "length (bytes_of_string s) = length s"
  by (simp_all add: bytes_of_string_def)

lemma c_str_no_nul: "0 \<notin> set bs \<Longrightarrow> c_str bs = bs"
  unfolding c_str_def by (simp add: takeWhile_eq_all_conv) metis

lemma nul_not_in_c_str [simp]: "0 \<notin> set (c_str bs)"
  using set_takeWhileD unfolding c_str_def by fastforce

lemma length_c_str: "length (c_str bs) \<le> length bs"
  by (simp add: c_str_def length_takeWhile_le)

definition is_space :: "char \<Rightarrow> bool" where
  "is_space c \<longleftrightarrow> c = CHR '' '' \<or> (9 \<le> (of_char c :: nat) \<and> (of_char c :: nat) \<le> 13)"

definition is_digit :: "char \<Rightarrow> bool" where
  "is_digit c \<longleftrightarrow> 48 \<le> (of_char c :: nat) \<and> (of_char c :: nat) \<le> 57"

definition digits :: "string \<Rightarrow> int" where
  "digits s = foldl (\<lambda>a c. 10 * a + (of_char c - 48)) 0 s"

text \<open>\<open>atoi\<close> has no meaning for a number that is no \<open>int\<close>.\<close>

definition atoi :: "string \<Rightarrow> int option" where
  "atoi s =
     (let (sign, s) = (case dropWhile is_space s of
          [] \<Rightarrow> (1, [])
        | c # r \<Rightarrow> if c = CHR ''-'' then (- 1, r) else if c = CHR ''+'' then (1, r) else (1, c # r));
        v = sign * digits (takeWhile is_digit s)
      in if - 2147483648 \<le> v \<and> v \<le> 2147483647 then Some v else None)"

text \<open>The formats \<open>%o\<close> and \<open>%03o\<close> of an \<open>unsigned\<close>, and \<open>%u\<close>.\<close>

fun numeral_in :: "nat \<Rightarrow> nat \<Rightarrow> string" where
  "numeral_in b n = (if n < b \<or> b < 2 then [char_of (48 + n)] else numeral_in b (n div b) @ [char_of (48 + n mod b)])"

definition octal3 :: "int \<Rightarrow> string" where
  "octal3 n = (let s = numeral_in 8 (unat (word_of_int n :: u32)) in replicate (3 - length s) CHR ''0'' @ s)"

definition decimal :: "int \<Rightarrow> string" where
  "decimal n = numeral_in 10 (unat (word_of_int n :: u32))"

section \<open>Sending a buffer through the library\<close>

text \<open>
  The loop around \<open>ncp_write\<close> that the applications have: a short write continues with the rest.
  \<open>p\<close> is the index of \<open>ptr\<close> in the buffer, \<open>m\<close> the number of bytes left; each call takes the
  daemon's next answer.
\<close>

datatype send_end = All_sent | Send_error | Sent_none | Send_waits

fun send_all :: "int \<Rightarrow> nat \<Rightarrow> mem \<Rightarrow> nat \<Rightarrow> int \<Rightarrow> daemon_io list \<Rightarrow> lib_state \<Rightarrow>
    (send_end \<times> daemon_io list \<times> lib_state) option" where
  "send_all cn cap data p m ios l =
     (if m \<le> 0 then Some (All_sent, ios, l)
      else case ios of
        [] \<Rightarrow> Some (Send_waits, [], l)
      | io # ios \<Rightarrow>
          do { (r, n, l) \<leftarrow> ncp_write io cn (cap - p) (\<lambda>k. data (p + k)) m l;
               if r = - 1 then Some (Send_error, ios, l)
               else if n = 0 then Some (Sent_none, ios, l)
               else send_all cn cap data (p + nat n) (m - n) ios l })"

declare send_all.simps [simp del]

lemma send_all_done: "m \<le> 0 \<Longrightarrow> send_all cn cap data p m ios l = Some (All_sent, ios, l)"
  by (simp add: send_all.simps)

lemma send_all_waits: "0 < m \<Longrightarrow> send_all cn cap data p m [] l = Some (Send_waits, [], l)"
  by (simp add: send_all.simps)

lemma send_all_rest: "send_all cn cap data p m ios l = Some (e, ios', l') \<Longrightarrow> length ios' \<le> length ios"
proof (induction ios arbitrary: p m l)
  case Nil
  then show ?case by (simp add: send_all.simps split: if_splits)
next
  case (Cons io ios)
  then show ?case
    by (subst (asm) (2) send_all.simps) (fastforce simp: bind_eq_Some_conv split: if_splits)
qed

text \<open>The answer of the daemon that it has written \<open>n\<close> bytes, and to a read, that it has these.\<close>

definition wrote :: "u8 \<Rightarrow> nat \<Rightarrow> daemon_io" where
  "wrote i n = \<lparr>send_ok = True,
     answer = Some [WIRE_WRITE + 1, i, ucast (drop_bit 8 (word_of_nat n :: u16)), ucast (word_of_nat n :: u16)]\<rparr>"

definition delivers :: "u8 \<Rightarrow> u8 list \<Rightarrow> daemon_io" where
  "delivers i bs = \<lparr>send_ok = True, answer = Some ([WIRE_READ + 1, i] @ bs)\<rparr>"

lemma ncp_write_wrote:
  assumes "m \<le> 998" "m \<le> cap" "n < 65536"
  shows "\<exists>l'. ncp_write (wrote i n) (uint i) cap data (int m) l = Some (0, int n, l') \<and>
    sent l' = sent l @ [[WIRE_WRITE, i] @ get_bytes 0 m data]"
proof -
  have "uint (word_of_nat n :: u16) = int n"
    using assms(3) by (simp add: uint_nat unat_of_nat del: int_nat_eq)
  then show ?thesis
    using ncp_write_reply [of "wrote i n" i "word_of_nat n" m cap data l] assms by (simp add: wrote_def)
qed

lemma ncp_write_long:
  assumes "998 < m"
  shows "ncp_write io (uint (i :: u8)) cap data (int m) l = None"
proof -
  obtain l1 where l1: "msg_add i (msg_type WIRE_WRITE l) = Some l1" "holds [WIRE_WRITE, i] l1"
    using build_request [of "[i]" WIRE_WRITE l] by (auto simp: bind_eq_Some_conv)
  then have "fill l1 = 2" by (simp add: holds_def)
  then show ?thesis using l1(1) assms by (simp add: ncp_write_def memcpy_def)
qed

lemma ncp_read_delivers:
  assumes "length bs \<le> 998" "length bs \<le> cap"
  shows "\<exists>l'. ncp_read (delivers i bs) (uint i) cap data n l = Some (0, put_bytes 0 bs data, int (length bs), l') \<and>
    sent l' = sent l @ [[WIRE_READ, i, word_of_int n]]"
proof -
  have "ncp_read (delivers i bs) (uint i) cap data n l = ncp_read (delivers i bs) (uint i) cap data (uint (word_of_int n :: u8)) l"
    by (simp add: ncp_read_def)
  then show ?thesis
    using ncp_read_reply [of "delivers i bs" i bs cap data "word_of_int n" l] assms by (simp add: delivers_def)
qed

text \<open>The buffer as it goes out when the daemon takes \<open>ns\<close> bytes of the datagrams.\<close>

fun pieces :: "nat list \<Rightarrow> u8 list \<Rightarrow> u8 list list" where
  "pieces [] bs = []"
| "pieces (n # ns) bs = bs # pieces ns (drop n bs)"

lemma pieces_taken: "sum_list ns = length bs \<Longrightarrow> concat (map2 take ns (pieces ns bs)) = bs"
  by (induction ns arbitrary: bs) (auto simp: min_def)

lemma length_pieces [simp]: "length (pieces ns bs) = length ns"
  by (induction ns arbitrary: bs) auto

text \<open>
  Whatever parts the daemon takes, as long as it takes something each time, the loop ends with the
  last byte, after one datagram for each answer.
\<close>

lemma send_all_delivers_from:
  assumes "sum_list ns = m" "\<forall>n\<in>set ns. 0 < n" "p + m \<le> cap" "m \<le> 998"
  shows "\<exists>l'. send_all (uint i) cap data p (int m) (map (wrote i) ns @ ios) l = Some (All_sent, ios, l') \<and>
    sent l' = sent l @ map (\<lambda>bs. [WIRE_WRITE, i] @ bs) (pieces ns (get_bytes p m data))"
  using assms
proof (induction ns arbitrary: p m l)
  case Nil
  then show ?case by (simp add: send_all_done)
next
  case (Cons n ns)
  let ?m = "sum_list ns"
  have m: "m = n + ?m" "0 < n" using Cons.prems by auto
  obtain l1 where l1: "ncp_write (wrote i n) (uint i) (cap - p) (\<lambda>k. data (p + k)) (int m) l = Some (0, int n, l1)"
      "sent l1 = sent l @ [[WIRE_WRITE, i] @ get_bytes 0 m (\<lambda>k. data (p + k))]"
    using ncp_write_wrote [of m "cap - p" n i "\<lambda>k. data (p + k)" l] Cons.prems(3,4) m by fastforce
  obtain l2 where l2: "send_all (uint i) cap data (p + n) (int ?m) (map (wrote i) ns @ ios) l1 = Some (All_sent, ios, l2)"
      "sent l2 = sent l1 @ map (\<lambda>bs. [WIRE_WRITE, i] @ bs) (pieces ns (get_bytes (p + n) ?m data))"
    using Cons.IH [of ?m "p + n" l1] Cons.prems m by auto
  have g: "get_bytes 0 m (\<lambda>k. data (p + k)) = get_bytes p m data" by (simp add: get_bytes_def)
  have d: "get_bytes (p + n) ?m data = drop n (get_bytes p m data)"
    unfolding m(1) get_bytes_append by simp
  have s: "int m - int n = int ?m" using m by simp
  show ?case
    using l1 l2 m Cons.prems(4) unfolding g d s [symmetric]
    by (simp add: send_all.simps [of _ _ _ p] s)
qed

lemma send_all_delivers:
  assumes "sum_list ns = m" "\<forall>n\<in>set ns. 0 < n" "m \<le> cap" "m \<le> 998"
  shows "\<exists>l'. send_all (uint i) cap data 0 (int m) (map (wrote i) ns @ ios) l = Some (All_sent, ios, l') \<and>
    sent l' = sent l @ map (\<lambda>bs. [WIRE_WRITE, i] @ bs) (pieces ns (get_bytes 0 m data))"
  using send_all_delivers_from [of ns m 0 cap i data ios l] assms by simp

lemma atoi_small:
  "atoi ''-1'' = Some (- 1)" "atoi '' 23'' = Some 23"
  by (simp_all add: atoi_def digits_def is_space_def is_digit_def)

end
