(* ===== verification/Ncp_Window.thy ===== *)
theory Ncp_Window
  imports Ncp_Flow Posix Imp_Props
begin

text \<open>
  The messages of the IMP that the daemon only reports (\<open>process_leader_error\<close> to \<open>process_reset\<close> in
  \<open>src/ncp.c\<close>), and what it means that two of them take the place of an RFNM.
\<close>

section \<open>Reports\<close>

text \<open>The line on \<open>stderr\<close>.\<close>

definition leader_error_reason :: "u8 \<Rightarrow> string" where
  "leader_error_reason b =
     (let k = b AND 0x0F
      in if k = 0 then ''IMP error during leader'' else if k = 1 then ''Message less than 32 bits''
         else if k = 2 then ''Illegal type'' else ''Unknown reason'')"

definition process_leader_error :: "mem \<Rightarrow> string" where
  "process_leader_error p = ''NCP: Error in leader: '' @ leader_error_reason (p 3) @ [CHR ''.'', CHR 0x0A]"

definition incomplete_reason :: "u8 \<Rightarrow> string" where
  "incomplete_reason b =
     (let k = b AND 0x0F
      in if k = 0 then ''Host did not accept message quickly enough'' else if k = 1 then ''Message too long''
         else if k = 2 then ''Message took too long in transmission'' else if k = 3 then ''Message lost in network''
         else if k = 4 then ''Resources unavailable'' else if k = 5 then ''I/O failure during reception''
         else ''Unknown reason'')"

definition process_incomplete :: "mem \<Rightarrow> string" where
  "process_incomplete p = ''NCP: Incomplete transmission from '' @ octal3 (uint (p 1)) @ '': '' @
     incomplete_reason (p 3) @ [CHR ''.'', CHR 0x0A]"

definition host_dead_reason :: "u8 \<Rightarrow> string" where
  "host_dead_reason b =
     (let k = b AND 0x0F
      in if k = 0 then ''IMP cannot be reached'' else if k = 1 then ''is not up''
         else if k = 3 then ''communication administratively prohibited'' else ''dead, unknown reason'')"

definition process_imp_down :: string where "process_imp_down = ''NCP: IMP going down.'' @ [CHR 0x0A]"
definition process_blocked :: string where "process_blocked = ''NCP: Blocked link.'' @ [CHR 0x0A]"
definition process_imp_nop :: string where "process_imp_nop = ''NCP: NOP.'' @ [CHR 0x0A]"
definition process_full :: string where "process_full = ''NCP: Link table full.'' @ [CHR 0x0A]"
definition process_data_error :: string where "process_data_error = ''NCP: Error in data.'' @ [CHR 0x0A]"
definition process_reset :: string where "process_reset = ''NCP: IMP reset.'' @ [CHR 0x0A]"

text \<open>The table: a function that only reports, or one that changes the state.\<close>

datatype imp_message = Report "mem \<Rightarrow> string" | Handle "ncp \<Rightarrow> ncp option"

definition imp_messages :: "imp_message list" where
  "imp_messages = [Handle process_regular, Report process_leader_error, Report (\<lambda>_. process_imp_down),
     Report (\<lambda>_. process_blocked), Report (\<lambda>_. process_imp_nop), Handle process_rfnm, Report (\<lambda>_. process_full),
     Handle process_host_dead, Report (\<lambda>_. process_data_error), Report process_incomplete, Report (\<lambda>_. process_reset)]"

primrec run_imp_message :: "imp_message \<Rightarrow> ncp \<Rightarrow> ncp option" where
  "run_imp_message (Report f) s = Some s"
| "run_imp_message (Handle f) s = f s"

lemma type_unat:
  fixes b :: u8
  shows "b = 0 \<longleftrightarrow> unat b = 0" "b = 5 \<longleftrightarrow> unat b = 5" "b = 7 \<longleftrightarrow> unat b = 7" "b \<le> 10 \<longleftrightarrow> unat b \<le> 10"
  by (subst word_unat_eq_iff, simp)+ (simp add: word_le_nat_alt)

text \<open>\<open>process_imp\<close> is the dispatch through the table.\<close>

lemma nth_imp_messages:
  assumes "k \<le> 10"
  shows "run_imp_message (imp_messages ! k) s =
    (if k = 0 then process_regular s else if k = 5 then process_rfnm s else if k = 7 then process_host_dead s else Some s)"
proof -
  have "k = 0 \<or> k = 1 \<or> k = 2 \<or> k = 3 \<or> k = 4 \<or> k = 5 \<or> k = 6 \<or> k = 7 \<or> k = 8 \<or> k = 9 \<or> k = 10"
    using assms by (simp add: le_Suc_eq eval_nat_numeral)
  then show ?thesis by (elim disjE) (simp_all add: imp_messages_def)
qed

lemma process_imp_table:
  "process_imp n s =
    (if n < 2 then send_leader_error 1 s
     else let k = unat (packet s 0 AND 0x0F)
       in if k < length imp_messages then run_imp_message (imp_messages ! k) s else send_leader_error 2 s)"
proof -
  let ?t = "packet s 0 AND 0x0F"
  have l: "length imp_messages = 11" by (simp add: imp_messages_def)
  have d: "process_imp n s = (if n < 2 then send_leader_error 1 s
      else if unat ?t = 0 then process_regular s else if unat ?t = 5 then process_rfnm s
      else if unat ?t = 7 then process_host_dead s else if unat ?t \<le> 10 then Some s else send_leader_error 2 s)"
    unfolding process_imp_def Let_def type_unat [of ?t] ..
  show ?thesis
  proof (cases "unat ?t \<le> 10")
    case True
    then show ?thesis using nth_imp_messages [OF True, of s] by (simp add: d l Let_def)
  next
    case False
    then show ?thesis by (simp add: d l Let_def)
  qed
qed

section \<open>Messages that are never answered by an RFNM\<close>

text \<open>Runs in which no RFNM of host \<open>h\<close> arrives.\<close>

inductive quiet_run :: "u8 \<Rightarrow> ncp \<Rightarrow> ncp \<Rightarrow> bool" for h where
  quiet_refl: "quiet_run h s s"
| quiet_tick: "quiet_run h s t \<Longrightarrow> tick t = Some u \<Longrightarrow> quiet_run h s u"
| quiet_request: "quiet_run h s t \<Longrightarrow> application sender bs t = Some u \<Longrightarrow> quiet_run h s u"
| quiet_imp: "quiet_run h s t \<Longrightarrow>
    imp_receive_message PACKET_CAP (\<lambda>_. 0) (imp t) rs = Some (Rx_return p n st calls) \<Longrightarrow>
    \<not> (2 \<le> n \<and> p 0 AND 0x0F = 5 \<and> p 1 = h) \<Longrightarrow> from_imp p n st calls t = Some u \<Longrightarrow> quiet_run h s u"

lemma imp_ready_keeps:
  "packet (fold ncp_imp_ready calls s) = packet s" "hosts (fold ncp_imp_ready calls s) = hosts s"
  "connection (fold ncp_imp_ready calls s) = connection s"
  by (induction calls arbitrary: s) (auto simp: ncp_imp_ready_def)

lemma quiet_run_wf: "quiet_run h s t \<Longrightarrow> wf_ncp s \<Longrightarrow> wf_ncp t"
proof (induction rule: quiet_run.induct)
  case (quiet_tick s t u)
  then show ?case using wf_rel.step_within [of t u] daemon_step.time_out by blast
next
  case (quiet_request s t sender bs u)
  then show ?case using wf_rel.step_within [of t u] daemon_step.request by blast
next
  case (quiet_imp s t rs p n st calls u)
  then show ?case using wf_rel.step_within [of t u] daemon_step.imp_message by blast
qed

lemma booked_grows: "booked a s t \<Longrightarrow> a h = 0 \<Longrightarrow> outstanding_rfnm (hosts s h) \<le> outstanding_rfnm (hosts t h)"
  by (auto simp: booked_def sent_to_def)

lemma from_imp_grows:
  assumes "from_imp p n st calls s = Some t" "wf_ncp s" "\<not> (2 \<le> n \<and> p 0 AND 0x0F = 5 \<and> p 1 = h)"
  shows "outstanding_rfnm (hosts s h) \<le> outstanding_rfnm (hosts t h)"
proof -
  let ?u = "fold ncp_imp_ready calls (s\<lparr>packet := p, imp := st\<rparr>)"
  have u: "packet ?u = p" "hosts ?u = hosts s" "connection ?u = connection s"
    using imp_ready_keeps [of calls "s\<lparr>packet := p, imp := st\<rparr>"] by simp_all
  have w: "wf_ncp ?u" using wf_cong [OF u(3)] assms(2) by simp
  show ?thesis
  proof (cases "n > 0")
    case True
    then have "process_imp n ?u = Some t" using assms(1) by (simp add: from_imp_def Let_def)
    from booked_grows [OF process_imp_booked [OF this w], of h] show ?thesis
      using assms(3) u by (simp add: answers_def)
  next
    case False
    then show ?thesis using assms(1) u by (simp add: from_imp_def Let_def)
  qed
qed

lemma quiet_run_grows:
  "quiet_run h s t \<Longrightarrow> wf_ncp s \<Longrightarrow> outstanding_rfnm (hosts s h) \<le> outstanding_rfnm (hosts t h)"
proof (induction rule: quiet_run.induct)
  case (quiet_tick s t u)
  have "wf_ncp t" using quiet_run_wf quiet_tick by blast
  from booked_grows [OF tick_booked [OF quiet_tick(2) this], of h] quiet_tick show ?case by force
next
  case (quiet_request s t sender bs u)
  have "wf_ncp t" using quiet_run_wf quiet_request by blast
  from booked_grows [OF application_booked [OF quiet_request(2) this], of h] quiet_request show ?case by force
next
  case (quiet_imp s t rs p n st calls u)
  have "wf_ncp t" using quiet_run_wf quiet_imp by blast
  from from_imp_grows [OF quiet_imp(4) this quiet_imp(3)] quiet_imp show ?case by force
qed simp

text \<open>
  C19. What is not answered by an RFNM is waited for without end. When four messages to a host are unanswered, for
  instance because the IMP has told that the host is dead or that the transmission was incomplete, the number
  never gets smaller, whatever the IMP, the applications and the clock make the daemon do, until an RFNM of that
  host arrives; and until then the queue of the host does nothing, so whatever waits in it is never sent.
\<close>

theorem window_lost:
  assumes "wf_ncp s" and "4 \<le> outstanding_rfnm (hosts s h)" and "quiet_run h s t"
  shows "4 \<le> outstanding_rfnm (hosts t h) \<and> check_rfnm (uint h) t = Some t"
proof -
  have "4 \<le> outstanding_rfnm (hosts t h)" using quiet_run_grows [OF assms(3,1)] assms(2) by simp
  then show ?thesis
    using check_rfnm_loop_full [of "[0..CONNECTIONS - 1]" "uint h" t NESTING] by (simp add: check_rfnm_def)
qed

text \<open>A message that says that the transmission was incomplete is a step of such a run.\<close>

definition full_ncp :: ncp where
  "full_ncp = waiting_ncp\<lparr>hosts := (hosts waiting_ncp)(5 := (hosts waiting_ncp 5)\<lparr>outstanding_rfnm := 4\<rparr>)\<rparr>"

lemma full_wf: "wf_ncp full_ncp"
  using wf_cong [of full_ncp waiting_ncp] waiting_wf by (simp add: full_ncp_def)

definition incomplete_text :: "u8 list" where "incomplete_text = [9, 5, 0, 0]"

lemma incomplete_quiet:
  "\<exists>rs p st calls t. p 0 = 9 \<and> p 1 = 5 \<and> imp_receive_message PACKET_CAP (\<lambda>_. 0) (imp full_ncp) rs = Some (Rx_return p 2 st calls) \<and>
    from_imp p 2 st calls full_ncp = Some t \<and> quiet_run 5 full_ncp t"
proof -
  let ?m = "put_bytes 12 incomplete_text (\<lambda>_. 0)"
  have g: "get_bytes 12 4 ?m = incomplete_text"
    using get_put_bytes [of 12 incomplete_text "\<lambda>_. 0"] by (simp add: incomplete_text_def numeral_eq_Suc)
  have i: "imp full_ncp = imp_init" by (simp add: full_ncp_def waiting_ncp_def zero_ncp_def)
  obtain bs d st where m: "imp_send_message 200 ?m 2 imp_init = Some (bs, d, st)"
    by (simp add: imp_send_message_def Let_def)
  have "\<exists>p st calls. imp_receive_message PACKET_CAP (\<lambda>_. 0) imp_init [Rx_datagram bs] = Some (Rx_return p 2 st calls) \<and>
      get_bytes 0 4 p = get_bytes 12 4 ?m"
    using imp_round_trip [OF m, of PACKET_CAP imp_init "\<lambda>_. 0" "[]"] by (auto simp: imp_init_def)
  then obtain p st' calls where r: "imp_receive_message PACKET_CAP (\<lambda>_. 0) imp_init [Rx_datagram bs] = Some (Rx_return p 2 st' calls)"
      "get_bytes 0 4 p = incomplete_text"
    using g by auto
  then have p: "p 0 = 9" "p 1 = 5" by (simp_all add: get_bytes_def incomplete_text_def upt_rec)
  let ?t = "fold ncp_imp_ready calls (full_ncp\<lparr>packet := p, imp := st'\<rparr>)"
  have f: "from_imp p 2 st' calls full_ncp = Some ?t"
    using p imp_ready_keeps [of calls "full_ncp\<lparr>packet := p, imp := st'\<rparr>"] by (simp add: from_imp_def Let_def process_imp_def)
  from quiet_imp [OF quiet_refl, of full_ncp "[Rx_datagram bs]" p 2 st' calls 5 ?t] r(1) p f
  have "quiet_run 5 full_ncp ?t" by (simp add: i)
  then show ?thesis using r(1) p f by (metis i)
qed

theorem window_lost_witness:
  "\<exists>p st calls t. p 0 = 9 \<and> p 1 = 5 \<and> from_imp p 2 st calls full_ncp = Some t \<and> check_rfnm 5 t = Some t"
proof -
  obtain p st calls t where *: "p 0 = 9" "p 1 = 5" "from_imp p 2 st calls full_ncp = Some t" "quiet_run 5 full_ncp t"
    using incomplete_quiet by blast
  have "4 \<le> outstanding_rfnm (hosts full_ncp 5)" by (simp add: full_ncp_def)
  from window_lost [OF full_wf this *(4)] have "check_rfnm 5 t = Some t" by simp
  then show ?thesis using *(1-3) by blast
qed

end
