(* ===== verification/Lib_Props.thy ===== *)
theory Lib_Props
  imports Lib_Calls Ncp_Requests
begin

text \<open>
  The library against the daemon: each call sends the datagram that the daemon expects, and takes
  the results out of the reply that the daemon sends.
\<close>

section \<open>The calls\<close>

text \<open>
  \<open>ncp_echo\<close>. With the daemon's reply for the host that was asked for, the call has sent the
  request of three bytes and returns 0 and the byte of the reply if the error in it is 0x10, and a number
  below -1 that tells the error otherwise.
\<close>

theorem lib_echo:
  assumes "send_ok io" and "answer io = Some [WIRE_ECHO + 1, h, y, e]"
  shows "\<exists>l'. ncp_echo io (uint h) (uint x) l = Some (if e = 0x10 then 0 else - uint e - 2, Some y, l') \<and>
    sent l' = sent l @ [[WIRE_ECHO, h, x]]"
  using assms by (rule ncp_echo_reply)

text \<open>
  \<open>ncp_open\<close>. The request carries host, socket and byte size; with the daemon's reply for
  them the call returns 0 and the connection and size of the reply, or -2 if it says 255.
\<close>

theorem lib_open:
  assumes "send_ok io" and "answer io = Some ([WIRE_OPEN + 1, h] @ bytes_of socket @ [i, z, e])"
  shows "\<exists>l'. ncp_open io (uint h) socket (uint y) l =
      Some (if e = 255 then (- 2, None, l') else (0, Some (i, z), l')) \<and>
    sent l' = sent l @ [WIRE_OPEN # h # bytes_of socket @ [y]]"
  using assms by (rule ncp_open_reply)

text \<open>
  \<open>ncp_listen\<close>. The request carries socket and byte size; with a reply for the socket the call
  returns 0 and host, connection and size of the reply. The reply with host 0, by which the daemon
  says that it could not listen, makes it return -1.
\<close>

theorem lib_listen:
  assumes "send_ok io" and "answer io = Some ([WIRE_LISTEN + 1, h] @ bytes_of socket @ [i, z])"
  shows "\<exists>l'. ncp_listen io socket (uint y) l =
      Some (if h = 0 then (- 1, None, l') else (0, Some (h, i, z), l')) \<and>
    sent l' = sent l @ [WIRE_LISTEN # bytes_of socket @ [y]]"
  using assms by (rule ncp_listen_reply)

text \<open>
  \<open>ncp_read\<close>. With the daemon's reply for the connection the call returns 0, all the bytes of
  the reply at the start of the caller's array, and their number, which need not be the number that
  was asked for: a reply longer than the array is copied beyond its end.
\<close>

theorem lib_read:
  assumes "send_ok io" and "answer io = Some ([WIRE_READ + 1, i] @ bs)" and "length bs \<le> 998"
  shows "\<exists>l'. ncp_read io (uint i) cap data (uint n) l =
      (if length bs \<le> cap then Some (0, put_bytes 0 bs data, int (length bs), l') else None) \<and>
    sent l' = sent l @ [[WIRE_READ, i, n]]"
  using assms by (rule ncp_read_reply)

text \<open>
  \<open>ncp_write\<close>. Up to 998 bytes of the caller's array travel in the request, unchanged and in
  order, and the call returns 0 and the 16-bit number of bytes that the daemon's reply says it wrote.
  More than 998 bytes are copied beyond the end of the library's array.
\<close>

theorem lib_write:
  assumes "send_ok io" and "answer io = Some [WIRE_WRITE + 1, i, ucast (drop_bit 8 n), ucast (n :: u16)]"
    and "m \<le> cap"
  shows "if m \<le> 998
    then \<exists>l'. ncp_write io (uint i) cap data (int m) l = Some (0, uint n, l') \<and>
      sent l' = sent l @ [[WIRE_WRITE, i] @ get_bytes 0 m data]
    else ncp_write io (uint i) cap data (int m) l = None"
  using assms by (rule ncp_write_reply)

text \<open>
  Interrupts. The daemon turns the request of \<open>ncp_interrupt\<close> for a connection into one INS on
  its send link and answers the application nothing, so the library, which waits for a reply to every
  request, never returns from that call.
\<close>

theorem interrupt_unanswered:
  assumes "get (uint i) s = Some c"
  shows "\<exists>t e. application a [WIRE_INTERRUPT, i] s = Some t \<and> out t = out s @ [e] \<and>
    control (word_of_int (host c)) NCP_INS [word_of_int (link (snd c))] e \<and> is_to_imp e"
proof -
  let ?s = "receive_request a [WIRE_INTERRUPT, i] s"
  have a: "app ?s 0 = WIRE_INTERRUPT" "app ?s 1 = i" by (simp_all add: receive_request_def put_bytes_def)
  have g: "get (uint i) ?s = Some c" using assms by (simp add: get_def receive_request_def split: if_splits)
  obtain t where "ncp_ins (word_of_int (host c)) (word_of_int (link (snd c))) ?s = Some t"
    "sends (word_of_int (host c)) NCP_INS [word_of_int (link (snd c))] ?s t"
    using commands_send(5) by blast
  moreover have "out ?s = out s" by (simp add: receive_request_def)
  moreover have "application a [WIRE_INTERRUPT, i] s = app_interrupt ?s"
    using a by (simp add: application_def wire_check_def Let_def)
  ultimately show ?thesis
    using a g unfolding app_interrupt_def Let_def a(2) g by (auto simp: sends_def control_def)
qed

section \<open>The calls at work\<close>

definition lib_start :: lib_state where
  "lib_start = \<lparr>buf = (\<lambda>_. 0), fill = 0, sent = []\<rparr>"

theorem lib_echo_witness:
  "\<exists>l'. ncp_echo \<lparr>send_ok = True, answer = Some [2, 5, 42, 0x10]\<rparr> 5 42 lib_start = Some (0, Some 42, l') \<and>
    sent l' = [[WIRE_ECHO, 5, 42]]"
  using lib_echo [of "\<lparr>send_ok = True, answer = Some [2, 5, 42, 0x10]\<rparr>" 5 42 16 42 lib_start]
  by (simp add: lib_start_def)

theorem lib_open_witness:
  "\<exists>l'. ncp_open \<lparr>send_ok = True, answer = Some ([4, 5] @ bytes_of 23 @ [3, 8, 0])\<rparr> 5 23 8 lib_start =
      Some (0, Some (3, 8), l') \<and> length (sent l') = 1"
  using lib_open [of "\<lparr>send_ok = True, answer = Some ([4, 5] @ bytes_of 23 @ [3, 8, 0])\<rparr>" 5 23 3 8 0 8 lib_start]
  by (auto simp: lib_start_def)

theorem lib_listen_witness:
  "\<exists>l'. ncp_listen \<lparr>send_ok = True, answer = Some ([6, 5] @ bytes_of 23 @ [3, 8])\<rparr> 23 8 lib_start =
      Some (0, Some (5, 3, 8), l') \<and> length (sent l') = 1"
  using lib_listen [of "\<lparr>send_ok = True, answer = Some ([6, 5] @ bytes_of 23 @ [3, 8])\<rparr>" 5 23 3 8 8 lib_start]
  by (auto simp: lib_start_def)

theorem lib_read_witness:
  "\<exists>l'. ncp_read \<lparr>send_ok = True, answer = Some [8, 3, 1, 2]\<rparr> 3 100 (\<lambda>_. 0) 50 lib_start =
      Some (0, put_bytes 0 [1, 2] (\<lambda>_. 0), 2, l') \<and> sent l' = [[WIRE_READ, 3, 50]]"
  using lib_read [of "\<lparr>send_ok = True, answer = Some [8, 3, 1, 2]\<rparr>" 3 "[1, 2]" 100 "\<lambda>_. 0" 50 lib_start]
  by (simp add: lib_start_def)

theorem lib_write_witness:
  "\<exists>l'. ncp_write \<lparr>send_ok = True, answer = Some [10, 3, 0, 2]\<rparr> 3 100 (\<lambda>_. 7) 2 lib_start = Some (0, 2, l') \<and>
    sent l' = [[WIRE_WRITE, 3, 7, 7]]"
  using lib_write [of "\<lparr>send_ok = True, answer = Some [10, 3, 0, 2]\<rparr>" 3 2 2 100 "\<lambda>_. 7" lib_start]
  by (auto simp: lib_start_def get_bytes_def upt_rec)

theorem interrupt_unanswered_witness:
  "\<exists>t e. application zero_client [WIRE_INTERRUPT, 4] open_ncp = Some t \<and> out t = [e] \<and> is_to_imp e"
proof -
  have "get (uint (4 :: u8)) open_ncp = Some established" by (simp add: get_def open_ncp_def)
  moreover have "out open_ncp = []" by (simp add: open_ncp_def empty_ncp_def zero_ncp_def)
  ultimately show ?thesis using interrupt_unanswered by fastforce
qed

end
