(* ===== verification/Telnet.thy ===== *)
theory Telnet
  imports Posix
begin

text \<open>
  The TELNET program (\<open>apps/telnet.c\<close>): the three decoders of the byte stream from the network,
  the two child processes that carry bytes between a pipe and the connection, the loops of client
  and server, and the choice of them in \<open>main\<close>.
\<close>

section \<open>Codes\<close>

abbreviation (input) OLD_TELNET :: int where "OLD_TELNET \<equiv> 1"
abbreviation (input) NEW_TELNET :: int where "NEW_TELNET \<equiv> 23"

abbreviation (input) IAC :: u8 where "IAC \<equiv> 255"
abbreviation (input) DONT :: u8 where "DONT \<equiv> 254"
abbreviation (input) DO :: u8 where "DO \<equiv> 253"
abbreviation (input) WONT :: u8 where "WONT \<equiv> 252"
abbreviation (input) WILL :: u8 where "WILL \<equiv> 251"
abbreviation (input) EC :: u8 where "EC \<equiv> 247"
abbreviation (input) NUL :: u8 where "NUL \<equiv> 0"

abbreviation (input) OPT_ECHO :: u8 where "OPT_ECHO \<equiv> 1"
abbreviation (input) OPT_SUPPRESS_GO_AHEAD :: u8 where "OPT_SUPPRESS_GO_AHEAD \<equiv> 3"

abbreviation (input) OMARK :: u8 where "OMARK \<equiv> 128"
abbreviation (input) OBREAK :: u8 where "OBREAK \<equiv> 129"
abbreviation (input) ONOP :: u8 where "ONOP \<equiv> 130"
abbreviation (input) ONOECHO :: u8 where "ONOECHO \<equiv> 131"
abbreviation (input) OECHO :: u8 where "OECHO \<equiv> 132"
abbreviation (input) OHIDE :: u8 where "OHIDE \<equiv> 133"
abbreviation (input) OASCII :: u8 where "OASCII \<equiv> 160"
abbreviation (input) OTRANSPARENT :: u8 where "OTRANSPARENT \<equiv> 161"
abbreviation (input) OEBCDIC :: u8 where "OEBCDIC \<equiv> 162"

definition old_client_options :: "u8 list" where "old_client_options = [OECHO, NUL]"
definition old_server_options :: "u8 list" where "old_server_options = [ONOECHO, NUL]"

definition new_client_options :: "u8 list" where
  "new_client_options =
     [IAC, DO, OPT_ECHO, IAC, DO, OPT_SUPPRESS_GO_AHEAD, IAC, WILL, OPT_SUPPRESS_GO_AHEAD, NUL]"

definition new_server_options :: "u8 list" where
  "new_server_options =
     [IAC, DONT, OPT_ECHO, IAC, DO, OPT_SUPPRESS_GO_AHEAD, IAC, WILL, OPT_SUPPRESS_GO_AHEAD,
      IAC, WILL, OPT_ECHO, NUL]"

definition bin_options :: "u8 list" where "bin_options = [NUL]"

section \<open>The decoders\<close>

text \<open>
  What the decoders do besides reading: bytes given to \<open>write (wfd, ...)\<close>, and reports on
  \<open>stderr\<close>. \<open>rfd\<close> is the list of the bytes that can be read; each function returns what is left.
\<close>

datatype term_effect = Out "u8 list" | Err string

text \<open>The option byte is read, and no option does anything.\<close>

definition option_byte :: "u8 list \<Rightarrow> u8 list" where
  "option_byte rfd = snd (read1 0 rfd)"

text \<open>SB, GA, EL, AYT, AO, IP, BRK, MARK, NOP, SE and unknown codes all just return.\<close>

definition special :: "u8 \<Rightarrow> u8 list \<Rightarrow> u8 list \<times> term_effect list" where
  "special c rfd =
     (if c = IAC then (rfd, [Out [c]])
      else if c = DONT then (option_byte rfd, [])
      else if c = DO then (option_byte rfd, [])
      else if c = WONT then (option_byte rfd, [])
      else if c = WILL then (option_byte rfd, [])
      else if c = EC then (rfd, [Out [8, 32, 8]])
      else (rfd, []))"

definition process_new :: "u8 \<Rightarrow> u8 list \<Rightarrow> u8 list \<times> term_effect list" where
  "process_new data rfd =
     (if data = NUL then (rfd, [])
      else if data = IAC then (let (data, rfd) = read1 data rfd in special data rfd)
      else (rfd, [Out [data]]))"

text \<open>The branch for CR runs on into that for OMARK, which does nothing.\<close>

definition process_old :: "u8 \<Rightarrow> u8 list \<Rightarrow> u8 list \<times> term_effect list" where
  "process_old data rfd =
     (if data = NUL then (rfd, [])
      else if data \<in> {1, 2, 3, 4, 5, 6} then (rfd, [])
      else if data \<in> {14, 15, 16, 17, 18, 19, 20, 21, 22, 23, 24, 25, 26, 28, 29, 30, 31} then (rfd, [])
      else if data = 127 then (rfd, [])
      else if data = 13 then
        (let (data, rfd) = read1 data rfd
         in if data = NUL then (rfd, [Out [13]])
            else if data = 10 then (rfd, [Out [13, 10]])
            else (rfd, [Err ''[CR without LF or NUL]'']))
      else if data = OMARK then (rfd, [])
      else if data = OBREAK then (rfd, [Err ''[BREAK]''])
      else if data = ONOP then (rfd, [Err ''[NOP]''])
      else if data = ONOECHO then (rfd, [Err ''[NOECHO]''])
      else if data = OECHO then (rfd, [Err ''[ECHO]''])
      else if data = OHIDE then (rfd, [Err ''[HIDE]''])
      else if data = OASCII then (rfd, [Err ''[ASCII]''])
      else if data = OTRANSPARENT then (rfd, [Err ''[TRANSPARENT]''])
      else if data = OEBCDIC then (rfd, [Err ''[EBCDIC]''])
      else (rfd, [Out [data]]))"

definition process_bin :: "u8 \<Rightarrow> u8 list \<Rightarrow> u8 list \<times> term_effect list" where
  "process_bin data rfd = (rfd, [Out [data]])"

text \<open>The function pointer \<open>process\<close>.\<close>

datatype decoder = New | Old | Bin

fun process :: "decoder \<Rightarrow> u8 \<Rightarrow> u8 list \<Rightarrow> u8 list \<times> term_effect list" where
  "process New = process_new"
| "process Old = process_old"
| "process Bin = process_bin"

section \<open>The child processes\<close>

text \<open>
  The reader child copies what the connection delivers into a pipe. Each round takes an answer of
  the daemon and the result of \<open>write\<close> on the pipe. The state is the array, the library and the bytes
  that went into the pipe.
\<close>

datatype put = Put nat | Put_epipe | Put_error

fun telnet_reader :: "int \<Rightarrow> (daemon_io \<times> put) list \<Rightarrow> mem \<Rightarrow> lib_state \<Rightarrow> u8 list \<Rightarrow>
    (u8 list, unit) run option" where
  "telnet_reader cn [] data l fds = Some (Waiting fds)"
| "telnet_reader cn ((io, w) # turns) data l fds =
     do { (r, data, size, l) \<leftarrow> ncp_read io cn 200 data 200 l;
          if r = - 1 then Some (Exited 1 fds)
          else if size = 0 then Some (Exited 0 fds)
          else case w of
            Put n \<Rightarrow> if n = 0 then Some (Exited 1 fds)
              else telnet_reader cn turns data l (fds @ take n (get_bytes 0 (nat size) data))
          | Put_epipe \<Rightarrow> Some (Exited 0 fds)
          | Put_error \<Rightarrow> Some (Exited 1 fds) }"

text \<open>
  The writer child copies from a pipe to the connection. Each round takes the result of \<open>read\<close> on the
  pipe; the daemon's answers come one for each \<open>ncp_write\<close>.
\<close>

fun telnet_writer :: "int \<Rightarrow> u8 list option list \<Rightarrow> mem \<Rightarrow> daemon_io list \<Rightarrow> lib_state \<Rightarrow>
    (lib_state, unit) run option" where
  "telnet_writer cn [] data ios l = Some (Waiting l)"
| "telnet_writer cn (r # rs) data ios l =
     (let r = read_upto 200 r; n = count_of r
      in if n = 0 then Some (Exited 0 l)
         else if n < 0 then Some (Exited 1 l)
         else let data = put_bytes 0 (the r) data
           in do { (e, ios, l) \<leftarrow> send_all cn 200 data 0 n ios l;
                   case e of
                     All_sent \<Rightarrow> telnet_writer cn rs data ios l
                   | Send_error \<Rightarrow> Some (Exited 1 l)
                   | Sent_none \<Rightarrow> Some (Exited 0 l)
                   | Send_waits \<Rightarrow> Some (Waiting l) })"

section \<open>The client\<close>

text \<open>
  The state of the loop: the bytes that are still to be read from the reader child's pipe before
  its end, what has gone to the terminal, and the bytes that the writer child's pipe has taken.
  A turn of the loop is what the system answers in it: the result of \<open>select\<close>; if the keyboard is
  ready, the result of \<open>read\<close>, and of \<open>write\<close> to the writer; whether the pipe is ready.
\<close>

record client_state =
  pipe :: "u8 list"
  screen :: "term_effect list"
  keyed :: "u8 list"

record client_turn =
  sel :: int
  kbd :: "u8 list option option"
  kbd_put :: int
  net :: bool

datatype loop_end = Running | Quit | End

definition keyboard :: "client_turn \<Rightarrow> client_state \<Rightarrow> loop_end \<times> client_state" where
  "keyboard t s =
     (case kbd t of
        None \<Rightarrow> (Running, s)
      | Some r \<Rightarrow>
          (case read_upto 1 r of
             None \<Rightarrow> (End, s)
           | Some [] \<Rightarrow> (End, s)
           | Some (data # _) \<Rightarrow>
               if data = 29 then (Quit, s)
               else if kbd_put t \<le> 0 then (End, s)
               else (Running, s\<lparr>keyed := keyed s @ [data]\<rparr>)))"

text \<open>The pipe blocks, so a decoder that reads on from it gets the next byte, or its end.\<close>

definition network :: "decoder \<Rightarrow> client_state \<Rightarrow> loop_end \<times> client_state" where
  "network p s =
     (case pipe s of
        [] \<Rightarrow> (End, s)
      | data # rfd \<Rightarrow> (let (rfd, es) = process p data rfd in (Running, s\<lparr>pipe := rfd, screen := screen s @ es\<rparr>)))"

definition client_step :: "decoder \<Rightarrow> client_turn \<Rightarrow> client_state \<Rightarrow> loop_end \<times> client_state" where
  "client_step p t s =
     (if sel t \<le> 0 then (Quit, s)
      else let (e, s) = keyboard t s
        in if e \<noteq> Running then (e, s) else if net t then network p s else (Running, s))"

fun client_loop :: "decoder \<Rightarrow> client_turn list \<Rightarrow> client_state \<Rightarrow> loop_end \<times> client_state" where
  "client_loop p [] s = (Running, s)"
| "client_loop p (t # ts) s =
     (let (e, s) = client_step p t s in if e = Running then client_loop p ts s else (e, s))"

text \<open>
  The last call of a session. Without an answer of the daemon the request has been sent, and the process waits in
  \<open>recv\<close>.
\<close>

definition close_session :: "daemon_io option \<Rightarrow> u8 \<Rightarrow> 'a \<Rightarrow> lib_state \<Rightarrow> ('a \<times> lib_state, unit) run option" where
  "close_session io connection s l =
     (case io of
        None \<Rightarrow> do { (r, l) \<leftarrow> ncp_close \<lparr>send_ok = True, answer = None\<rparr> (uint connection) l; Some (Waiting (s, l)) }
      | Some io \<Rightarrow> do { (r, l) \<leftarrow> ncp_close io (uint connection) l;
          Some (if r = - 1 then Exited 1 (s, l) else Returned () (s, l)) })"

text \<open>
  What the rest of the system does during \<open>telnet_client\<close>: the daemon's answers to open and close,
  whether the two calls of \<open>pipe\<close> succeed, the result of \<open>write\<close> for the options, the bytes the reader child
  delivers, the turns, and whether the children end, so that the calls of \<open>waitpid\<close> return.
\<close>

record client_env =
  open_io :: daemon_io
  reader_pipe :: bool
  writer_pipe :: bool
  opt_put :: int
  incoming :: "u8 list"
  c_turns :: "client_turn list"
  reader_ends :: bool
  writer_ends :: bool
  close_io :: "daemon_io option"

definition telnet_client :: "int \<Rightarrow> int \<Rightarrow> decoder \<Rightarrow> u8 list \<Rightarrow> client_env \<Rightarrow> lib_state \<Rightarrow>
    (client_state \<times> lib_state, unit) run option" where
  "telnet_client h so p options env l =
     (let s = \<lparr>pipe = incoming env,
         screen = [Out (bytes_of_string (''TELNET to host '' @ octal3 h @ ''.'' @ [CHR 0x0A]))], keyed = []\<rparr>
      in do { (r, res, l) \<leftarrow> ncp_open (open_io env) h (word_of_int so) 8 l;
           case res of
             None \<Rightarrow> Some (Exited 1 (s, l))
           | Some (connection, byte_size) \<Rightarrow>
               if \<not> reader_pipe env then Some (Exited 1 (s, l))
               else if \<not> writer_pipe env then Some (Exited 1 (s, l))
               else if opt_put env = - 1 then Some (Exited 1 (s, l))
               else let s = s\<lparr>keyed := take (nat (opt_put env)) (c_str options)\<rparr>;
                 (e, s) = client_loop p (c_turns env) s
               in if e = Running then Some (Waiting (s, l))
                 else let s = (if e = Quit
                     then s\<lparr>screen := screen s @ [Out (bytes_of_string (''TELNET> quit'' @ [CHR 0x0D, CHR 0x0A]))]\<rparr>
                     else s)
                   in if \<not> reader_ends env then Some (Waiting (s, l))
                     else if \<not> writer_ends env then Some (Waiting (s, l))
                     else close_session (close_io env) connection s l })"

section \<open>The server\<close>

text \<open>
  The pipe of the reader child does not block here, so its state is the bytes in it at the moment,
  and a turn has the bytes that have come in before it. The effects go to the terminal of the shell, which does not
  block either: \<open>to_shell\<close> is what it has taken. \<open>to_writer\<close> is what has been written to the writer child.
  A turn has the results of \<open>select\<close>, of \<open>read\<close> from the terminal, and of \<open>write\<close> to it.
\<close>

record server_state =
  inflow :: "u8 list"
  to_shell :: "term_effect list"
  to_writer :: "u8 list"

record server_turn =
  s_sel :: int
  arrived :: "u8 list"
  shell_rd :: "u8 list option option"
  s_net :: bool
  shell_put :: int

text \<open>\<open>data[n] = 0\<close> is outside the array of 200 bytes if the shell's output fills it.\<close>

definition shell_output :: "server_turn \<Rightarrow> server_state \<Rightarrow> (loop_end \<times> server_state) option" where
  "shell_output t s =
     (case shell_rd t of
        None \<Rightarrow> Some (Running, s)
      | Some r \<Rightarrow>
          (let r = read_upto 200 r; n = count_of r
           in if n \<le> 0 then Some (End, s)
              else if n \<ge> 200 then None
              else Some (Running, s\<lparr>to_writer := to_writer s @ the r\<rparr>)))"

text \<open>
  Each call of a decoder writes once at most, and does not look at the result: a terminal that has no room takes
  nothing (the result is -1, with \<open>EAGAIN\<close>) or a part, and the rest is lost.
\<close>

definition taken :: "int \<Rightarrow> term_effect list \<Rightarrow> term_effect list" where
  "taken n es = concat (map (\<lambda>e. case e of Out bs \<Rightarrow> if n \<le> 0 then [] else [Out (take (nat n) bs)] | Err m \<Rightarrow> [Err m]) es)"

definition shell_input :: "decoder \<Rightarrow> int \<Rightarrow> server_state \<Rightarrow> loop_end \<times> server_state" where
  "shell_input p put s =
     (case inflow s of
        [] \<Rightarrow> (End, s)
      | data # rfd \<Rightarrow>
          (let (rfd, es) = process p data rfd
           in (Running, s\<lparr>inflow := rfd, to_shell := to_shell s @ taken put es\<rparr>)))"

definition server_step :: "decoder \<Rightarrow> server_turn \<Rightarrow> server_state \<Rightarrow> (loop_end \<times> server_state) option" where
  "server_step p t s =
     (let s = s\<lparr>inflow := inflow s @ arrived t\<rparr>
      in if s_sel t \<le> 0 then Some (End, s)
         else do { (e, s) \<leftarrow> shell_output t s;
              Some (if e \<noteq> Running then (e, s) else if s_net t then shell_input p (shell_put t) s else (Running, s)) })"

fun server_loop :: "decoder \<Rightarrow> server_turn list \<Rightarrow> server_state \<Rightarrow> (loop_end \<times> server_state) option" where
  "server_loop p [] s = Some (Running, s)"
| "server_loop p (t # ts) s =
     do { (e, s) \<leftarrow> server_step p t s; if e = Running then server_loop p ts s else Some (e, s) }"

text \<open>
  The same for the server: also the result of \<open>write\<close> for the banner, whether \<open>tty_run\<close> finds a terminal for the shell,
  and whether the shell ends after its signal.
\<close>

record server_env =
  listen_io :: daemon_io
  s_reader_pipe :: bool
  s_writer_pipe :: bool
  s_opt_put :: int
  banner_put :: int
  tty_found :: bool
  s_turns :: "server_turn list"
  s_reader_ends :: bool
  s_writer_ends :: bool
  shell_ends :: bool
  s_close_io :: "daemon_io option"

definition telnet_banner :: "u8 list" where
  "telnet_banner = bytes_of_string (''Welcome to Unix.'' @ [CHR 0x0D, CHR 0x0A])"

definition telnet_server :: "int \<Rightarrow> decoder \<Rightarrow> u8 list \<Rightarrow> server_env \<Rightarrow> lib_state \<Rightarrow>
    (server_state \<times> lib_state, unit) run option" where
  "telnet_server so p options env l =
     (let s = \<lparr>inflow = [], to_shell = [], to_writer = []\<rparr>
      in do { (r, res, l) \<leftarrow> ncp_listen (listen_io env) (word_of_int so) 8 l;
           case res of
             None \<Rightarrow> Some (Exited 1 (s, l))
           | Some (h, connection, byte_size) \<Rightarrow>
               if \<not> s_reader_pipe env then Some (Exited 1 (s, l))
               else if \<not> s_writer_pipe env then Some (Exited 1 (s, l))
               else if s_opt_put env = - 1 then Some (Exited 1 (s, l))
               else let s = s\<lparr>to_writer := take (nat (s_opt_put env)) (c_str options)\<rparr>
                 in if banner_put env = - 1 then Some (Exited 1 (s, l))
                 else let s = s\<lparr>to_writer := to_writer s @ take (nat (banner_put env)) telnet_banner\<rparr>
                   in if \<not> tty_found env then Some (Exited 1 (s, l))
                   else do { (e, s) \<leftarrow> server_loop p (s_turns env) s;
                        if e = Running then Some (Waiting (s, l))
                        else if \<not> s_reader_ends env then Some (Waiting (s, l))
                        else if \<not> s_writer_ends env then Some (Waiting (s, l))
                        else if \<not> shell_ends env then Some (Waiting (s, l))
                        else close_session (s_close_io env) connection s l } })"

section \<open>The choice of options\<close>

datatype telnet_opt = Opt_b | Opt_c | Opt_n | Opt_o | Opt_p string | Opt_s | Opt_bad

datatype role = Client | Server

record choice =
  telnet :: "role option"
  proc :: "decoder option"
  client_options :: "u8 list option"
  server_options :: "u8 list option"
  sock_no :: int

definition no_choice :: choice where
  "no_choice = \<lparr>telnet = None, proc = None, client_options = None, server_options = None, sock_no = - 1\<rparr>"

definition choose_telnet :: "role \<Rightarrow> choice \<Rightarrow> int + choice" where
  "choose_telnet r c = (if telnet c \<noteq> None then Inl 1 else Inr (c\<lparr>telnet := Some r\<rparr>))"

definition choose_process :: "decoder \<Rightarrow> u8 list \<Rightarrow> u8 list \<Rightarrow> int option \<Rightarrow> choice \<Rightarrow> int + choice" where
  "choose_process p co sv d c =
     (if proc c \<noteq> None then Inl 1
      else let c = c\<lparr>proc := Some p, client_options := Some co, server_options := Some sv\<rparr>
        in Inr (case d of None \<Rightarrow> c | Some n \<Rightarrow> if sock_no c = - 1 then c\<lparr>sock_no := n\<rparr> else c))"

fun choose_opt :: "telnet_opt \<Rightarrow> choice \<Rightarrow> (int + choice) option" where
  "choose_opt Opt_b c = Some (choose_process Bin bin_options bin_options None c)"
| "choose_opt Opt_c c = Some (choose_telnet Client c)"
| "choose_opt Opt_n c = Some (choose_process New new_client_options new_server_options (Some NEW_TELNET) c)"
| "choose_opt Opt_o c = Some (choose_process Old old_client_options old_server_options (Some OLD_TELNET) c)"
| "choose_opt (Opt_p optarg) c = do { n \<leftarrow> atoi optarg; Some (Inr (c\<lparr>sock_no := n\<rparr>)) }"
| "choose_opt Opt_s c = Some (choose_telnet Server c)"
| "choose_opt Opt_bad c = Some (Inl 1)"

fun choose_opts :: "telnet_opt list \<Rightarrow> choice \<Rightarrow> (int + choice) option" where
  "choose_opts [] c = Some (Inr c)"
| "choose_opts (f # fs) c = do { r \<leftarrow> choose_opt f c; case r of Inl n \<Rightarrow> Some (Inl n) | Inr c \<Rightarrow> choose_opts fs c }"

definition or_default :: "'a \<Rightarrow> 'a option \<Rightarrow> 'a" where
  "or_default d x = (case x of None \<Rightarrow> d | Some y \<Rightarrow> y)"

text \<open>
  The arguments after the options: \<open>atoi\<close> of the null pointer that ends \<open>argv\<close> has no meaning.
  \<open>init\<close> tells whether \<open>ncp_init\<close> succeeds. The result is what \<open>telnet\<close> is called with.
\<close>

record telnet_call =
  t_role :: role
  t_host :: int
  t_sock :: int
  t_process :: decoder
  t_options :: "u8 list"

definition telnet_args :: "telnet_opt list \<Rightarrow> string list \<Rightarrow> bool \<Rightarrow> (int + telnet_call) option" where
  "telnet_args opts args init =
     do { r \<leftarrow> choose_opts opts no_choice;
          case r of
            Inl n \<Rightarrow> Some (Inl n)
          | Inr c \<Rightarrow>
              (let so = (if sock_no c = - 1 then NEW_TELNET else sock_no c);
                   p = or_default New (proc c);
                   t = or_default Client (telnet c);
                   co = or_default new_client_options (client_options c);
                   sv = or_default new_server_options (server_options c)
               in do { (h, args) \<leftarrow> (if t = Client
                       then (case args of [] \<Rightarrow> None | a # args \<Rightarrow> do { h \<leftarrow> atoi a; Some (h, args) })
                       else Some (- 1, args));
                     if args \<noteq> [] then Some (Inl 1)
                     else if \<not> init then Some (Inl 1)
                     else Some (Inr \<lparr>t_role = t, t_host = h, t_sock = so, t_process = p,
                       t_options = (if t = Client then co else sv)\<rparr>) }) }"

end
