(* ===== verification/Gateway.thy ===== *)
theory Gateway
  imports Telnet
begin

text \<open>
  The gateway between a TCP connection and an NCP connection (\<open>apps/gateway.c\<close>) and the helpers that
  make the TCP connection (\<open>apps/inet.c\<close>).
\<close>

section \<open>TCP connections\<close>

text \<open>
  \<open>Inl n\<close> is \<open>exit (n)\<close>. For each address that \<open>getaddrinfo\<close> finds: the results of \<open>socket\<close> and
  \<open>setsockopt\<close>, and of the function \<open>the_thing\<close>, which is \<open>bind\<close> or \<open>connect\<close>.
\<close>

record attempt =
  socket_fd :: int
  sockopt :: int
  the_thing :: int

fun try_addresses :: "attempt list \<Rightarrow> int + int" where
  "try_addresses [] = Inl 1"
| "try_addresses (rp # rps) =
     (if socket_fd rp < 0 then Inl 1
      else if sockopt rp < 0 then Inl 1
      else if the_thing rp = 0 then Inr (socket_fd rp)
      else try_addresses rps)"

definition do_the_thing :: "attempt list option \<Rightarrow> int + int" where
  "do_the_thing addr = (case addr of None \<Rightarrow> Inl 1 | Some rps \<Rightarrow> try_addresses rps)"

definition inet_server :: "attempt list option \<Rightarrow> int \<Rightarrow> int + int" where
  "inet_server addr listened =
     (case do_the_thing addr of Inl n \<Rightarrow> Inl n | Inr fd \<Rightarrow> if listened < 0 then Inl 1 else Inr fd)"

text \<open>\<open>accept\<close> gives a descriptor and, for the family \<open>AF_INET\<close>, address and port of the peer.\<close>

definition inet_accept :: "int \<Rightarrow> (u32 \<times> u16) option \<Rightarrow> int + int \<times> string \<times> int" where
  "inet_accept fd peer =
     (if fd < 0 then Inl 1
      else case peer of
        Some (a, p) \<Rightarrow> Inr (fd, concat (map (\<lambda>k. decimal (uint (byte_of k a)) @ (if k = 0 then '''' else ''.'')) [3, 2, 1, 0]), uint p)
      | None \<Rightarrow> Inr (fd, ''(unknown)'', 0))"

definition inet_connect :: "attempt list option \<Rightarrow> int + int" where
  "inet_connect addr = do_the_thing addr"

section \<open>The child processes\<close>

text \<open>The result of the loop around \<open>write\<close> that is not positive becomes the exit code.\<close>

fun gw_reader :: "int \<Rightarrow> (daemon_io \<times> int list) list \<Rightarrow> mem \<Rightarrow> lib_state \<Rightarrow> u8 list \<Rightarrow>
    (u8 list, unit) run option" where
  "gw_reader cn [] data l fds = Some (Waiting fds)"
| "gw_reader cn ((io, ws) # turns) data l fds =
     do { (r, data, size, l) \<leftarrow> ncp_read io cn 200 data 200 l;
          if r = - 1 then Some (Exited 1 fds)
          else if size = 0 then Some (Exited 0 fds)
          else case write_loop (get_bytes 0 (nat size) data) size ws fds of
            Exited n fds \<Rightarrow> Some (Exited n fds)
          | Waiting fds \<Rightarrow> Some (Waiting fds)
          | Returned n fds \<Rightarrow> if n \<le> 0 then Some (Exited (- n) fds) else gw_reader cn turns data l fds }"

text \<open>The pipe does not block: a \<open>read\<close> that fails is tried again.\<close>

fun gw_writer :: "int \<Rightarrow> u8 list option list \<Rightarrow> mem \<Rightarrow> daemon_io list \<Rightarrow> lib_state \<Rightarrow>
    (lib_state, unit) run option" where
  "gw_writer cn [] data ios l = Some (Waiting l)"
| "gw_writer cn (r # rs) data ios l =
     (let r = read_upto 200 r; n = count_of r
      in if n = 0 then Some (Exited 0 l)
         else if n < 0 then gw_writer cn rs data ios l
         else let data = put_bytes 0 (the r) data
           in do { (e, ios, l) \<leftarrow> send_all cn 200 data 0 n ios l;
                   case e of
                     All_sent \<Rightarrow> gw_writer cn rs data ios l
                   | Send_error \<Rightarrow> Some (Exited 1 l)
                   | Sent_none \<Rightarrow> Some (Exited 0 l)
                   | Send_waits \<Rightarrow> Some (Waiting l) })"

section \<open>Transport\<close>

text \<open>\<open>copy\<close>: the result of one \<open>read\<close> and the results of \<open>write\<close>; \<open>to\<close> is what has been written.\<close>

definition copy :: "u8 list option \<Rightarrow> int list \<Rightarrow> u8 list \<Rightarrow> (u8 list, int) run" where
  "copy r ws to =
     (let r = read_upto 200 r; n = count_of r
      in if n \<le> 0 then Returned n to else write_loop (the r) n ws to)"

record gw_state =
  to_ncp :: "u8 list"
  to_tcp :: "u8 list"

record gw_turn =
  g_sel :: int
  from_tcp :: "(u8 list option \<times> int list) option"
  from_ncp :: "(u8 list option \<times> int list) option"

text \<open>The two directions of a turn; \<open>transport\<close> returns when one of them ends.\<close>

definition tcp_side :: "gw_turn \<Rightarrow> gw_state \<Rightarrow> (gw_state, int) run" where
  "tcp_side t s =
     (case from_tcp t of
        None \<Rightarrow> Returned 1 s
      | Some (r, ws) \<Rightarrow>
          (case copy r ws (to_ncp s) of
             Exited n b \<Rightarrow> Exited n (s\<lparr>to_ncp := b\<rparr>)
           | Waiting b \<Rightarrow> Waiting (s\<lparr>to_ncp := b\<rparr>)
           | Returned n b \<Rightarrow> Returned n (s\<lparr>to_ncp := b\<rparr>)))"

definition ncp_side :: "gw_turn \<Rightarrow> gw_state \<Rightarrow> (gw_state, int) run" where
  "ncp_side t s =
     (case from_ncp t of
        None \<Rightarrow> Returned 1 s
      | Some (r, ws) \<Rightarrow>
          (case copy r ws (to_tcp s) of
             Exited n b \<Rightarrow> Exited n (s\<lparr>to_tcp := b\<rparr>)
           | Waiting b \<Rightarrow> Waiting (s\<lparr>to_tcp := b\<rparr>)
           | Returned n b \<Rightarrow> Returned n (s\<lparr>to_tcp := b\<rparr>)))"

fun transport :: "gw_turn list \<Rightarrow> gw_state \<Rightarrow> (gw_state, unit) run" where
  "transport [] s = Waiting s"
| "transport (t # ts) s =
     (if g_sel t \<le> 0 then Returned () s
      else case tcp_side t s of
        Exited n s \<Rightarrow> Exited n s
      | Waiting s \<Rightarrow> Waiting s
      | Returned n s \<Rightarrow>
          if n \<le> 0 then Returned () s
          else case ncp_side t s of
            Exited n s \<Rightarrow> Exited n s
          | Waiting s \<Rightarrow> Waiting s
          | Returned n s \<Rightarrow> if n \<le> 0 then Returned () s else transport ts s)"


section \<open>The two gateways\<close>

record gw_env =
  addresses :: "attempt list option"
  listened :: int
  accepted :: int
  peer :: "(u32 \<times> u16) option"
  conn_io :: daemon_io
  gw_turns :: "gw_turn list"
  gw_close_io :: daemon_io

text \<open>\<open>transport\<close> and the close that follows it.\<close>

definition transport_and_close :: "u8 \<Rightarrow> gw_env \<Rightarrow> lib_state \<Rightarrow> (gw_state \<times> lib_state, unit) run option" where
  "transport_and_close connection env l =
     (case transport (gw_turns env) \<lparr>to_ncp = [], to_tcp = []\<rparr> of
        Exited n s \<Rightarrow> Some (Exited n (s, l))
      | Waiting s \<Rightarrow> Some (Waiting (s, l))
      | Returned _ s \<Rightarrow>
          do { (r, l) \<leftarrow> ncp_close (gw_close_io env) (uint connection) l;
               Some (if r = - 1 then Exited 1 (s, l) else Returned () (s, l)) })"

definition tcp_to_ncp :: "string \<Rightarrow> string \<Rightarrow> gw_env \<Rightarrow> lib_state \<Rightarrow> (gw_state \<times> lib_state, unit) run option" where
  "tcp_to_ncp h so env l =
     (let s = \<lparr>to_ncp = [], to_tcp = []\<rparr>
      in case inet_server (addresses env) (listened env) of
        Inl n \<Rightarrow> Some (Exited n (s, l))
      | Inr _ \<Rightarrow>
          (case inet_accept (accepted env) (peer env) of
             Inl n \<Rightarrow> Some (Exited n (s, l))
           | Inr (fd, foreign_host, foreign_port) \<Rightarrow>
               do { ncp_host \<leftarrow> atoi h;
                    ncp_sock \<leftarrow> atoi so;
                    (r, res, l) \<leftarrow> ncp_open (conn_io env) ncp_host (word_of_int ncp_sock) 8 l;
                    case res of
                      None \<Rightarrow> Some (Exited 1 (s, l))
                    | Some (connection, _) \<Rightarrow> transport_and_close connection env l }))"

definition ncp_to_tcp :: "int \<Rightarrow> gw_env \<Rightarrow> lib_state \<Rightarrow> (gw_state \<times> lib_state, unit) run option" where
  "ncp_to_tcp so env l =
     (let s = \<lparr>to_ncp = [], to_tcp = []\<rparr>
      in do { (r, res, l) \<leftarrow> ncp_listen (conn_io env) (word_of_int so) 8 l;
           case res of
             None \<Rightarrow> Some (Exited 1 (s, l))
           | Some (ncp_host, connection, _) \<Rightarrow>
               (case inet_connect (addresses env) of
                  Inl n \<Rightarrow> Some (Exited n (s, l))
                | Inr fd \<Rightarrow> transport_and_close connection env l) })"

section \<open>The command line\<close>

datatype gw_opt = Opt_N string | Opt_T string | Opt_other

text \<open>The last TCP port and the NCP socket, or \<open>Inl n\<close> for \<open>exit (n)\<close>.\<close>

fun gw_opts :: "gw_opt list \<Rightarrow> string option \<Rightarrow> int \<Rightarrow> (int + string option \<times> int) option" where
  "gw_opts [] port so = Some (Inr (port, so))"
| "gw_opts (Opt_N optarg # fs) port so =
     do { so \<leftarrow> atoi optarg; if so mod 2 = 0 then Some (Inl 1) else gw_opts fs port so }"
| "gw_opts (Opt_T optarg # fs) port so = gw_opts fs (Some optarg) so"
| "gw_opts (Opt_other # fs) port so = Some (Inl 1)"

datatype gw_call = Tcp_to_ncp string string string | Ncp_to_tcp int string string

text \<open>
  The two arguments are read before they are counted; with none at all the second read is behind
  the null pointer that ends \<open>argv\<close>.
\<close>

definition gw_args :: "gw_opt list \<Rightarrow> string list \<Rightarrow> bool \<Rightarrow> (int + gw_call) option" where
  "gw_args opts args init =
     do { r \<leftarrow> gw_opts opts None (- 1);
          case r of
            Inl n \<Rightarrow> Some (Inl n)
          | Inr (tcp_port, ncp_sock) \<Rightarrow>
              if args = [] then None
              else if length args \<noteq> 2 \<or> (tcp_port \<noteq> None \<and> ncp_sock \<noteq> - 1) \<or> (tcp_port = None \<and> ncp_sock = - 1)
              then Some (Inl 1)
              else if \<not> init then Some (Inl 1)
              else Some (Inr (case tcp_port of
                  Some port \<Rightarrow> Tcp_to_ncp port (args ! 0) (args ! 1)
                | None \<Rightarrow> Ncp_to_tcp ncp_sock (args ! 0) (args ! 1))) }"

end
