(* ===== verification/Small_Apps.thy ===== *)
theory Small_Apps
  imports Posix Complex_Main
begin

text \<open>
  The small programs: \<open>apps/echo.c\<close>, \<open>apps/discard.c\<close>, \<open>apps/finger.c\<close>, \<open>apps/finser.c\<close> and
  \<open>apps/ping.c\<close>. A server or client takes the daemon's answers from one list, in order.
\<close>

section \<open>Echo\<close>

text \<open>
  The loop of the client: each turn has the result of \<open>read\<close> on the terminal and of the calls of
  \<open>write\<close> to it. The state is what has been written to the terminal, and the library.
\<close>

fun echo_client_loop :: "int \<Rightarrow> (u8 list option \<times> int list) list \<Rightarrow> mem \<Rightarrow> daemon_io list \<Rightarrow> lib_state \<Rightarrow>
    u8 list \<Rightarrow> (u8 list \<times> lib_state, daemon_io list) run option" where
  "echo_client_loop cn [] buffer ios l to = Some (Waiting (to, l))"
| "echo_client_loop cn ((r, ws) # turns) buffer ios l to =
     (let r = read_upto 1000 r; n = count_of r
      in if n \<le> 0 then Some (Returned ios (to, l))
         else let buffer = put_bytes 0 (the r) buffer
           in do { (e, ios, l) \<leftarrow> send_all cn 1000 buffer 0 n ios l;
                   if e = Send_waits then Some (Waiting (to, l))
                   else if e \<noteq> All_sent then Some (Returned ios (to, l))
                   else case ios of
                     [] \<Rightarrow> Some (Waiting (to, l))
                   | io # ios \<Rightarrow>
                       do { (rc, buffer, n, l) \<leftarrow> ncp_read io cn 1000 buffer 1000 l;
                            if n \<le> 0 then Some (Returned ios (to, l))
                            else case write_loop (get_bytes 0 (nat n) buffer) n ws to of
                              Returned k to \<Rightarrow>
                                if k \<le> 0 then Some (Returned ios (to, l))
                                else echo_client_loop cn turns buffer ios l to
                            | Waiting to \<Rightarrow> Some (Waiting (to, l))
                            | Exited k to \<Rightarrow> Some (Exited k (to, l)) } })"

text \<open>
  The byte size that goes into the open request is a variable that nothing has been stored in; its
  value is the argument \<open>byte_size\<close>.
\<close>

definition echo_client :: "int \<Rightarrow> int \<Rightarrow> int \<Rightarrow> daemon_io \<Rightarrow> (u8 list option \<times> int list) list \<Rightarrow> daemon_io list \<Rightarrow>
    lib_state \<Rightarrow> (u8 list \<times> lib_state, unit) run option" where
  "echo_client byte_size h so io turns ios l =
     do { (r, res, l) \<leftarrow> ncp_open io h (word_of_int so) byte_size l;
          case res of
            None \<Rightarrow> Some (Exited 1 ([], l))
          | Some (connection, _) \<Rightarrow>
              do { t \<leftarrow> echo_client_loop (uint connection) turns (\<lambda>_. 0) ios l [];
                   case t of
                     Exited k s \<Rightarrow> Some (Exited k s)
                   | Waiting s \<Rightarrow> Some (Waiting s)
                   | Returned ios (to, l) \<Rightarrow>
                       (case ios of
                          [] \<Rightarrow> Some (Waiting (to, l))
                        | io # _ \<Rightarrow>
                            do { (r, l) \<leftarrow> ncp_close io (uint connection) l;
                                 Some (if r = - 1 then Exited 1 (to, l) else Returned () (to, l)) }) } }"

text \<open>The server returns when a read or a write gives nothing, and does not close the connection.\<close>

function echo_server_loop :: "int \<Rightarrow> mem \<Rightarrow> daemon_io list \<Rightarrow> lib_state \<Rightarrow> (lib_state, unit) run option" where
  "echo_server_loop cn buffer [] l = Some (Waiting l)"
| "echo_server_loop cn buffer (io # ios) l =
     do { (r, buffer, n, l) \<leftarrow> ncp_read io cn 1000 buffer 1000 l;
          if n \<le> 0 then Some (Returned () l)
          else do { (e, ios, l) \<leftarrow> send_all cn 1000 buffer 0 n ios l;
               case e of
                 All_sent \<Rightarrow> echo_server_loop cn buffer ios l
               | Send_error \<Rightarrow> Some (Returned () l)
               | Sent_none \<Rightarrow> Some (Returned () l)
               | Send_waits \<Rightarrow> Some (Waiting l) } }"
  by pat_completeness auto
termination
  by (relation "measure (\<lambda>(cn, buffer, ios, l). length ios)") (auto dest: send_all_rest)

definition echo_server :: "int \<Rightarrow> daemon_io \<Rightarrow> daemon_io list \<Rightarrow> lib_state \<Rightarrow> (lib_state, unit) run option" where
  "echo_server so io ios l =
     do { (r, res, l) \<leftarrow> ncp_listen io (word_of_int so) 8 l;
          case res of
            None \<Rightarrow> Some (Exited 1 l)
          | Some (h, connection, _) \<Rightarrow> echo_server_loop (uint connection) (\<lambda>_. 0) ios l }"

datatype echo_opt = Echo_c | Echo_s | Echo_p string | Echo_other

text \<open>Client or server, and the socket.\<close>

fun echo_opts :: "echo_opt list \<Rightarrow> bool \<Rightarrow> int \<Rightarrow> (int + bool \<times> int) option" where
  "echo_opts [] client so = Some (Inr (client, so))"
| "echo_opts (Echo_c # fs) client so = echo_opts fs True so"
| "echo_opts (Echo_p optarg # fs) client so = do { so \<leftarrow> atoi optarg; echo_opts fs client so }"
| "echo_opts (Echo_s # fs) client so = echo_opts fs False so"
| "echo_opts (Echo_other # fs) client so = Some (Inl 1)"

datatype echo_call = Echo_client int int | Echo_server int

definition echo_args :: "echo_opt list \<Rightarrow> string list \<Rightarrow> bool \<Rightarrow> (int + echo_call) option" where
  "echo_args opts args init =
     do { r \<leftarrow> echo_opts opts True (- 1);
          case r of
            Inl n \<Rightarrow> Some (Inl n)
          | Inr (client, so) \<Rightarrow>
              do { (h, args) \<leftarrow> (if client
                     then (case args of [] \<Rightarrow> None | a # args \<Rightarrow> do { h \<leftarrow> atoi a; Some (h, args) })
                     else Some (- 1, args));
                   if args \<noteq> [] \<or> \<not> init then Some (Inl 1)
                   else let so = (if so = - 1 then 7 else so)
                     in Some (Inr (if client then Echo_client h so else Echo_server so)) } }"

section \<open>Discard\<close>

text \<open>The server reads until nothing comes; it keeps the sizes that it reports.\<close>

fun discard_loop :: "int \<Rightarrow> mem \<Rightarrow> daemon_io list \<Rightarrow> lib_state \<Rightarrow> int list \<Rightarrow> (int list \<times> lib_state, unit) run option" where
  "discard_loop cn buffer [] l seen = Some (Waiting (seen, l))"
| "discard_loop cn buffer (io # ios) l seen =
     do { (r, buffer, n, l) \<leftarrow> ncp_read io cn 1000 buffer 1000 l;
          if n \<le> 0 then Some (Returned () (seen, l))
          else discard_loop cn buffer ios l (seen @ [n]) }"

definition discard_server :: "int \<Rightarrow> daemon_io \<Rightarrow> daemon_io list \<Rightarrow> lib_state \<Rightarrow>
    (int list \<times> lib_state, unit) run option" where
  "discard_server so io ios l =
     do { (r, res, l) \<leftarrow> ncp_listen io (word_of_int so) 8 l;
          case res of
            None \<Rightarrow> Some (Exited 1 ([], l))
          | Some (h, connection, _) \<Rightarrow> discard_loop (uint connection) (\<lambda>_. 0) ios l [] }"

datatype discard_opt = Discard_p string | Discard_other

fun discard_opts :: "discard_opt list \<Rightarrow> int \<Rightarrow> (int + int) option" where
  "discard_opts [] so = Some (Inr so)"
| "discard_opts (Discard_p optarg # fs) so = do { so \<leftarrow> atoi optarg; discard_opts fs so }"
| "discard_opts (Discard_other # fs) so = Some (Inl 1)"

text \<open>The socket that is listened to.\<close>

definition discard_args :: "discard_opt list \<Rightarrow> string list \<Rightarrow> bool \<Rightarrow> (int + int) option" where
  "discard_args opts args init =
     do { r \<leftarrow> discard_opts opts (- 1);
          case r of
            Inl n \<Rightarrow> Some (Inl n)
          | Inr so \<Rightarrow> Some (if args \<noteq> [] \<or> \<not> init then Inl 1 else Inr (if so = - 1 then 9 else so)) }"

section \<open>Finger\<close>

text \<open>\<open>snprintf\<close> into an array with room for \<open>cap\<close> bytes; it returns the length of all of \<open>bs\<close>.\<close>

definition snprintf :: "nat \<Rightarrow> u8 list \<Rightarrow> mem \<Rightarrow> int \<times> mem" where
  "snprintf cap bs m = (int (length bs), put_bytes 0 (take (cap - 1) bs @ [0]) m)"

text \<open>
  The environment of client and server: whether \<open>ncp_init\<close> succeeds, and the daemon's answers. The
  arguments are those after the name of the program.
\<close>

record finger_env =
  init_ok :: bool
  f_open :: daemon_io
  f_write :: daemon_io
  f_read :: daemon_io
  f_close :: daemon_io

definition crlf :: "u8 list" where "crlf = [13, 10]"

definition finger :: "string list \<Rightarrow> finger_env \<Rightarrow> lib_state \<Rightarrow> (u8 list \<times> lib_state, unit) run option" where
  "finger args env l =
     (if length args < 1 \<or> 2 < length args then Some (Exited 1 ([], l))
      else do { h \<leftarrow> atoi (args ! 0);
        if \<not> init_ok env then Some (Exited 1 ([], l))
        else let to = bytes_of_string (''Finger host '' @ octal3 h @ ''.'' @ [CHR 0x0A])
          in do { (r, res, l) \<leftarrow> ncp_open (f_open env) h 79 8 l;
               case res of
                 None \<Rightarrow> Some (Exited 1 (to, l))
               | Some (connection, _) \<Rightarrow>
                   (let (n, command) = snprintf 1000
                        (bytes_of_string (if length args = 2 then args ! 1 else '''') @ crlf) (\<lambda>_. 0)
                    in do { (r, n, l) \<leftarrow> ncp_write (f_write env) (uint connection) 1000 command n l;
                         if r = - 1 then Some (Exited 1 (to, l))
                         else do { (r, reply, n, l) \<leftarrow> ncp_read (f_read env) (uint connection) 1000 (\<lambda>_. 0) 1000 l;
                              if r = - 1 then Some (Exited 1 (to, l))
                              else let to = to @ get_bytes 0 (nat n) reply
                                in do { (r, l) \<leftarrow> ncp_close (f_close env) (uint connection) l;
                                     Some (if r = - 1 then Exited 1 (to, l) else Returned () (to, l)) } } }) } })"

definition finser_text :: "u8 list \<Rightarrow> u8 list" where
  "finser_text command = bytes_of_string ''Sample response from Finger server.'' @ crlf @
     bytes_of_string ''Data from client was: '' @ [34] @ command @ [34] @ bytes_of_string ''.'' @ crlf"

text \<open>The NUL behind the command is stored in an array of 1000 bytes.\<close>

definition finser :: "string list \<Rightarrow> finger_env \<Rightarrow> lib_state \<Rightarrow> (lib_state, unit) run option" where
  "finser args env l =
     (if args \<noteq> [] then Some (Exited 1 l)
      else if \<not> init_ok env then Some (Exited 1 l)
      else do { (r, res, l) \<leftarrow> ncp_listen (f_open env) 79 8 l;
        case res of
          None \<Rightarrow> Some (Exited 1 l)
        | Some (h, connection, _) \<Rightarrow>
            do { (r, command, n, l) \<leftarrow> ncp_read (f_read env) (uint connection) 1000 (\<lambda>_. 0) 1000 l;
                 if r = - 1 then Some (Exited 1 l)
                 else if n < 0 \<or> 1000 \<le> n then None
                 else let command = command(nat n := 0);
                     (_, reply) = snprintf 999 (finser_text (c_str (get_bytes 0 1000 command))) (\<lambda>_. 0);
                     n = int (length (c_str (get_bytes 0 1000 reply)))
                   in do { (r, n, l) \<leftarrow> ncp_write (f_write env) (uint connection) 1000 reply n l;
                        if r = - 1 then Some (Exited 1 l)
                        else do { (r, l) \<leftarrow> ncp_close (f_close env) (uint connection) l;
                             Some (if r = - 1 then Exited 1 l else Returned () l) } } } })"

section \<open>Ping\<close>

text \<open>\<open>struct timeval\<close>: seconds and microseconds. The milliseconds are stored in an \<open>int\<close>.\<close>

type_synonym timeval = "int \<times> int"

definition to_int :: "int \<Rightarrow> int" where
  "to_int n = sint (word_of_int n :: u32)"

definition difference :: "timeval \<Rightarrow> timeval \<Rightarrow> int" where
  "difference start stop =
     (let ms = to_int (1000 * (fst stop - fst start))
      in to_int (ms + c_div (snd stop - snd start + 500) 1000))"

definition ping_line :: "int \<Rightarrow> int \<Rightarrow> int \<Rightarrow> string" where
  "ping_line h reply ms = ''Reply from host '' @ octal3 h @ '': seq='' @ decimal reply @ '' time='' @ decimal ms @
     ''ms'' @ [CHR 0x0A]"

text \<open>
  What ping does besides its calls of the library, in order: what it prints, and how long it asks the system to
  sleep, in seconds and nanoseconds.
\<close>

type_synonym timespec = "int \<times> int"

datatype ping_event = Line string | Sleep timespec

text \<open>
  The loop of \<open>main\<close>: a round has the daemon's answer and the clock before and after it. \<open>count--\<close>
  and \<open>seq++\<close> have no meaning at the ends of the range of \<open>int\<close>.
\<close>

fun ping_loop :: "int \<Rightarrow> timespec \<Rightarrow> (daemon_io \<times> timeval \<times> timeval) list \<Rightarrow> int \<Rightarrow> int \<Rightarrow> lib_state \<Rightarrow> ping_event list \<Rightarrow>
    (ping_event list \<times> lib_state, unit) run option" where
  "ping_loop h interval [] seq count l to = Some (if count = 0 then Returned () (to, l) else Waiting (to, l))"
| "ping_loop h interval ((io, start, stop) # rounds) seq count l to =
     (if count = 0 then Some (Returned () (to, l))
      else do { (r, reply, l) \<leftarrow> ncp_echo io h seq l;
        if r = 0 then
          (let to = to @ [Line (ping_line h (uint (the reply)) (difference start stop))]
           in if count = - 2147483648 then None
              else let count = count - 1; to = (if count \<noteq> 0 then to @ [Sleep interval] else to)
              in if seq = 2147483647 then None else ping_loop h interval rounds (seq + 1) count l to)
        else if r = - 2 then Some (Exited 1 (to @ [Line (''IMP cannot be reached.'' @ [CHR 0x0A])], l))
        else if r = - 3 then Some (Exited 1 (to @ [Line (''Host is not up.'' @ [CHR 0x0A])], l))
        else if r = - 5 then Some (Exited 1 (to @ [Line (''Communication administratively prohibited.'' @ [CHR 0x0A])], l))
        else Some (Exited 1 (to @ [Line (''NCP echo error.'' @ [CHR 0x0A])], l)) })"

text \<open>
  The option \<open>-i\<close>: a conversion to an integer drops what is behind the point. The argument is what \<open>atof\<close> has
  read, and \<open>rnd\<close> the rounding of a product of \<open>double\<close>s; the difference of a number and its whole part is exact.
\<close>

definition whole_part :: "rat \<Rightarrow> int" where
  "whole_part x = (if 0 \<le> x then floor x else ceiling x)"

definition to_timespec :: "(rat \<Rightarrow> rat) \<Rightarrow> rat \<Rightarrow> timespec option" where
  "to_timespec rnd x =
     (let sec = whole_part x
      in if sec < - 2147483648 \<or> 2147483647 < sec then None
         else Some (sec, whole_part (rnd (1000000000 * (x - of_int sec)))))"

text \<open>\<open>nanosleep\<close> refuses everything else.\<close>

definition nanosleep_accepts :: "timespec \<Rightarrow> bool" where
  "nanosleep_accepts t \<longleftrightarrow> 0 \<le> fst t \<and> 0 \<le> snd t \<and> snd t < 1000000000"

text \<open>The options and the arguments; the result is host, sequence number, count and interval.\<close>

datatype ping_opt = Ping_c string | Ping_i rat | Ping_other

fun ping_opts :: "(rat \<Rightarrow> rat) \<Rightarrow> ping_opt list \<Rightarrow> int \<Rightarrow> timespec \<Rightarrow> (int + int \<times> timespec) option" where
  "ping_opts rnd [] count interval = Some (Inr (count, interval))"
| "ping_opts rnd (Ping_c optarg # fs) count interval = do { count \<leftarrow> atoi optarg; ping_opts rnd fs count interval }"
| "ping_opts rnd (Ping_i x # fs) count interval = do { interval \<leftarrow> to_timespec rnd x; ping_opts rnd fs count interval }"
| "ping_opts rnd (Ping_other # fs) count interval = Some (Inl 1)"

definition ping_args :: "(rat \<Rightarrow> rat) \<Rightarrow> ping_opt list \<Rightarrow> string list \<Rightarrow> (int + int \<times> int \<times> int \<times> timespec) option" where
  "ping_args rnd opts args =
     do { r \<leftarrow> ping_opts rnd opts (- 1) (1, 0);
          case r of
            Inl n \<Rightarrow> Some (Inl n)
          | Inr (count, interval) \<Rightarrow>
              (case args of
                 [] \<Rightarrow> Some (Inl 1)
               | [a] \<Rightarrow> do { h \<leftarrow> atoi a; Some (Inr (h, 1, count, interval)) }
               | a # b # _ \<Rightarrow> do { h \<leftarrow> atoi a; seq \<leftarrow> atoi b; Some (Inr (h, seq, count, interval)) }) }"

definition ping :: "(rat \<Rightarrow> rat) \<Rightarrow> ping_opt list \<Rightarrow> string list \<Rightarrow> bool \<Rightarrow> (daemon_io \<times> timeval \<times> timeval) list \<Rightarrow> lib_state \<Rightarrow>
    (ping_event list \<times> lib_state, unit) run option" where
  "ping rnd opts args init rounds l =
     do { r \<leftarrow> ping_args rnd opts args;
          case r of
            Inl n \<Rightarrow> Some (Exited n ([], l))
          | Inr (h, seq, count, interval) \<Rightarrow>
              if \<not> init then Some (Exited 1 ([], l))
              else ping_loop h interval rounds seq count l [Line (''NCP PING host '' @ octal3 h @ [CHR 0x0A])] }"

end
