(* ===== verification/Telnet_Props.thy ===== *)
theory Telnet_Props
  imports Telnet
begin

text \<open>
  What TELNET shows and sends. The loops of client and server interleave the network with the
  keyboard or the shell one byte at a time; \<open>decode\<close> is the decoding of a whole stream, and the
  decoder of the new protocol is compared with a grammar of it.
\<close>

section \<open>A stream of bytes\<close>

lemma read1_shrinks: "length (snd (read1 c r)) \<le> length r"
  by (simp add: read1_def split: list.split)

lemma special_shrinks: "length (fst (special c r)) \<le> length r"
  using read1_shrinks by (simp add: special_def option_byte_def)

lemma process_shrinks: "length (fst (process p d r)) \<le> length r"
proof (cases p)
  case New
  have "length (fst (special (fst (read1 d r)) (snd (read1 d r)))) \<le> length r"
    using special_shrinks read1_shrinks order_trans by blast
  then show ?thesis using New by (cases "d = IAC") (simp_all add: process_new_def case_prod_beta)
next
  case Old
  then show ?thesis using read1_shrinks [of d r] by (cases "d = 13") (simp_all add: process_old_def case_prod_beta Let_def)
qed (simp add: process_bin_def)

function decode :: "decoder \<Rightarrow> u8 list \<Rightarrow> term_effect list" where
  "decode p [] = []"
| "decode p (d # r) = snd (process p d r) @ decode p (fst (process p d r))"
  by pat_completeness auto
termination
  by (relation "measure (\<lambda>(p, bs). length bs)") (auto simp: process_shrinks less_Suc_eq_le)

text \<open>The bytes among the effects.\<close>

fun written :: "term_effect list \<Rightarrow> u8 list" where
  "written [] = []"
| "written (Out bs # es) = bs @ written es"
| "written (Err m # es) = written es"

lemma written_append [simp]: "written (es @ es') = written es @ written es'"
  by (induction es rule: written.induct) auto

lemma decode_bin: "decode Bin bs = map (\<lambda>b. Out [b]) bs"
  by (induction bs) (auto simp: process_bin_def)

lemma decode_text: "b \<noteq> NUL \<Longrightarrow> b \<noteq> IAC \<Longrightarrow> decode New (b # r) = Out [b] # decode New r"
  by (simp add: process_new_def)

section \<open>The new protocol\<close>

text \<open>The grammar of the stream: a literal byte (IAC doubled), a command, or an option with its verb.\<close>

datatype item = Nothing | Literal u8 | Command u8 | Negotiate u8 u8

definition verb :: "u8 \<Rightarrow> bool" where
  "verb c \<longleftrightarrow> c \<in> {DONT, DO, WONT, WILL}"

fun wire :: "item \<Rightarrow> u8 list" where
  "wire Nothing = [NUL]"
| "wire (Literal c) = (if c = IAC then [IAC, IAC] else [c])"
| "wire (Command c) = [IAC, c]"
| "wire (Negotiate v c) = [IAC, v, c]"

fun item_ok :: "item \<Rightarrow> bool" where
  "item_ok Nothing \<longleftrightarrow> True"
| "item_ok (Literal c) \<longleftrightarrow> c \<noteq> NUL"
| "item_ok (Command c) \<longleftrightarrow> \<not> verb c \<and> c \<noteq> IAC"
| "item_ok (Negotiate v c) \<longleftrightarrow> verb v"

text \<open>The terminal shows literal bytes, and erases one place for the command EC.\<close>

fun shown :: "item \<Rightarrow> term_effect list" where
  "shown (Literal c) = [Out [c]]"
| "shown (Command c) = (if c = EC then [Out [8, 32, 8]] else [])"
| "shown _ = []"

text \<open>The parser of the grammar: the items, and what is left of an unfinished one.\<close>

fun items :: "u8 list \<Rightarrow> item list \<times> u8 list" where
  "items [] = ([], [])"
| "items (d # r) =
     (if d = NUL then (let (is, t) = items r in (Nothing # is, t))
      else if d \<noteq> IAC then (let (is, t) = items r in (Literal d # is, t))
      else case r of
        [] \<Rightarrow> ([], [IAC])
      | c # r \<Rightarrow>
          if c = IAC then (let (is, t) = items r in (Literal IAC # is, t))
          else if \<not> verb c then (let (is, t) = items r in (Command c # is, t))
          else case r of
            [] \<Rightarrow> ([], [IAC, c])
          | b # r \<Rightarrow> (let (is, t) = items r in (Negotiate c b # is, t)))"

lemma decode_wire:
  assumes "item_ok i"
  shows "decode New (wire i @ r) = shown i @ decode New r"
  using assms by (cases i) (auto simp: process_new_def special_def option_byte_def verb_def)

lemma decode_wires:
  "list_all item_ok is \<Longrightarrow> decode New (concat (map wire is) @ r) = concat (map shown is) @ decode New r"
  by (induction "is") (simp_all add: decode_wire)

text \<open>The items of a stream are well formed and spell it.\<close>

lemma items_spell:
  "items bs = (is, t) \<Longrightarrow> list_all item_ok is \<and> concat (map wire is) @ t = bs \<and>
     (t = [] \<or> t = [IAC] \<or> (\<exists>v. verb v \<and> t = [IAC, v]))"
proof (induction bs arbitrary: "is" t rule: items.induct)
  case 1
  then show ?case by simp
next
  case (2 d r)
  show ?case
  proof (cases "d = IAC")
    case False
    then show ?thesis using 2 by (cases "d = NUL"; cases "items r") auto
  next
    case True
    note IAC = this
    show ?thesis
    proof (cases r)
      case Nil
      then show ?thesis using IAC "2.prems" by simp
    next
      case (Cons c r')
      show ?thesis
      proof (cases "verb c")
        case False
        then show ?thesis using IAC Cons "2.prems" "2.IH"(3,4) by (cases "c = IAC"; cases "items r'") auto
      next
        case True
        moreover from True have "c \<noteq> IAC" by (auto simp: verb_def)
        ultimately show ?thesis using IAC Cons "2.prems" "2.IH"(5)
          by (cases r'; cases "items (tl r')") auto
      qed
    qed
  qed
qed

lemma decode_tail: "verb v \<Longrightarrow> decode New [IAC, v] = []"
  by (auto simp: verb_def process_new_def special_def option_byte_def)

text \<open>
  C29. The decoder of the new protocol against its grammar. Any stream from the network consists of the
  items that \<open>items\<close> finds and perhaps an unfinished command, and the terminal gets exactly what the
  items show: literal bytes, a doubled IAC once, an erased place for EC, and nothing for other
  commands and options. Only an IAC that is the last byte is shown, as if it were data.
\<close>

theorem new_decoder_grammar:
  "decode New bs = concat (map shown (fst (items bs))) @ (if snd (items bs) = [IAC] then [Out [IAC]] else []) \<and>
   concat (map wire (fst (items bs))) @ snd (items bs) = bs"
proof -
  obtain "is" t where i: "items bs = (is, t)" by (cases "items bs")
  note s = items_spell [OF i]
  have "decode New bs = concat (map shown is) @ decode New t" using s decode_wires by metis
  moreover have "decode New [IAC] = [Out [IAC]]" by (simp add: process_new_def special_def)
  ultimately show ?thesis using s decode_tail i by auto
qed


section \<open>The old protocol\<close>

text \<open>The bytes that the decoder of the old protocol does not pass on as they are.\<close>

definition old_special :: "u8 \<Rightarrow> bool" where
  "old_special b \<longleftrightarrow> b \<in> {0, 1, 2, 3, 4, 5, 6, 14, 15, 16, 17, 18, 19, 20, 21, 22, 23, 24, 25, 26, 28, 29, 30, 31, 127,
     OMARK, OBREAK, ONOP, ONOECHO, OECHO, OHIDE, OASCII, OTRANSPARENT, OEBCDIC}"

text \<open>Text on the network: CR goes with LF or, when it stands alone, with NUL.\<close>

fun nvt :: "u8 list \<Rightarrow> u8 list" where
  "nvt [] = []"
| "nvt [c] = (if c = 13 then [13, 0] else [c])"
| "nvt (c # d # r) = (if c = 13 \<and> d = 10 then 13 # 10 # nvt r
     else if c = 13 then 13 # 0 # nvt (d # r) else c # nvt (d # r))"

lemma decode_old_plain: "\<not> old_special b \<Longrightarrow> b \<noteq> 13 \<Longrightarrow> decode Old (b # r) = Out [b] # decode Old r"
  by (simp add: process_old_def old_special_def)

lemma decode_old_cr: "decode Old (13 # 0 # r) = Out [13] # decode Old r"
    "decode Old (13 # 10 # r) = Out [13, 10] # decode Old r"
  by (simp_all add: process_old_def)


text \<open>
  Text in the old protocol. Text that has been written for the network with CR LF for the end
  of a line and CR NUL for a CR alone reaches the terminal unchanged and without a report, if no byte
  of it is a control character or a code of the protocol.
\<close>

theorem old_text_round_trip:
  assumes "\<forall>b\<in>set bs. \<not> old_special b"
  shows "written (decode Old (nvt bs)) = bs \<and> (\<forall>m. Err m \<notin> set (decode Old (nvt bs)))"
  using assms
proof (induction bs rule: nvt.induct)
  case (2 c)
  then show ?case by (cases "c = 13") (auto simp: decode_old_cr decode_old_plain simp del: decode.simps(2))
next
  case (3 c d r)
  consider "c = 13" "d = 10" | "c = 13" "d \<noteq> 10" | "c \<noteq> 13" by blast
  then show ?case
    using 3 by cases (auto simp: decode_old_cr decode_old_plain simp del: decode.simps(2))
qed simp

section \<open>The client\<close>

text \<open>The bytes typed in the turns of a client, up to the one that ends it.\<close>

fun typed :: "client_turn list \<Rightarrow> u8 list" where
  "typed [] = []"
| "typed (t # ts) =
     (case kbd t of
        Some (Some (c # _)) \<Rightarrow> if sel t \<le> 0 \<or> c = 29 \<or> kbd_put t \<le> 0 then [] else c # typed ts
      | Some _ \<Rightarrow> []
      | None \<Rightarrow> if sel t \<le> 0 then [] else typed ts)"

text \<open>What the terminal will have when the bytes in the pipe are decoded too.\<close>

definition shows_in_all :: "decoder \<Rightarrow> client_state \<Rightarrow> term_effect list" where
  "shows_in_all p s = screen s @ decode p (pipe s)"

lemma keyboard_frame: "pipe (snd (keyboard t s)) = pipe s \<and> screen (snd (keyboard t s)) = screen s"
  by (simp add: keyboard_def split: option.split list.split)

lemma network_shows: "shows_in_all p (snd (network p s)) = shows_in_all p s"
  by (simp add: network_def shows_in_all_def case_prod_beta split: list.split)

lemma network_keyed: "keyed (snd (network p s)) = keyed s"
  by (simp add: network_def case_prod_beta split: list.split)

lemma client_step_shows: "shows_in_all p (snd (client_step p t s)) = shows_in_all p s"
proof -
  have "shows_in_all p (snd (keyboard t s)) = shows_in_all p s"
    using keyboard_frame by (simp add: shows_in_all_def)
  then show ?thesis using network_shows by (simp add: client_step_def case_prod_beta)
qed

lemma client_loop_shows: "shows_in_all p (snd (client_loop p ts s)) = shows_in_all p s"
  by (induction ts arbitrary: s) (simp_all add: case_prod_beta client_step_shows)

lemma network_end: "fst (network p s) = End \<longleftrightarrow> pipe s = []" "fst (network p s) \<noteq> Quit"
  by (simp_all add: network_def case_prod_beta split: list.split)

lemma client_loop_screen: "client_loop p ts s = (e, s') \<Longrightarrow> \<exists>es. screen s' = screen s @ es"
proof (induction ts arbitrary: s)
  case (Cons t ts)
  have "\<exists>es. screen (snd (network p z)) = screen z @ es" for z
    by (simp add: network_def case_prod_beta split: list.split)
  then have "\<exists>es. screen (snd (client_step p t s)) = screen s @ es"
    using keyboard_frame [of t s] by (simp add: client_step_def case_prod_beta) metis
  then show ?case
    using Cons.IH [of "snd (client_step p t s)"] Cons.prems by (auto simp: case_prod_beta split: if_splits)
qed simp

text \<open>What is typed goes to the writer, unless the network ends the loop first.\<close>

lemma keyboard_typed:
  "0 < sel t \<Longrightarrow> keyboard t s = (e, s') \<Longrightarrow>
   keyed s @ typed (t # ts) = (if e = Running then keyed s' @ typed ts else keyed s')"
  by (auto simp: keyboard_def read_upto_def split: option.splits list.splits if_splits)

lemma client_loop_keyed:
  "client_loop p ts s = (e, s') \<Longrightarrow>
   \<exists>rest. keyed s @ typed ts = keyed s' @ rest \<and> (e = End \<or> rest = [])"
proof (induction ts arbitrary: s)
  case Nil
  then show ?case by simp
next
  case (Cons t ts)
  show ?case
  proof (cases "sel t \<le> 0")
    case True
    then show ?thesis using Cons.prems by (auto simp: client_step_def split: option.splits list.splits)
  next
    case False
    obtain ek sk where k: "keyboard t s = (ek, sk)" by (cases "keyboard t s")
    note t = keyboard_typed [OF _ k, of ts]
    obtain en sn where n: "(if net t then network p sk else (Running, sk)) = (en, sn)" by fastforce
    have kn: "keyed sn = keyed sk" using n network_keyed [of p sk] by (auto split: if_splits)
    show ?thesis
    proof (cases "ek = Running \<and> en = Running")
      case True
      then have "client_loop p ts sn = (e, s')"
        using Cons.prems False k n by (simp add: client_step_def)
      from Cons.IH [OF this] show ?thesis using t True False kn by auto
    next
      case stop: False
      then show ?thesis
        using Cons.prems False k n t kn network_end(2) [of p sk]
        by (cases en; cases ek) (auto simp: client_step_def split: if_splits)
    qed
  qed
qed

text \<open>
  C30. The client's loop against the stream. However the keyboard, the network and the writer take their
  turns, what is on the terminal together with the decoding of the bytes not yet read is at every
  moment the decoding of the whole stream, commands that arrive in parts included. The writer gets
  what is typed, in order and up to the byte that ends the session, but for what is typed after the
  network has ended it.
\<close>

theorem client_refines_stream:
  assumes "client_loop p ts s = (e, s')"
  shows "screen s' @ decode p (pipe s') = screen s @ decode p (pipe s) \<and>
    (\<exists>rest. keyed s @ typed ts = keyed s' @ rest \<and> (e = End \<or> rest = []))"
  using client_loop_keyed [OF assms] client_loop_shows [of p ts s] assms by (simp add: shows_in_all_def)


section \<open>The child processes\<close>

lemma get_put_bytes_prefix: "get_bytes 0 (length bs) (put_bytes 0 bs m) = bs"
  by (rule get_put_bytes)

lemma reader_delivered:
  "\<forall>bs\<in>set bss. bs \<noteq> [] \<and> length bs \<le> 200 \<Longrightarrow>
   \<exists>data' l'. telnet_reader (uint i) (map (\<lambda>bs. (delivers i bs, Put (length bs))) bss @ turns) data l fds =
     telnet_reader (uint i) turns data' l' (fds @ concat bss)"
proof (induction bss arbitrary: data l fds)
  case Nil
  then show ?case by auto
next
  case (Cons bs bss)
  then have b: "bs \<noteq> []" "length bs \<le> 200" by auto
  obtain l1 where l1: "ncp_read (delivers i bs) (uint i) 200 data 200 l = Some (0, put_bytes 0 bs data, int (length bs), l1)"
    using ncp_read_delivers [of bs 200 i data 200 l] b by auto
  obtain data' l' where "telnet_reader (uint i) (map (\<lambda>bs. (delivers i bs, Put (length bs))) bss @ turns) (put_bytes 0 bs data) l1 (fds @ bs) =
      telnet_reader (uint i) turns data' l' ((fds @ bs) @ concat bss)"
    using Cons.IH [of "put_bytes 0 bs data" l1 "fds @ bs"] Cons.prems by auto
  then show ?case using l1 b by (auto simp: get_put_bytes)
qed

text \<open>
  C33. The writer child. Whatever blocks the pipe gives, and whatever parts of them the daemon takes at
  a time, as long as it takes something, every byte goes out once and in order: each datagram
  carries what is left of the block. At the end of the pipe the child exits with 0.
\<close>

theorem writer_delivers:
  assumes "list_all2 (\<lambda>bs ns. sum_list ns = length bs \<and> 0 < length bs \<and> length bs \<le> 200 \<and> (\<forall>n\<in>set ns. 0 < n)) bss nss"
  shows "\<exists>l'. telnet_writer (uint i) (map Some bss @ [Some []]) data (concat (map (map (wrote i)) nss)) l = Some (Exited 0 l') \<and>
    sent l' = sent l @ concat (map2 (\<lambda>ns bs. map (\<lambda>b. [WIRE_WRITE, i] @ b) (pieces ns bs)) nss bss) \<and>
    concat (map2 (\<lambda>ns bs. concat (map2 take ns (pieces ns bs))) nss bss) = concat bss"
  using assms
proof (induction bss nss arbitrary: data l rule: list_all2_induct)
  case Nil
  then show ?case by (simp add: read_upto_def count_of_def)
next
  case (Cons bs bss ns nss)
  let ?data = "put_bytes 0 bs data"
  obtain l1 where l1: "send_all (uint i) 200 ?data 0 (int (length bs)) (map (wrote i) ns @ concat (map (map (wrote i)) nss)) l =
        Some (All_sent, concat (map (map (wrote i)) nss), l1)"
      "sent l1 = sent l @ map (\<lambda>b. [WIRE_WRITE, i] @ b) (pieces ns bs)"
    using send_all_delivers [of ns "length bs" 200 i ?data _ l] Cons.hyps(1) by (auto simp: get_put_bytes)
  obtain l2 where "telnet_writer (uint i) (map Some bss @ [Some []]) ?data (concat (map (map (wrote i)) nss)) l1 = Some (Exited 0 l2)"
      "sent l2 = sent l1 @ concat (map2 (\<lambda>ns bs. map (\<lambda>b. [WIRE_WRITE, i] @ b) (pieces ns bs)) nss bss)"
      "concat (map2 (\<lambda>ns bs. concat (map2 take ns (pieces ns bs))) nss bss) = concat bss"
    using Cons.IH [of ?data l1] by auto
  then show ?case using l1 Cons.hyps(1) pieces_taken [of ns bs] by (simp add: read_upto_def count_of_def Let_def)
qed


section \<open>The server\<close>

text \<open>The bytes in the pipe do not end within what the decoder takes next.\<close>

definition whole :: "decoder \<Rightarrow> u8 list \<Rightarrow> bool" where
  "whole p bs =
     (case bs of
        [] \<Rightarrow> True
      | d # r \<Rightarrow>
          (case p of
             New \<Rightarrow> d = IAC \<longrightarrow> r \<noteq> [] \<and> (verb (hd r) \<longrightarrow> tl r \<noteq> [])
           | Old \<Rightarrow> d = 13 \<longrightarrow> r \<noteq> []
           | Bin \<Rightarrow> True))"

lemma process_old_append:
  assumes "d = 13 \<longrightarrow> r \<noteq> []"
  shows "process_old d (r @ x) = (fst (process_old d r) @ x, snd (process_old d r))"
proof (cases "d = 13")
  case True
  then obtain b r' where "r = b # r'" using assms by (cases r) auto
  then show ?thesis using True by (simp add: process_old_def)
qed (simp add: process_old_def)

lemma process_new_append:
  assumes "d = IAC \<longrightarrow> r \<noteq> [] \<and> (verb (hd r) \<longrightarrow> tl r \<noteq> [])"
  shows "process_new d (r @ x) = (fst (process_new d r) @ x, snd (process_new d r))"
proof (cases "d = IAC")
  case True
  then obtain c r' where r: "r = c # r'" using assms by (cases r) auto
  show ?thesis
  proof (cases "verb c")
    case True
    then obtain b r'' where "r' = b # r''" using assms \<open>d = IAC\<close> r by (cases r') auto
    then show ?thesis using \<open>d = IAC\<close> r True by (auto simp: process_new_def special_def option_byte_def verb_def)
  next
    case False
    then show ?thesis using \<open>d = IAC\<close> r by (auto simp: process_new_def special_def verb_def)
  qed
qed (simp add: process_new_def)

lemma process_append:
  "whole p (d # r) \<Longrightarrow> process p d (r @ x) = (fst (process p d r) @ x, snd (process p d r))"
  using process_new_append process_old_append by (cases p) (simp_all add: whole_def process_bin_def)

text \<open>At each turn in which the server reads from the network, the pipe does not end within a command.\<close>

fun unsplit :: "decoder \<Rightarrow> server_turn list \<Rightarrow> server_state \<Rightarrow> bool" where
  "unsplit p [] s = True"
| "unsplit p (t # ts) s =
     ((s_net t \<longrightarrow> whole p (inflow s @ arrived t)) \<and>
      (case server_step p t s of Some (Running, s') \<Rightarrow> unsplit p ts s' | _ \<Rightarrow> True))"

lemma shell_output_frame:
  "shell_output t s = Some (e, s') \<Longrightarrow> inflow s' = inflow s \<and> to_shell s' = to_shell s"
  by (auto simp: shell_output_def Let_def split: option.splits if_splits)

text \<open>A decoder writes at most once, and at most three bytes; a terminal with room for them takes all.\<close>

lemma process_writes: "length (snd (process p d r)) \<le> 1 \<and> (\<forall>bs. Out bs \<in> set (snd (process p d r)) \<longrightarrow> bs \<noteq> [] \<and> length bs \<le> 3)"
  by (cases p) (simp_all add: process_new_def process_old_def process_bin_def special_def case_prod_beta)

lemma taken_all: "(\<And>bs. Out bs \<in> set es \<Longrightarrow> length bs \<le> 3) \<Longrightarrow> 3 \<le> n \<Longrightarrow> taken n es = es"
proof (induction es)
  case (Cons e es)
  then have "taken n es = es" by simp
  moreover have "length bs \<le> nat n" if "e = Out bs" for bs using Cons.prems(1) [of bs] Cons.prems(2) that by simp
  ultimately show ?case using Cons.prems(2) by (cases e) (auto simp: taken_def)
qed (simp add: taken_def)

lemma taken_nothing [simp]: "taken n [] = []"
  by (simp add: taken_def)

text \<open>What a decoder offers to the terminal in one turn.\<close>

definition offer :: "term_effect list \<Rightarrow> bool" where
  "offer es \<longleftrightarrow> length es \<le> 1 \<and> (\<forall>bs. Out bs \<in> set es \<longrightarrow> bs \<noteq> [] \<and> length bs \<le> 3)"

lemma shell_input_whole:
  assumes "whole p (inflow s)" and "shell_input p n s = (Running, s')"
  shows "\<exists>es. offer es \<and> to_shell s' = to_shell s @ taken n es \<and> (\<forall>x. es @ decode p (inflow s' @ x) = decode p (inflow s @ x))"
proof -
  obtain d r where r: "inflow s = d # r" using assms(2) by (auto simp: shell_input_def split: list.splits)
  then show ?thesis
    using assms process_writes [of p d r]
    by (intro exI [of _ "snd (process p d r)"]) (auto simp: shell_input_def case_prod_beta process_append offer_def)
qed

lemma server_step_whole:
  assumes "server_step p t s = Some (Running, s')" and "s_net t \<longrightarrow> whole p (inflow s @ arrived t)"
  shows "\<exists>es. offer es \<and> to_shell s' = to_shell s @ taken (shell_put t) es \<and>
    (\<forall>x. es @ decode p (inflow s' @ x) = decode p (inflow s @ arrived t @ x))"
proof -
  let ?s = "s\<lparr>inflow := inflow s @ arrived t\<rparr>"
  obtain e1 s1 where o: "shell_output t ?s = Some (e1, s1)"
      "(if e1 \<noteq> Running then (e1, s1) else if s_net t then shell_input p (shell_put t) s1 else (Running, s1)) = (Running, s')"
    using assms(1) by (auto simp: server_step_def Let_def bind_eq_Some_conv split: if_splits)
  note f = shell_output_frame [OF o(1)]
  show ?thesis
  proof (cases "s_net t")
    case True
    then have "shell_input p (shell_put t) s1 = (Running, s')" using o(2) by (auto split: if_splits)
    from shell_input_whole [OF _ this] show ?thesis using f True assms(2) by simp
  next
    case False
    then show ?thesis using o(2) f by (intro exI [of _ "[]"]) (auto simp: offer_def split: if_splits)
  qed
qed

definition shell_gets :: "server_turn list \<Rightarrow> term_effect list list \<Rightarrow> term_effect list" where
  "shell_gets ts ess = concat (map2 (\<lambda>t. taken (shell_put t)) ts ess)"

lemma shell_gets_all:
  "length ess = length ts \<Longrightarrow> list_all offer ess \<Longrightarrow> list_all (\<lambda>t. 3 \<le> shell_put t) ts \<Longrightarrow> shell_gets ts ess = concat ess"
  by (induction ess ts rule: list_induct2) (auto simp: shell_gets_def offer_def taken_all)

text \<open>
  C31. The server's loop against the stream. As long as no command is cut in two by the end of what has
  arrived, the loop offers the decoding of the stream from the network to the terminal of the shell, in order, at most one
  \<open>write\<close> in each turn, but for the decoding of the bytes that have not been read. The terminal does not block, and
  its answers are not looked at: the shell gets of each turn what the terminal takes, and nothing of
  what it refuses is offered again. Where it always has room for three bytes, the shell gets the whole decoding.
\<close>

theorem server_refines_stream:
  assumes "server_loop p ts s = Some (Running, s')" and "unsplit p ts s"
  shows "(\<exists>ess. length ess = length ts \<and> list_all offer ess \<and> to_shell s' = to_shell s @ shell_gets ts ess \<and>
      concat ess @ decode p (inflow s') = decode p (inflow s @ concat (map arrived ts))) \<and>
    (list_all (\<lambda>t. 3 \<le> shell_put t) ts \<longrightarrow>
      to_shell s' @ decode p (inflow s') = to_shell s @ decode p (inflow s @ concat (map arrived ts)))"
proof -
  have "\<exists>ess. length ess = length ts \<and> list_all offer ess \<and> to_shell s' = to_shell s @ shell_gets ts ess \<and>
      concat ess @ decode p (inflow s') = decode p (inflow s @ concat (map arrived ts))"
    using assms
  proof (induction ts arbitrary: s)
    case Nil
    then show ?case by (simp add: shell_gets_def)
  next
    case (Cons t ts)
    obtain s1 where st: "server_step p t s = Some (Running, s1)" "server_loop p ts s1 = Some (Running, s')"
      using Cons.prems(1) by (auto simp: bind_eq_Some_conv split: if_splits)
    obtain es where es: "offer es" "to_shell s1 = to_shell s @ taken (shell_put t) es"
        "\<And>x. es @ decode p (inflow s1 @ x) = decode p (inflow s @ arrived t @ x)"
      using server_step_whole [OF st(1)] Cons.prems(2) by auto
    obtain ess where "length ess = length ts" "list_all offer ess" "to_shell s' = to_shell s1 @ shell_gets ts ess"
        "concat ess @ decode p (inflow s') = decode p (inflow s1 @ concat (map arrived ts))"
      using Cons.IH [OF st(2)] Cons.prems(2) st(1) by auto
    then show ?case using es by (intro exI [of _ "es # ess"]) (simp add: shell_gets_def)
  qed
  then show ?thesis using shell_gets_all by (metis append.assoc)
qed

text \<open>
  C40. A command cut in two. If the server reads an IAC before the rest of its command has arrived, the
  non-blocking \<open>read\<close> for the rest fails, and the shell gets the byte 255 and then, as text, the
  command itself; of the same option in one piece it gets nothing. (The terminal has room for a byte in each turn.)
\<close>

theorem server_split_command:
  assumes "inflow s = []" "verb v" "b \<noteq> NUL" "b \<noteq> IAC" "0 < n"
  shows "(\<exists>s'. server_loop New
      (map (\<lambda>bs. \<lparr>s_sel = 1, arrived = bs, shell_rd = None, s_net = True, shell_put = n\<rparr>) [[IAC], [v], [b]]) s = Some (Running, s') \<and>
      to_shell s' = to_shell s @ [Out [IAC], Out [v], Out [b]]) \<and>
    server_loop New [\<lparr>s_sel = 1, arrived = [IAC, v, b], shell_rd = None, s_net = True, shell_put = n\<rparr>] s = Some (Running, s)"
  using assms
  by (auto simp: server_step_def taken_def shell_output_def shell_input_def process_new_def special_def option_byte_def verb_def)


text \<open>
  Output of the shell. A turn of the server is undefined exactly when the shell has 200 bytes or
  more to read: they fill the array, and the NUL behind them is stored outside it. Shorter output goes
  to the writer as it is.
\<close>

theorem server_output_overflow:
  "if 0 < s_sel t \<and> 200 \<le> length (or_default [] (or_default None (shell_rd t))) then server_step p t s = None
   else \<exists>e s'. server_step p t s = Some (e, s') \<and>
     to_writer s' = to_writer s @ (if 0 < s_sel t then or_default [] (or_default None (shell_rd t)) else [])"
proof -
  let ?s = "s\<lparr>inflow := inflow s @ arrived t\<rparr>" and ?bs = "or_default [] (or_default None (shell_rd t))"
  have i: "to_writer (snd (shell_input p n z)) = to_writer z" for n z
    by (simp add: shell_input_def case_prod_beta split: list.split)
  have o: "if 200 \<le> length ?bs then shell_output t ?s = None
    else \<exists>e s1. shell_output t ?s = Some (e, s1) \<and> to_writer s1 = to_writer s @ ?bs"
    by (cases "shell_rd t"; cases "the (shell_rd t)")
      (auto simp: shell_output_def or_default_def read_upto_def count_of_def Let_def min_def)
  show ?thesis
  proof (cases "0 < s_sel t \<and> \<not> 200 \<le> length ?bs")
    case True
    then obtain e s1 where s1: "shell_output t ?s = Some (e, s1)" "to_writer s1 = to_writer s @ ?bs"
      using o by (auto split: if_splits)
    then show ?thesis
      using True i [of "shell_put t" s1] by (cases "shell_input p (shell_put t) s1") (auto simp: server_step_def)
  next
    case False
    then show ?thesis using o by (auto simp: server_step_def Let_def split: if_splits)
  qed
qed

section \<open>Sessions\<close>

text \<open>The offers that a client makes show nothing at a server of the same protocol.\<close>

lemma decode_options:
  "decode New (c_str new_client_options @ r) = decode New r"
  "decode New (c_str new_server_options @ r) = decode New r"
  "written (decode Old (c_str old_client_options @ r)) = written (decode Old r)"
  "c_str bin_options = []"
  by (simp_all add: new_client_options_def new_server_options_def old_client_options_def bin_options_def
      c_str_def process_new_def process_old_def special_def option_byte_def)

lemma decode_texts: "\<forall>b\<in>set bs. b \<noteq> NUL \<and> b \<noteq> IAC \<Longrightarrow> decode New (bs @ r) = map (\<lambda>b. Out [b]) bs @ decode New r"
  by (induction bs) (auto simp: decode_text simp del: decode.simps(2))

lemma decode_olds: "\<forall>b\<in>set bs. \<not> old_special b \<and> b \<noteq> 13 \<Longrightarrow> decode Old (bs @ r) = map (\<lambda>b. Out [b]) bs @ decode Old r"
  by (induction bs) (auto simp: decode_old_plain simp del: decode.simps(2))

text \<open>
  The return key in the old protocol. The client sends what is typed as it is, so a typed CR is followed
  on the network by whatever is typed next: the server, which wants LF or NUL there, drops both, and
  drops a CR that is typed last too.
\<close>

theorem old_return_lost:
  assumes "\<forall>b\<in>set bs. \<not> old_special b \<and> b \<noteq> 13" and "c \<noteq> 0" "c \<noteq> 10"
  shows "written (decode Old (c_str old_client_options @ bs @ 13 # c # r)) = bs @ written (decode Old r) \<and>
    written (decode Old (c_str old_client_options @ bs @ [13])) = bs"
proof -
  have w: "written (map (\<lambda>b. Out [b]) bs @ es) = bs @ written es" for es by (induction bs) auto
  show ?thesis
    unfolding decode_options(3) decode_olds [OF assms(1)] w using assms(2,3) by (simp add: process_old_def)
qed


lemma ncp_close_reply:
  "\<exists>l'. ncp_close \<lparr>send_ok = True, answer = Some [WIRE_CLOSE + 1, i]\<rparr> (uint i) l = Some (0, l') \<and>
     sent l' = sent l @ [[WIRE_CLOSE, i]]"
proof -
  obtain l1 where "msg_add i (msg_type WIRE_CLOSE l) = Some l1" "holds [WIRE_CLOSE, i] l1" "sent l1 = sent l"
    using build_request [of "[i]" WIRE_CLOSE l] by (auto simp: bind_eq_Some_conv)
  then show ?thesis
    using close_call.transact_exchange [of i l1 "\<lparr>send_ok = True, answer = Some [WIRE_CLOSE + 1, i]\<rparr>" i]
    by (auto simp: ncp_close_def put_bytes_def)
qed

lemma ncp_close_sends:
  "\<exists>r l'. ncp_close \<lparr>send_ok = True, answer = None\<rparr> (uint i) l = Some (r, l') \<and> sent l' = sent l @ [[WIRE_CLOSE, i]]"
proof -
  obtain l1 where "msg_add i (msg_type WIRE_CLOSE l) = Some l1" "holds [WIRE_CLOSE, i] l1" "sent l1 = sent l"
    using build_request [of "[i]" WIRE_CLOSE l] by (auto simp: bind_eq_Some_conv)
  moreover from this have "buf l1 0 = WIRE_CLOSE" "fill l1 = 2" "get_bytes 0 2 (buf l1) = [WIRE_CLOSE, i]"
    by (simp_all add: holds_def get_bytes_def upt_rec)
  ultimately show ?thesis by (simp add: ncp_close_def transact_def receive_def wire_check_def)
qed

lemma close_session_sends:
  assumes "io \<in> {None, Some \<lparr>send_ok = True, answer = Some [WIRE_CLOSE + 1, i]\<rparr>}"
  shows "\<exists>l'. close_session io i s l = Some (if io \<noteq> None then Returned () (s, l') else Waiting (s, l')) \<and>
    sent l' = sent l @ [[WIRE_CLOSE, i]]"
  using assms ncp_close_reply [of i l] ncp_close_sends [of i l] by (auto simp: close_session_def)

text \<open>
  C32. A session of the client. After the daemon has opened the connection and both pipes are there, the session that
  the user ends has sent the offered options and then what was typed; the terminal has shown the decoding of a part of
  what the reader child delivered, and decoding the unread rest would show all of it. The library has sent one
  request to open. If both children end, it sends one request to close, and the session is over when the daemon answers
  that; it waits as long as the daemon does not, and if a child does not end it waits without having sent the request.
\<close>

theorem telnet_client_session:
  assumes "open_io env = \<lparr>send_ok = True, answer = Some ([WIRE_OPEN + 1, h] @ bytes_of (word_of_int so) @ [i, z, e])\<rparr>"
    and "e \<noteq> 255" "reader_pipe env" "writer_pipe env" "opt_put env = int (length (c_str options))"
    and "fst (client_loop p (c_turns env) \<lparr>pipe = incoming env, screen = es, keyed = c_str options\<rparr>) = Quit"
    and "es = [Out (bytes_of_string (''TELNET to host '' @ octal3 (uint h) @ ''.'' @ [CHR 0x0A]))]"
    and "close_io env \<in> {None, Some \<lparr>send_ok = True, answer = Some [WIRE_CLOSE + 1, i]\<rparr>}"
  shows "\<exists>s l' es'. telnet_client (uint h) so p options env l =
      Some (if reader_ends env \<and> writer_ends env \<and> close_io env \<noteq> None then Returned () (s, l') else Waiting (s, l')) \<and>
    keyed s = c_str options @ typed (c_turns env) \<and>
    screen s = es @ es' @ [Out (bytes_of_string (''TELNET> quit'' @ [CHR 0x0D, CHR 0x0A]))] \<and>
    es' @ decode p (pipe s) = decode p (incoming env) \<and>
    sent l' = sent l @ [WIRE_OPEN # h # bytes_of (word_of_int so) @ [8]] @
      (if reader_ends env \<and> writer_ends env then [[WIRE_CLOSE, i]] else [])"
proof -
  let ?s0 = "\<lparr>pipe = incoming env, screen = es, keyed = c_str options\<rparr>"
  obtain l1 where o: "ncp_open (open_io env) (uint h) (word_of_int so) 8 l = Some (0, Some (i, z), l1)"
      "sent l1 = sent l @ [WIRE_OPEN # h # bytes_of (word_of_int so) @ [8]]"
    using ncp_open_reply [of "open_io env" h "word_of_int so" i z e 8 l] assms(1,2) by auto
  obtain s1 where q: "client_loop p (c_turns env) ?s0 = (Quit, s1)" using assms(6) by (cases "client_loop p (c_turns env) ?s0") auto
  have k: "keyed s1 = c_str options @ typed (c_turns env)" using client_loop_keyed [OF q] by auto
  obtain es' where v: "screen s1 = es @ es'" "es' @ decode p (pipe s1) = decode p (incoming env)"
    using client_loop_shows [of p "c_turns env" ?s0] client_loop_screen [OF q] q by (auto simp: shows_in_all_def)
  let ?s = "s1\<lparr>screen := screen s1 @ [Out (bytes_of_string (''TELNET> quit'' @ [CHR 0x0D, CHR 0x0A]))]\<rparr>"
  have run: "telnet_client (uint h) so p options env l =
      (if reader_ends env \<and> writer_ends env then close_session (close_io env) i ?s l1 else Some (Waiting (?s, l1)))"
    unfolding telnet_client_def Let_def assms(7) [symmetric] using o q assms(3-5) by simp
  obtain l2 where c: "close_session (close_io env) i ?s l1 =
      Some (if close_io env \<noteq> None then Returned () (?s, l2) else Waiting (?s, l2))" "sent l2 = sent l1 @ [[WIRE_CLOSE, i]]"
    using close_session_sends [OF assms(8), of ?s l1] by blast
  show ?thesis
    using run c o k v
    by (intro exI [of _ ?s] exI [of _ "if reader_ends env \<and> writer_ends env then l2 else l1"] exI [of _ es']) simp
qed

section \<open>The choice of options\<close>

text \<open>What an option of the command line asks for.\<close>

fun decoder_of :: "telnet_opt \<Rightarrow> decoder option" where
  "decoder_of Opt_b = Some Bin" | "decoder_of Opt_n = Some New" | "decoder_of Opt_o = Some Old" | "decoder_of _ = None"

fun role_of :: "telnet_opt \<Rightarrow> role option" where
  "role_of Opt_c = Some Client" | "role_of Opt_s = Some Server" | "role_of _ = None"

fun port_of :: "telnet_opt \<Rightarrow> int option" where
  "port_of (Opt_p s) = atoi s" | "port_of _ = None"

fun offers :: "decoder \<Rightarrow> role \<Rightarrow> u8 list" where
  "offers New Client = new_client_options" | "offers New Server = new_server_options"
| "offers Old Client = old_client_options" | "offers Old Server = old_server_options"
| "offers Bin _ = bin_options"

definition chosen :: "('a \<Rightarrow> 'b option) \<Rightarrow> 'a list \<Rightarrow> 'b list" where
  "chosen f xs = List.map_filter f xs"

lemma chosen_simps [simp]:
  "chosen f [] = []" "chosen f (x # xs) = (case f x of None \<Rightarrow> chosen f xs | Some y \<Rightarrow> y # chosen f xs)"
  by (simp_all add: chosen_def List.map_filter_def split: option.split)

lemmas opt_meaning = choose_process_def choose_telnet_def Let_def

fun first_or :: "'a option \<Rightarrow> 'a list \<Rightarrow> 'a option" where
  "first_or (Some x) _ = Some x"
| "first_or None [] = None"
| "first_or None (x # _) = Some x"

text \<open>One step, and all steps, of the loop around \<open>getopt\<close>.\<close>

definition offers_match :: "choice \<Rightarrow> bool" where
  "offers_match c \<longleftrightarrow> client_options c = map_option (\<lambda>p. offers p Client) (proc c) \<and>
     server_options c = map_option (\<lambda>p. offers p Server) (proc c)"

lemma choose_opt_chosen:
  assumes "choose_opt f c = Some (Inr c')"
  shows "(proc c \<noteq> None \<longrightarrow> decoder_of f = None) \<and> (telnet c \<noteq> None \<longrightarrow> role_of f = None) \<and>
    proc c' = (if proc c \<noteq> None then proc c else decoder_of f) \<and>
    telnet c' = (if telnet c \<noteq> None then telnet c else role_of f) \<and>
    (offers_match c \<longrightarrow> offers_match c')"
  using assms
  by (cases f) (auto simp: opt_meaning offers_match_def bind_eq_Some_conv split: if_splits)

lemma choose_opts_Cons:
  "choose_opts (f # fs) c = Some (Inr c') \<longleftrightarrow>
   (\<exists>c1. choose_opt f c = Some (Inr c1) \<and> choose_opts fs c1 = Some (Inr c'))"
  by (cases "choose_opt f c") (auto split: sum.splits)

lemma choose_opts_chosen:
  assumes "choose_opts fs c = Some (Inr c')"
  shows "length (chosen decoder_of fs) \<le> (if proc c = None then 1 else 0) \<and>
    length (chosen role_of fs) \<le> (if telnet c = None then 1 else 0) \<and>
    proc c' = first_or (proc c) (chosen decoder_of fs) \<and>
    telnet c' = first_or (telnet c) (chosen role_of fs) \<and>
    (offers_match c \<longrightarrow> offers_match c')"
  using assms
proof (induction fs arbitrary: c)
  case Nil
  then show ?case by (cases "proc c"; cases "telnet c") auto
next
  case (Cons f fs)
  then obtain c1 where c1: "choose_opt f c = Some (Inr c1)" "choose_opts fs c1 = Some (Inr c')"
    unfolding choose_opts_Cons by blast
  show ?case
    using choose_opt_chosen [OF c1(1)] Cons.IH [OF c1(2)]
    by (cases "proc c"; cases "telnet c"; cases "decoder_of f"; cases "role_of f") auto
qed


fun usual_sock :: "decoder list \<Rightarrow> int" where
  "usual_sock (Old # _) = OLD_TELNET"
| "usual_sock (New # _) = NEW_TELNET"
| "usual_sock _ = - 1"

lemma choose_opts_sock:
  assumes "choose_opts fs c = Some (Inr c')" and "- 1 \<notin> set (chosen port_of fs)"
  shows "sock_no c' = (if chosen port_of fs \<noteq> [] then last (chosen port_of fs)
    else if sock_no c \<noteq> - 1 then sock_no c else usual_sock (chosen decoder_of fs))"
  using assms
proof (induction fs arbitrary: c)
  case Nil
  then show ?case by simp
next
  case (Cons f fs)
  then obtain c1 where c1: "choose_opt f c = Some (Inr c1)" "choose_opts fs c1 = Some (Inr c')"
    unfolding choose_opts_Cons by blast
  have "- 1 \<notin> set (chosen port_of fs)" using Cons.prems(2) by (auto split: option.splits)
  note IH = Cons.IH [OF c1(2) this]
  have n: "chosen decoder_of fs = []" if "proc c1 \<noteq> None"
    using choose_opts_chosen [OF c1(2)] that by simp
  show ?case
    using c1(1) IH n Cons.prems(2)
    by (cases f) (auto simp: opt_meaning bind_eq_Some_conv split: if_splits)
qed

text \<open>
  The choice of protocol, role and socket. In whatever order the options stand, a call that is made has at
  most one option for the decoder and one for the role, uses them or the new protocol and the client,
  makes the offers that belong to that decoder and role, and goes to the socket of the last \<open>-p\<close>;
  without one to socket 1 for the old protocol and 23 otherwise.
\<close>

theorem telnet_args_call:
  assumes "telnet_args opts args init = Some (Inr call)" and "- 1 \<notin> set (chosen port_of opts)"
  shows "t_process call = or_default New (first_or None (chosen decoder_of opts)) \<and>
    t_role call = or_default Client (first_or None (chosen role_of opts)) \<and>
    length (chosen decoder_of opts) \<le> 1 \<and> length (chosen role_of opts) \<le> 1 \<and>
    t_options call = offers (t_process call) (t_role call) \<and>
    t_sock call = (if chosen port_of opts \<noteq> [] then last (chosen port_of opts)
      else if chosen decoder_of opts = [Old] then OLD_TELNET else NEW_TELNET)"
proof -
  obtain c where c: "choose_opts opts no_choice = Some (Inr c)"
    using assms(1) by (cases "choose_opts opts no_choice") (auto simp: telnet_args_def split: sum.splits)
  have m: "offers_match no_choice" by (simp add: offers_match_def no_choice_def)
  note k = choose_opts_chosen [OF c] and so = choose_opts_sock [OF c assms(2)]
  have call: "t_process call = or_default New (proc c)" "t_role call = or_default Client (telnet c)"
    "t_options call = (if t_role call = Client then or_default new_client_options (client_options c)
       else or_default new_server_options (server_options c))"
    "t_sock call = (if sock_no c = - 1 then NEW_TELNET else sock_no c)"
    using assms(1) c by (auto simp: telnet_args_def bind_eq_Some_conv Let_def split: if_splits list.splits)
  have "t_options call = offers (t_process call) (t_role call)"
    using call(1-3) k [THEN conjunct2, THEN conjunct2, THEN conjunct2, THEN conjunct2, rule_format, OF m]
    by (cases "proc c"; cases "t_role call") (simp_all add: or_default_def offers_match_def)
  moreover have "t_sock call = (if chosen port_of opts \<noteq> [] then last (chosen port_of opts)
      else if chosen decoder_of opts = [Old] then OLD_TELNET else NEW_TELNET)"
  proof (cases "chosen port_of opts = []")
    case True
    then show ?thesis using call(4) so k
      by (cases "chosen decoder_of opts" rule: usual_sock.cases) (auto simp: no_choice_def)
  next
    case False
    then have "last (chosen port_of opts) \<noteq> - 1" using assms(2) last_in_set by metis
    then show ?thesis using call(4) so False by simp
  qed
  ultimately show ?thesis using call k by (simp add: no_choice_def)
qed

section \<open>The properties at work\<close>

theorem old_text_round_trip_witness: "written (decode Old (nvt [72, 13, 10, 105])) = [72, 13, 10, 105]"
  using old_text_round_trip [of "[72, 13, 10, 105]"] by (simp add: old_special_def)

definition typing :: "u8 \<Rightarrow> client_turn" where
  "typing c = \<lparr>sel = 1, kbd = Some (Some [c]), kbd_put = 1, net = True\<rparr>"

text \<open>A session of three keys in which an option and a byte arrive, in parts.\<close>

definition client_at_work :: client_state where
  "client_at_work = \<lparr>pipe = [IAC, WILL, 1, 65, 66], screen = [], keyed = []\<rparr>"

lemma client_works:
  "client_loop New (map typing [104, 105, 29]) client_at_work =
   (Quit, \<lparr>pipe = [66], screen = [Out [65]], keyed = [104, 105]\<rparr>)"
  by (simp add: client_at_work_def typing_def client_step_def keyboard_def network_def read_upto_def
      process_new_def special_def option_byte_def)

theorem client_refines_stream_witness:
  "[Out [65]] @ decode New [66] = decode New [IAC, WILL, 1, 65, 66] \<and> typed (map typing [104, 105, 29]) = [104, 105]"
  using client_refines_stream [OF client_works] by (simp add: client_at_work_def)

theorem writer_delivers_witness:
  "\<exists>l'. telnet_writer 3 [Some [1, 2, 3], Some [4], Some []] (\<lambda>_. 0) (map (wrote 3) [2, 1, 1])
      \<lparr>buf = (\<lambda>_. 0), fill = 0, sent = []\<rparr> = Some (Exited 0 l') \<and>
    sent l' = [[9, 3, 1, 2, 3], [9, 3, 3], [9, 3, 4]]"
  using writer_delivers [of "[[1, 2, 3], [4]]" "[[2, 1], [1]]" 3 "\<lambda>_. 0" "\<lparr>buf = (\<lambda>_. 0), fill = 0, sent = []\<rparr>"]
  by simp

definition arriving :: "int \<Rightarrow> u8 list \<Rightarrow> server_turn" where
  "arriving n bs = \<lparr>s_sel = 1, arrived = bs, shell_rd = None, s_net = True, shell_put = n\<rparr>"

definition server_at_work :: server_state where
  "server_at_work = \<lparr>inflow = [], to_shell = [], to_writer = []\<rparr>"

lemma server_works:
  "server_loop New (map2 arriving [1, 1, - 1] [[IAC, WILL, 1], [65], [66, 67]]) server_at_work =
     Some (Running, \<lparr>inflow = [67], to_shell = [Out [65]], to_writer = []\<rparr>)"
  "unsplit New (map2 arriving [1, 1, - 1] [[IAC, WILL, 1], [65], [66, 67]]) server_at_work"
  by (simp_all add: server_at_work_def arriving_def server_step_def shell_output_def shell_input_def taken_def
      process_new_def special_def option_byte_def whole_def)

theorem server_refines_stream_witness:
  "\<exists>ess. [Out [65]] = shell_gets (map2 arriving [1, 1, - 1] [[IAC, WILL, 1], [65], [66, 67]]) ess \<and>
     concat ess @ decode New [67] = decode New [IAC, WILL, 1, 65, 66, 67]"
  using server_refines_stream [OF server_works] by (auto simp: server_at_work_def arriving_def)

theorem server_split_command_witness:
  "\<exists>s'. server_loop New (map (\<lambda>bs. \<lparr>s_sel = 1, arrived = bs, shell_rd = None, s_net = True, shell_put = 1\<rparr>) [[IAC], [WILL], [1]])
      server_at_work = Some (Running, s') \<and> to_shell s' = [Out [IAC], Out [WILL], Out [1]]"
  using server_split_command [of server_at_work WILL 1 1] by (simp add: server_at_work_def verb_def)

theorem old_return_lost_witness: "written (decode Old (c_str old_client_options @ [108, 115, 13, 112])) = [108, 115]"
  using old_return_lost [of "[108, 115]" 112 "[]"] by (simp add: old_special_def)

definition session_env :: client_env where
  "session_env = \<lparr>open_io = \<lparr>send_ok = True, answer = Some ([4, 5] @ bytes_of 23 @ [3, 8, 0])\<rparr>,
     reader_pipe = True, writer_pipe = True, opt_put = 9, incoming = [IAC, WILL, 1, 65, 66], c_turns = map typing [104, 105, 29],
     reader_ends = True, writer_ends = True, close_io = Some \<lparr>send_ok = True, answer = Some [14, 3]\<rparr>\<rparr>"

lemma session_quits:
  "fst (client_loop New (c_turns session_env) \<lparr>pipe = incoming session_env, screen = es, keyed = c_str new_client_options\<rparr>) = Quit"
  by (simp add: session_env_def typing_def client_step_def keyboard_def network_def read_upto_def
      process_new_def special_def option_byte_def)

theorem telnet_client_session_witness:
  "\<exists>s l'. telnet_client 5 23 New new_client_options session_env \<lparr>buf = (\<lambda>_. 0), fill = 0, sent = []\<rparr> =
      Some (Returned () (s, l')) \<and>
    keyed s = [IAC, DO, 1, IAC, DO, 3, IAC, WILL, 3, 104, 105] \<and> length (sent l') = 2"
proof -
  have t: "typed (c_turns session_env) = [104, 105]"
    by (simp add: session_env_def typing_def)
  have c: "c_str new_client_options = [IAC, DO, 1, IAC, DO, 3, IAC, WILL, 3]"
    by (simp add: c_str_def new_client_options_def)
  show ?thesis
    using telnet_client_session [of session_env 5 23 3 8 0 new_client_options New _ "\<lparr>buf = (\<lambda>_. 0), fill = 0, sent = []\<rparr>",
        OF _ _ _ _ _ session_quits refl] t
    by (auto simp: c session_env_def)
qed

theorem telnet_args_call_witness:
  "telnet_args [Opt_p ''99'', Opt_o] [''5''] True =
     Some (Inr \<lparr>t_role = Client, t_host = 5, t_sock = 99, t_process = Old, t_options = [OECHO, 0]\<rparr>) \<and>
   offers Old Client = [OECHO, 0]"
proof -
  have a: "telnet_args [Opt_p ''99'', Opt_o] [''5''] True =
     Some (Inr \<lparr>t_role = Client, t_host = 5, t_sock = 99, t_process = Old, t_options = [OECHO, 0]\<rparr>)"
    by (simp add: telnet_args_def opt_meaning no_choice_def or_default_def atoi_def digits_def is_space_def
        is_digit_def old_client_options_def)
  have "- 1 \<notin> set (chosen port_of [Opt_p ''99'', Opt_o])"
    by (simp add: atoi_def digits_def is_space_def is_digit_def)
  from telnet_args_call [OF a this] a show ?thesis by simp
qed

end
