(* ===== verification/Apps_Props.thy ===== *)
theory Apps_Props
  imports Gateway Small_Apps Telnet_Props
begin

text \<open>
  The gateway and the small programs: what goes through them, what they make of short writes and long
  input, and how they compose with each other.
\<close>

section \<open>The gateway\<close>

text \<open>
  The writer child of the gateway against that of TELNET. The non-blocking pipe makes \<open>read\<close> fail when it
  is empty, and the child tries again: it does what TELNET's child does on the same pipe with the failing
  reads left out.
\<close>

theorem gw_writer_eq_writer:
  "gw_writer cn rs data ios l = telnet_writer cn (filter (\<lambda>r. r \<noteq> None) rs) data ios l"
proof (induction rs arbitrary: data ios l)
  case Nil
  then show ?case by simp
next
  case (Cons r rs)
  show ?case
  proof (cases r)
    case None
    then show ?thesis using Cons.IH by (simp add: read_upto_def count_of_def)
  next
    case (Some bs)
    then show ?thesis using Cons.IH
      by (cases "bs = []") (auto simp: read_upto_def count_of_def Let_def min_def intro!: Option.bind_cong split: send_end.split)
  qed
qed

text \<open>
  Short writes in the gateway. A block goes through \<open>copy\<close> as it is if \<open>write\<close> takes all of it; if it
  takes the first \<open>m\<close> bytes only, the rest is sent by writing the start of the block again.
\<close>

theorem gateway_short_write:
  assumes "0 < m" "m < length bs" "length bs \<le> 200"
  shows "copy (Some bs) [int (length bs)] to = Returned 1 (to @ bs) \<and>
    copy (Some bs) [int m, int (length bs) - int m] to = Returned 1 (to @ take m bs @ take (length bs - m) bs)"
proof -
  have "nat (int (length bs) - int m) = length bs - m" by simp
  moreover have "bs \<noteq> []" using assms by auto
  ultimately show ?thesis
    using assms write_loop_whole [of bs "[]" to] by (simp add: copy_def read_upto_def count_of_def)
qed

text \<open>A turn of the loop in which blocks come from either side and go out in one piece.\<close>

definition block :: "u8 list \<Rightarrow> (u8 list option \<times> int list) option" where
  "block bs = (if bs = [] then None else Some (Some bs, [int (length bs)]))"

definition gw_turn_of :: "u8 list \<times> u8 list \<Rightarrow> gw_turn" where
  "gw_turn_of b = \<lparr>g_sel = 1, from_tcp = block (fst b), from_ncp = block (snd b)\<rparr>"

lemma copy_whole: "bs \<noteq> [] \<Longrightarrow> length bs \<le> 200 \<Longrightarrow> copy (Some bs) [int (length bs)] to = Returned 1 (to @ bs)"
  using write_loop_whole [of bs "[]" to] by (simp add: copy_def read_upto_def count_of_def)

lemma tcp_side_block:
  "length (fst b) \<le> 200 \<Longrightarrow> tcp_side (gw_turn_of b) s = Returned 1 (s\<lparr>to_ncp := to_ncp s @ fst b\<rparr>)"
  by (cases "fst b = []") (simp_all add: tcp_side_def gw_turn_of_def block_def copy_whole)

lemma ncp_side_block:
  "length (snd b) \<le> 200 \<Longrightarrow> ncp_side (gw_turn_of b) s = Returned 1 (s\<lparr>to_tcp := to_tcp s @ snd b\<rparr>)"
  by (cases "snd b = []") (simp_all add: ncp_side_def gw_turn_of_def block_def copy_whole)

text \<open>
  C39. The gateway is transparent. As long as each block that is read can be written in one piece, the bytes
  from TCP go to the connection and those from the connection to TCP, each in order and none lost,
  until one side ends.
\<close>

theorem gateway_transparent:
  assumes "\<forall>b\<in>set bs. length (fst b) \<le> 200 \<and> length (snd b) \<le> 200" and "r = None \<or> r = Some []"
  shows "transport (map gw_turn_of bs @ [\<lparr>g_sel = 1, from_tcp = Some (r, []), from_ncp = None\<rparr>]) s =
    Returned () (s\<lparr>to_ncp := to_ncp s @ concat (map fst bs), to_tcp := to_tcp s @ concat (map snd bs)\<rparr>)"
  using assms(1)
proof (induction bs arbitrary: s)
  case Nil
  have "tcp_side \<lparr>g_sel = 1, from_tcp = Some (r, []), from_ncp = None\<rparr> s = Returned (count_of r) s"
    using assms(2) by (auto simp: tcp_side_def copy_def read_upto_def count_of_def)
  moreover have "count_of r \<le> 0" using assms(2) by (auto simp: count_of_def)
  ultimately show ?case by simp
next
  case (Cons b bs)
  have "g_sel (gw_turn_of b) = 1" by (simp add: gw_turn_of_def)
  then show ?case using Cons by (simp add: tcp_side_block ncp_side_block)
qed

section \<open>Echo\<close>

text \<open>
  C38. The echo server. Whatever blocks the connection delivers, and whatever parts of them the daemon takes
  back at a time, the server sends every byte back once and in order, block by block, until a read
  gives nothing. It asks for 232 bytes each time, what is left of 1000 in a byte.
\<close>

theorem echo_server_echoes:
  assumes "list_all2 (\<lambda>bs ns. sum_list ns = length bs \<and> 0 < length bs \<and> length bs \<le> 998 \<and> (\<forall>n\<in>set ns. 0 < n)) bss nss"
  shows "\<exists>l'. echo_server_loop (uint i) buffer
      (concat (map2 (\<lambda>bs ns. delivers i bs # map (wrote i) ns) bss nss) @ delivers i [] # ios) l = Some (Returned () l') \<and>
    sent l' = sent l @ concat (map2 (\<lambda>bs ns. [WIRE_READ, i, 232] # map (\<lambda>b. [WIRE_WRITE, i] @ b) (pieces ns bs)) bss nss) @
      [[WIRE_READ, i, 232]] \<and>
    concat (map2 (\<lambda>bs ns. concat (map2 take ns (pieces ns bs))) bss nss) = concat bss"
  using assms
proof (induction bss nss arbitrary: buffer l rule: list_all2_induct)
  case Nil
  obtain l1 where "ncp_read (delivers i []) (uint i) 1000 buffer 1000 l = Some (0, buffer, 0, l1)"
      "sent l1 = sent l @ [[WIRE_READ, i, 232]]"
    using ncp_read_delivers [of "[]" 1000 i buffer 1000 l] by auto
  then show ?case by simp
next
  case (Cons bs bss ns nss)
  let ?b = "put_bytes 0 bs buffer" and ?w = "\<lambda>b. [WIRE_WRITE, i] @ b"
  let ?ios = "concat (map2 (\<lambda>bs ns. delivers i bs # map (wrote i) ns) bss nss) @ delivers i [] # ios"
  obtain l1 where l1: "ncp_read (delivers i bs) (uint i) 1000 buffer 1000 l = Some (0, ?b, int (length bs), l1)"
      "sent l1 = sent l @ [[WIRE_READ, i, 232]]"
    using ncp_read_delivers [of bs 1000 i buffer 1000 l] Cons.hyps(1) by auto
  obtain l2 where l2: "send_all (uint i) 1000 ?b 0 (int (length bs)) (map (wrote i) ns @ ?ios) l1 = Some (All_sent, ?ios, l2)"
      "sent l2 = sent l1 @ map ?w (pieces ns bs)"
    using send_all_delivers [of ns "length bs" 1000 i ?b ?ios l1] Cons.hyps(1) by (auto simp: get_put_bytes)
  obtain l3 where "echo_server_loop (uint i) ?b ?ios l2 = Some (Returned () l3)"
      "sent l3 = sent l2 @ concat (map2 (\<lambda>bs ns. [WIRE_READ, i, 232] # map ?w (pieces ns bs)) bss nss) @ [[WIRE_READ, i, 232]]"
      "concat (map2 (\<lambda>bs ns. concat (map2 take ns (pieces ns bs))) bss nss) = concat bss"
    using Cons.IH [of ?b l2] by auto
  then show ?case using l1 l2 Cons.hyps(1) pieces_taken [of ns bs] by simp
qed

section \<open>Finger\<close>

lemma c_str_put: "length bs < n \<Longrightarrow> c_str (get_bytes 0 n (put_bytes 0 (bs @ [0]) m)) = c_str bs"
proof -
  assume "length bs < n"
  then obtain k where n: "n = length (bs @ [0]) + k" by (metis Suc_leI length_append_singleton le_iff_add)
  have "get_bytes 0 n (put_bytes 0 (bs @ [0]) m) = (bs @ [0]) @ get_bytes (length (bs @ [0])) k (put_bytes 0 (bs @ [0]) m)"
    unfolding n get_bytes_append get_put_bytes by simp
  then show ?thesis by (simp add: c_str_def takeWhile_tail)
qed

lemma put_bytes_snoc: "(put_bytes 0 bs m)(length bs := b) = put_bytes 0 (bs @ [b]) m"
  by (auto simp: put_bytes_def nth_append fun_eq_iff)

lemma snprintf_prefix:
  "length bs < cap \<Longrightarrow> get_bytes 0 (length bs) (snd (snprintf cap bs m)) = bs"
  unfolding snprintf_def using get_put_bytes [of 0 "bs @ [0]" m] get_bytes_append [of 0 "length bs" 1]
  by simp

lemma finser_text_no_nul: "0 \<notin> set bs \<Longrightarrow> 0 \<notin> set (finser_text bs)"
  by (simp add: finser_text_def crlf_def)

lemma finser_command:
  "length bs \<le> 998 \<Longrightarrow> c_str (get_bytes 0 1000 ((put_bytes 0 bs m)(length bs := 0))) = c_str bs"
  unfolding put_bytes_snoc by (intro c_str_put) simp

lemma snprintf_cut:
  assumes "0 \<notin> set bs" "cap \<le> n" "0 < cap"
  shows "c_str (get_bytes 0 n (snd (snprintf cap bs m))) = take (cap - 1) bs"
    and "get_bytes 0 (length (take (cap - 1) bs)) (snd (snprintf cap bs m)) = take (cap - 1) bs"
proof -
  have "0 \<notin> set (take (cap - 1) bs)" using assms(1) set_take_subset by fast
  then show "c_str (get_bytes 0 n (snd (snprintf cap bs m))) = take (cap - 1) bs"
    using c_str_put [of "take (cap - 1) bs" n m] assms(2,3) by (simp add: snprintf_def c_str_no_nul)
  let ?t = "take (cap - 1) bs"
  show "get_bytes 0 (length ?t) (snd (snprintf cap bs m)) = ?t"
    using get_put_bytes [of 0 "?t @ [0]" m] get_bytes_append [of 0 "length ?t" 1]
    by (simp add: snprintf_def del: length_take)
qed

text \<open>
  The finger client. With up to 996 bytes of name it sends the name and CR LF, and shows the bytes of one
  reply; with more it takes the length of the text it could not store for the number of bytes to
  send, which do not fit into the message of the library.
\<close>

theorem finger_request:
  assumes "atoi a = Some (uint h)" "init_ok env"
    and "f_open env = \<lparr>send_ok = True, answer = Some ([WIRE_OPEN + 1, h] @ bytes_of 79 @ [i, z, e])\<rparr>" "e \<noteq> 255"
    and "f_write env = wrote i n" "n < 65536" "f_read env = delivers i bs" "length bs \<le> 998"
    and "f_close env = \<lparr>send_ok = True, answer = Some [WIRE_CLOSE + 1, i]\<rparr>"
  shows "if length user \<le> 996
    then \<exists>l'. finger [a, user] env l =
        Some (Returned () (bytes_of_string (''Finger host '' @ octal3 (uint h) @ ''.'' @ [CHR 0x0A]) @ bs, l')) \<and>
      sent l' = sent l @ [WIRE_OPEN # h # bytes_of 79 @ [8], [WIRE_WRITE, i] @ bytes_of_string user @ crlf,
        [WIRE_READ, i, 232], [WIRE_CLOSE, i]]
    else finger [a, user] env l = None"
proof -
  let ?c = "bytes_of_string user @ crlf"
  obtain l1 where o: "ncp_open (f_open env) (uint h) 79 8 l = Some (0, Some (i, z), l1)"
      "sent l1 = sent l @ [WIRE_OPEN # h # bytes_of 79 @ [8]]"
    using ncp_open_reply [of "f_open env" h 79 i z e 8 l] assms(3,4) by auto
  have n: "fst (snprintf 1000 ?c (\<lambda>_. 0)) = int (length ?c)" by (simp add: snprintf_def)
  show ?thesis
  proof (cases "length user \<le> 996")
    case True
    let ?m = "snd (snprintf 1000 ?c (\<lambda>_. 0))"
    have "length ?c \<le> 998" using True by (simp add: crlf_def)
    then obtain l2 where w: "ncp_write (wrote i n) (uint i) 1000 ?m (int (length ?c)) l1 = Some (0, int n, l2)"
        "sent l2 = sent l1 @ [[WIRE_WRITE, i] @ ?c]"
      using ncp_write_wrote [of "length ?c" 1000 n i ?m l1] assms(6) snprintf_prefix [of ?c 1000 "\<lambda>_. 0"] by auto
    obtain l3 where r: "ncp_read (delivers i bs) (uint i) 1000 (\<lambda>_. 0) 1000 l2 = Some (0, put_bytes 0 bs (\<lambda>_. 0), int (length bs), l3)"
        "sent l3 = sent l2 @ [[WIRE_READ, i, 232]]"
      using ncp_read_delivers [of bs 1000 i "\<lambda>_. 0" 1000 l2] assms(8) by auto
    obtain l4 where c: "ncp_close (f_close env) (uint i) l3 = Some (0, l4)" "sent l4 = sent l3 @ [[WIRE_CLOSE, i]]"
      using ncp_close_reply [of i l3] assms(9) by auto
    show ?thesis
      using True o w r c n assms(1,2)
      by (simp add: finger_def Let_def case_prod_beta assms(5,7) get_put_bytes del: length_append)
  next
    case False
    then have "998 < length ?c" by (simp add: crlf_def)
    then show ?thesis
      using False o n assms(1,2) ncp_write_long [of "length ?c"]
      by (simp add: finger_def Let_def case_prod_beta del: length_append)
  qed
qed

text \<open>
  The finger server. Whatever a client sends, the server stores nothing outside its arrays, and answers
  with its text around the client's bytes up to the first NUL, cut to 998 bytes: as many as the message
  of the library takes.
\<close>

theorem finser_answers:
  assumes "init_ok env" and "f_open env = \<lparr>send_ok = True, answer = Some ([WIRE_LISTEN + 1, h] @ bytes_of 79 @ [i, z])\<rparr>"
    and "h \<noteq> 0" "f_read env = delivers i bs" "length bs \<le> 998" "f_write env = wrote i n" "n < 65536"
    and "f_close env = \<lparr>send_ok = True, answer = Some [WIRE_CLOSE + 1, i]\<rparr>"
  shows "\<exists>l'. finser [] env l = Some (Returned () l') \<and>
    sent l' = sent l @ [WIRE_LISTEN # bytes_of 79 @ [8], [WIRE_READ, i, 232],
      [WIRE_WRITE, i] @ take 998 (finser_text (c_str bs)), [WIRE_CLOSE, i]]"
proof -
  let ?t = "finser_text (c_str bs)"
  let ?r = "take 998 ?t" and ?m = "snd (snprintf 999 ?t (\<lambda>_. 0))"
  note t = finser_text_no_nul [OF nul_not_in_c_str, of bs]
  note c = finser_command [OF assms(5)]
  obtain l1 where o: "ncp_listen (f_open env) 79 8 l = Some (0, Some (h, i, z), l1)"
      "sent l1 = sent l @ [WIRE_LISTEN # bytes_of 79 @ [8]]"
    using ncp_listen_reply [of "f_open env" h 79 i z 8 l] assms(2,3) by auto
  obtain l2 where r: "ncp_read (delivers i bs) (uint i) 1000 (\<lambda>_. 0) 1000 l1 = Some (0, put_bytes 0 bs (\<lambda>_. 0), int (length bs), l2)"
      "sent l2 = sent l1 @ [[WIRE_READ, i, 232]]"
    using ncp_read_delivers [of bs 1000 i "\<lambda>_. 0" 1000 l1] assms(5) by auto
  have a: "c_str (get_bytes 0 1000 ?m) = ?r" using snprintf_cut(1) [OF t, of 999 1000] by simp
  have "length ?r \<le> 998" "length ?r \<le> 1000" by simp_all
  moreover have "get_bytes 0 (length ?r) ?m = ?r" using snprintf_cut(2) [OF t, of 999 1000] by simp
  ultimately obtain l3 where w: "ncp_write (wrote i n) (uint i) 1000 ?m (int (length ?r)) l2 = Some (0, int n, l3)"
      "sent l3 = sent l2 @ [[WIRE_WRITE, i] @ ?r]"
    using ncp_write_wrote [of "length ?r" 1000 n i ?m l2] assms(7) by (auto simp del: length_take)
  obtain l4 where z: "ncp_close (f_close env) (uint i) l3 = Some (0, l4)" "sent l4 = sent l3 @ [[WIRE_CLOSE, i]]"
    using ncp_close_reply [of i l3] assms(8) by auto
  have "finser [] env l = Some (Returned () l4)"
    using o(1) r(1) w(1) z(1) assms(1,5) a
    by (simp add: finser_def Let_def case_prod_beta assms(4,6) c del: length_take)
  then show ?thesis using o(2) r(2) w(2) z(2) by simp
qed

section \<open>Ping\<close>

lemma to_int_small: "- 2147483648 \<le> n \<Longrightarrow> n \<le> 2147483647 \<Longrightarrow> to_int n = n"
  by (simp add: to_int_def sint_sbintrunc' signed_take_bit_int_eq_self)

text \<open>
  The time that ping reports. It is the elapsed time rounded to the nearest millisecond, as long as the
  microseconds of the clock have not wrapped between the two readings by more than 500; if they have,
  the division of a negative number rounds up, and the time is between 0.5 and 1.5 ms too long.
\<close>

theorem ping_difference:
  assumes "0 \<le> u" "u < 1000000" "0 \<le> v" "v < 1000000" "\<bar>t - s\<bar> \<le> 2147481"
  shows "let e = 1000000 * (t - s) + (v - u); d = 1000 * difference (s, u) (t, v) - e in
    if u \<le> v + 500 then - 500 < d \<and> d \<le> 500 else 500 \<le> d \<and> d < 1500"
proof -
  let ?x = "v - u + 500" and ?q = "c_div (v - u + 500) 1000"
  have q: "if 0 \<le> ?x then ?x - 1000 < 1000 * ?q \<and> 1000 * ?q \<le> ?x else ?x \<le> 1000 * ?q \<and> 1000 * ?q < ?x + 1000"
  proof (cases "0 \<le> ?x")
    case True
    then have "?q = ?x div 1000" by (simp add: c_div_pos)
    then show ?thesis using True by simp linarith
  next
    case False
    then have "?q = - ((- ?x) div 1000)" by (simp add: c_div_def)
    then show ?thesis using False by simp linarith
  qed
  have "\<bar>?q\<bar> \<le> 1001" using q assms(1-4) by (simp split: if_splits)
  then have "difference (s, u) (t, v) = 1000 * (t - s) + ?q"
    using assms(5) by (simp add: difference_def Let_def to_int_small)
  then show ?thesis using q by (simp add: Let_def split: if_splits)
qed

definition echoed :: "u8 \<Rightarrow> u8 \<Rightarrow> daemon_io" where
  "echoed h y = \<lparr>send_ok = True, answer = Some [WIRE_ECHO + 1, h, y, 0x10]\<rparr>"

lemma ncp_echo_echoed:
  "\<exists>l'. ncp_echo (echoed h y) (uint h) n l = Some (0, Some y, l') \<and> sent l' = sent l @ [[WIRE_ECHO, h, word_of_int n]]"
proof -
  have "ncp_echo (echoed h y) (uint h) n l = ncp_echo (echoed h y) (uint h) (uint (word_of_int n :: u8)) l"
    by (simp add: ncp_echo_def)
  then show ?thesis using ncp_echo_reply [of "echoed h y" h y 16 "word_of_int n" l] by (simp add: echoed_def)
qed

text \<open>What ping reports and does between two rounds.\<close>

definition ping_report :: "u8 \<Rightarrow> timespec \<Rightarrow> u8 \<times> timeval \<times> timeval \<Rightarrow> ping_event list" where
  "ping_report h interval = (\<lambda>(y, a, b). [Line (ping_line (uint h) (uint y) (difference a b)), Sleep interval])"

text \<open>
  The rounds of ping. With a count, and a daemon that answers, ping ends after that many rounds; it has
  sent the sequence numbers one after the other, each cut to a byte, and printed one line for each
  answer, with the interval between two of them.
\<close>

theorem ping_rounds:
  assumes "seq + int (length xs) \<le> 2147483647"
  shows "\<exists>l'. ping_loop (uint h) interval (map (\<lambda>(y, a, b). (echoed h y, a, b)) xs) seq (int (length xs)) l to =
      Some (Returned () (to @ butlast (concat (map (ping_report h interval) xs)), l')) \<and>
    sent l' = sent l @ map (\<lambda>k. [WIRE_ECHO, h, word_of_int (seq + int k)]) [0..<length xs]"
  using assms
proof (induction xs arbitrary: seq l to)
  case Nil
  then show ?case by simp
next
  case (Cons x xs)
  obtain y a b where x: "x = (y, a, b)" by (cases x)
  let ?line = "Line (ping_line (uint h) (uint y) (difference a b))"
  let ?to = "to @ butlast [?line, Sleep interval] @ (if xs = [] then [] else [Sleep interval])"
  obtain l1 where l1: "ncp_echo (echoed h y) (uint h) seq l = Some (0, Some y, l1)"
      "sent l1 = sent l @ [[WIRE_ECHO, h, word_of_int seq]]"
    using ncp_echo_echoed by blast
  obtain l2 where "ping_loop (uint h) interval (map (\<lambda>(y, a, b). (echoed h y, a, b)) xs) (seq + 1) (int (length xs)) l1 ?to =
      Some (Returned () (?to @ butlast (concat (map (ping_report h interval) xs)), l2))"
      "sent l2 = sent l1 @ map (\<lambda>k. [WIRE_ECHO, h, word_of_int (seq + 1 + int k)]) [0..<length xs]"
    using Cons.IH [of "seq + 1" l1 ?to] Cons.prems by auto
  moreover have "map (\<lambda>k. [WIRE_ECHO, h, word_of_int (seq + int k)]) [0..<length (x # xs)] =
      [WIRE_ECHO, h, word_of_int seq] # map (\<lambda>k. [WIRE_ECHO, h, word_of_int (seq + 1 + int k)]) [0..<length xs]"
    by (simp only: length_Cons map_upt_Suc) (simp add: add.assoc)
  moreover have "butlast (concat (map (ping_report h interval) (x # xs))) =
      ?line # (if xs = [] then [] else [Sleep interval]) @ butlast (concat (map (ping_report h interval) xs))"
    by (cases xs) (simp_all add: x ping_report_def split: prod.splits)
  ultimately show ?case using Cons.prems x l1 by (cases "xs = []") (simp_all add: Let_def)
qed

text \<open>
  The interval. A number that is not negative gives an interval that \<open>nanosleep\<close> accepts, short of the number by less
  than two nanoseconds, if the rounding is off by less than one and does not reach the next second. With a negative
  number, from a nanosecond on, \<open>nanosleep\<close> fails, and there is no pause at all.
\<close>

lemma whole_part_bounds: "0 \<le> x \<Longrightarrow> of_int (whole_part x) \<le> x \<and> x < of_int (whole_part x) + 1 \<and> 0 \<le> whole_part x"
  by (simp add: whole_part_def) linarith

lemma interval_accepted:
  assumes "0 \<le> x" "x < 2147483648" "\<And>y. 0 \<le> y \<Longrightarrow> y < 1000000000 \<Longrightarrow> 0 \<le> rnd y \<and> rnd y < 1000000000 \<and> \<bar>rnd y - y\<bar> < 1"
  obtains t where "to_timespec rnd x = Some t" "nanosleep_accepts t"
    "\<bar>1000000000 * x - of_int (1000000000 * fst t + snd t)\<bar> < 2"
proof -
  let ?s = "whole_part x" let ?y = "1000000000 * (x - of_int ?s)"
  have s: "of_int ?s \<le> x" "x < of_int ?s + 1" "0 \<le> ?s" using whole_part_bounds [OF assms(1)] by auto
  then have "(of_int ?s :: rat) < of_int 2147483648" using assms(2) by simp
  then have r: "?s \<le> 2147483647" by (simp only: of_int_less_iff)
  have y: "0 \<le> rnd ?y" "rnd ?y < 1000000000" "\<bar>rnd ?y - ?y\<bar> < 1" using assms(3) [of ?y] s by auto
  let ?n = "whole_part (rnd ?y)"
  have n: "of_int ?n \<le> rnd ?y" "rnd ?y < of_int ?n + 1" "0 \<le> ?n" using whole_part_bounds [OF y(1)] by auto
  then have "(of_int ?n :: rat) < of_int 1000000000" using y(2) by simp
  then have n9: "?n < 1000000000" by (simp only: of_int_less_iff)
  show thesis
  proof (rule that)
    show "to_timespec rnd x = Some (?s, ?n)" using s r by (simp add: to_timespec_def Let_def)
    show "nanosleep_accepts (?s, ?n)" using s n n9 by (simp add: nanosleep_accepts_def)
    show "\<bar>1000000000 * x - of_int (1000000000 * fst (?s, ?n) + snd (?s, ?n))\<bar> < 2" using y(3) n by simp
  qed
qed

lemma interval_negative:
  assumes "x < 0" "x \<le> - 1 \<or> rnd (1000000000 * x) \<le> - 1" "to_timespec rnd x = Some t"
  shows "\<not> nanosleep_accepts t"
proof -
  have "whole_part x \<le> 0" "x \<le> - 1 \<Longrightarrow> whole_part x < 0" using assms(1) by (auto simp: whole_part_def ceiling_less_iff)
  moreover have "whole_part (rnd (1000000000 * x)) < 0" if "rnd (1000000000 * x) \<le> - 1"
    using that by (auto simp: whole_part_def ceiling_less_iff)
  ultimately show ?thesis using assms
    by (cases "whole_part x = 0") (auto simp: to_timespec_def Let_def nanosleep_accepts_def split: if_splits)
qed

section \<open>The properties at work\<close>

definition lib_zero :: lib_state where
  "lib_zero = \<lparr>buf = (\<lambda>_. 0), fill = 0, sent = []\<rparr>"

theorem gateway_short_write_witness:
  "copy (Some [1, 2, 3]) [2, 1] [] = Returned 1 [1, 2, 1]"
  using gateway_short_write [of 2 "[1, 2, 3]" "[]"] by simp

theorem gateway_transparent_witness:
  "transport (map gw_turn_of [([1, 2], []), ([3], [4])] @ [\<lparr>g_sel = 1, from_tcp = Some (Some [], []), from_ncp = None\<rparr>])
     \<lparr>to_ncp = [], to_tcp = []\<rparr> = Returned () \<lparr>to_ncp = [1, 2, 3], to_tcp = [4]\<rparr>"
  using gateway_transparent [of "[([1, 2], []), ([3], [4])]" "Some []" "\<lparr>to_ncp = [], to_tcp = []\<rparr>"] by simp

theorem echo_server_echoes_witness:
  "\<exists>l'. echo_server_loop 3 (\<lambda>_. 0) [delivers 3 [1, 2], wrote 3 1, wrote 3 1, delivers 3 []] lib_zero = Some (Returned () l') \<and>
    sent l' = [[7, 3, 232], [9, 3, 1, 2], [9, 3, 2], [7, 3, 232]]"
  using echo_server_echoes [of "[[1, 2]]" "[[1, 1]]" 3 "\<lambda>_. 0" "[]" lib_zero] by (simp add: lib_zero_def)

definition finger_at_work :: finger_env where
  "finger_at_work = \<lparr>init_ok = True, f_open = \<lparr>send_ok = True, answer = Some ([4, 5] @ bytes_of 79 @ [3, 8, 0])\<rparr>,
     f_write = wrote 3 5, f_read = delivers 3 [72, 105], f_close = \<lparr>send_ok = True, answer = Some [14, 3]\<rparr>\<rparr>"

theorem finger_request_witness:
  "\<exists>l'. finger [''5'', ''lars''] finger_at_work lib_zero =
      Some (Returned () (bytes_of_string (''Finger host '' @ octal3 5 @ ''.'' @ [CHR 0x0A]) @ [72, 105], l')) \<and>
    [9, 3, 108, 97, 114, 115, 13, 10] \<in> set (sent l')"
proof -
  have "atoi ''5'' = Some (uint (5 :: u8))" by (simp add: atoi_def digits_def is_space_def is_digit_def)
  from finger_request [OF this, of finger_at_work 3 8 0 5 "[72, 105]" "''lars''" lib_zero]
  show ?thesis by (auto simp: finger_at_work_def lib_zero_def crlf_def)
qed

definition finser_at_work :: finger_env where
  "finser_at_work = \<lparr>init_ok = True, f_open = \<lparr>send_ok = True, answer = Some ([6, 5] @ bytes_of 79 @ [3, 8])\<rparr>,
     f_write = wrote 3 70, f_read = delivers 3 [120, 0, 121], f_close = \<lparr>send_ok = True, answer = Some [14, 3]\<rparr>\<rparr>"

theorem finser_answers_witness:
  "\<exists>l'. finser [] finser_at_work lib_zero = Some (Returned () l') \<and>
    [9, 3] @ take 998 (finser_text [120]) \<in> set (sent l')"
  using finser_answers [of finser_at_work 5 3 8 "[120, 0, 121]" 70 lib_zero]
  by (auto simp: finser_at_work_def lib_zero_def c_str_def)

theorem ping_difference_witness:
  "1000 * difference (7, 999999) (8, 0) - 1 = 999 \<and> difference (7, 0) (7, 1400) = 1"
proof -
  have "difference (7, 999999) (8, 0) = 1" "difference (7, 0) (7, 1400) = 1"
    by (simp_all add: difference_def Let_def to_int_small c_div_def)
  then show ?thesis using ping_difference [of 999999 0 8 7] by (simp add: Let_def)
qed

theorem ping_rounds_witness:
  "\<exists>l'. ping_loop 5 (1, 0) [(echoed 5 1, (0, 0), (0, 1000)), (echoed 5 2, (1, 0), (1, 2000))] 1 2 lib_zero [] =
      Some (Returned () ([Line (ping_line 5 1 (difference (0, 0) (0, 1000))), Sleep (1, 0),
        Line (ping_line 5 2 (difference (1, 0) (1, 2000)))], l')) \<and>
    sent l' = [[1, 5, 1], [1, 5, 2]]"
  using ping_rounds [of 1 "[(1, (0, 0), (0, 1000)), (2, (1, 0), (1, 2000))]" 5 "(1, 0)" lib_zero "[]"]
  by (simp add: lib_zero_def ping_report_def)

end
