(* ===== verification/Startup.thy ===== *)
theory Startup
  imports Posix Imp
begin

text \<open>
  How the programs start and end: \<open>ncp_init\<close>, \<open>cleanup\<close> and the signal handlers of the library
  (\<open>src/libncp.c\<close>) and of the daemon (\<open>src/ncp.c\<close>), and the arguments and the socket of the IMP
  interface (\<open>src/imp.c\<close>). What the system calls answer is an argument; what a process asks of the
  system is a list of \<open>sys\<close>.
\<close>

section \<open>System calls\<close>

datatype errno = EFAULT | ECONNREFUSED | Other_error

datatype sys = Sys_bind string | Sys_connect string | Sys_close int | Sys_unlink string

text \<open>\<open>strncpy\<close> into the \<open>sun_path\<close> of 108 bytes that was cleared before leaves one NUL at least.\<close>

definition sun_path_of :: "string \<Rightarrow> string" where
  "sun_path_of path = take 107 path"

section \<open>The library\<close>

text \<open>
  The static \<open>fd\<close> and \<open>addr.sun_path\<close> of a process, how often \<open>cleanup\<close> has been registered with
  \<open>atexit\<close>, and its system calls. A child that \<open>fork\<close> makes has a copy of all but the last.
\<close>

record lib_process =
  sock_fd :: int
  own_path :: string
  at_exit :: nat
  calls :: "sys list"

definition fresh_process :: lib_process where
  "fresh_process = \<lparr>sock_fd = 0, own_path = [], at_exit = 0, calls = []\<rparr>"

definition forked :: "lib_process \<Rightarrow> lib_process" where
  "forked p = p\<lparr>calls := []\<rparr>"

definition lib_cleanup :: "lib_process \<Rightarrow> lib_process" where
  "lib_cleanup p = p\<lparr>calls := calls p @ [Sys_close (sock_fd p), Sys_unlink (own_path p)]\<rparr>"

text \<open>\<open>exit\<close> runs \<open>cleanup\<close> as often as it was registered; so does \<open>quit\<close>, the signal handler.\<close>

definition lib_exit :: "lib_process \<Rightarrow> lib_process" where
  "lib_exit p = (lib_cleanup ^^ at_exit p) p"

definition lib_quit :: "lib_process \<Rightarrow> lib_process" where
  "lib_quit p = lib_exit p"

text \<open>\<open>snprintf\<close> with room for 107 bytes.\<close>

definition client_path :: "u32 \<Rightarrow> string" where
  "client_path pid = take 106 (''/tmp/client.'' @ decimal (uint pid))"

record init_os =
  sock_result :: int
  socket_errno :: errno
  getpid :: u32
  bind_error :: "errno option"
  ncp_env :: "string option"
  connect_error :: "errno option"

text \<open>The result, \<open>errno\<close> when it is -1, and the process.\<close>

definition lib_init :: "string option \<Rightarrow> init_os \<Rightarrow> lib_process \<Rightarrow> int \<times> errno option \<times> lib_process" where
  "lib_init path w p =
     (let p = p\<lparr>sock_fd := sock_result w\<rparr>
      in if sock_result w = - 1 then (- 1, Some (socket_errno w), p)
      else let p = p\<lparr>own_path := client_path (getpid w)\<rparr>;
             p = p\<lparr>calls := calls p @ [Sys_unlink (own_path p), Sys_bind (own_path p)]\<rparr>
      in if bind_error w \<noteq> None then (- 1, bind_error w, p)
      else let p = p\<lparr>at_exit := at_exit p + 1\<rparr>
      in case (if path = None then ncp_env w else path) of
           None \<Rightarrow> (- 1, Some EFAULT, p)
         | Some path \<Rightarrow>
             let p = p\<lparr>calls := calls p @ [Sys_connect (sun_path_of path)]\<rparr>
             in if connect_error w \<noteq> None then (- 1, connect_error w, p) else (0, None, p))"

text \<open>The line that the programs print below \<open>NCP initialization error\<close>.\<close>

definition init_hint :: "errno option \<Rightarrow> string" where
  "init_hint e =
     (if e = Some ECONNREFUSED then ''Is the NCP server started?''
      else if e = Some EFAULT then ''Is the NCP environment variable set?'' else [])"

section \<open>The daemon\<close>

text \<open>The path the daemon listens to and its system calls; without the variable \<open>strncpy\<close> reads from NULL.\<close>

definition daemon_init :: "string option \<Rightarrow> bool \<Rightarrow> (string, sys list) run option" where
  "daemon_init env bind_ok =
     (case env of None \<Rightarrow> None
      | Some path \<Rightarrow> (let p = sun_path_of path
          in if bind_ok then Some (Returned [Sys_bind p] p) else Some (Exited 1 p)))"

definition daemon_cleanup :: "string \<Rightarrow> sys list" where
  "daemon_cleanup path = [Sys_unlink path]"

text \<open>The signal handler cleans up, and \<open>exit\<close> does so again.\<close>

definition sigcleanup :: "string \<Rightarrow> sys list" where
  "sigcleanup path = daemon_cleanup path @ daemon_cleanup path"

section \<open>The IMP interface\<close>

record imp_conf =
  dest_addr :: "u8 list"
  dest_port :: u16
  own_port :: u16

text \<open>
  \<open>args\<close> gives the exit status or the addresses; \<open>lookup\<close> is \<open>gethostbyname\<close>, whose address has four
  bytes. A port is what is left of the number in 16 bits.
\<close>

definition imp_args :: "(string \<Rightarrow> u8 list option) \<Rightarrow> string list \<Rightarrow> (int + imp_conf) option" where
  "imp_args lookup argv =
     (if length argv \<noteq> 4 then Some (Inl 1)
      else case lookup (argv ! 1) of
        None \<Rightarrow> Some (Inl 1)
      | Some a \<Rightarrow>
          do { p \<leftarrow> atoi (argv ! 2);
               q \<leftarrow> atoi (argv ! 3);
               if length a \<noteq> 4 then None
               else Some (Inr \<lparr>dest_addr = a, dest_port = word_of_int p, own_port = word_of_int q\<rparr>) })"

text \<open>Any of the three calls of \<open>make_socket\<close> that fails ends the daemon.\<close>

definition make_socket :: "int \<Rightarrow> bool \<Rightarrow> bool \<Rightarrow> int + int" where
  "make_socket fd reuse_ok bind_ok =
     (if fd = - 1 then Inl 1 else if \<not> reuse_ok then Inl 1 else if \<not> bind_ok then Inl 1 else Inr fd)"

definition imp_start :: "(string \<Rightarrow> u8 list option) \<Rightarrow> string list \<Rightarrow> int \<Rightarrow> bool \<Rightarrow> bool \<Rightarrow>
    (int + imp_conf \<times> int) option" where
  "imp_start lookup argv fd reuse_ok bind_ok =
     do { r \<leftarrow> imp_args lookup argv;
          Some (case r of Inl n \<Rightarrow> Inl n
            | Inr conf \<Rightarrow> (case make_socket fd reuse_ok bind_ok of Inl n \<Rightarrow> Inl n | Inr s \<Rightarrow> Inr (conf, s))) }"

section \<open>Addresses of clients\<close>

text \<open>A number that is printed reads back as itself.\<close>

lemma numeral_in_small: "n < b \<Longrightarrow> numeral_in b n = [char_of (48 + n)]"
  by (subst numeral_in.simps) (simp del: numeral_in.simps)

lemma numeral_in_step: "10 \<le> n \<Longrightarrow> numeral_in 10 n = numeral_in 10 (n div 10) @ [char_of (48 + n mod 10)]"
  by (subst numeral_in.simps) (simp del: numeral_in.simps)

declare numeral_in.simps [simp del]

lemma digits_append: "digits (s @ [c]) = 10 * digits s + (of_char c - 48)"
  by (simp add: digits_def)

lemma of_char_char_of: "n < 256 \<Longrightarrow> (of_char (char_of (n :: nat) :: char) :: int) = int n"
  using of_nat_of_char [of "char_of n", where 'a = int] by simp

lemma digits_numeral_in: "digits (numeral_in 10 n) = int n"
proof (induction n rule: less_induct)
  case (less n)
  show ?case
  proof (cases "n < 10")
    case True
    then show ?thesis by (simp add: digits_def numeral_in_small of_char_char_of)
  next
    case False
    have "n mod 10 < 10" by simp
    then have "48 + n mod 10 < 256" by linarith
    moreover have "digits (numeral_in 10 (n div 10)) = int (n div 10)" using False by (intro less.IH) simp
    ultimately have "digits (numeral_in 10 n) = 10 * int (n div 10) + (int (48 + n mod 10) - 48)"
      unfolding numeral_in_step [OF False [unfolded not_less]] digits_append
      by (simp only: of_char_char_of)
    also have "\<dots> = int n" by (simp add: zdiv_int zmod_int)
    finally show ?thesis .
  qed
qed

lemma decimal_inject: "decimal (uint x) = decimal (uint (y :: u32)) \<longleftrightarrow> x = y"
proof
  assume "decimal (uint x) = decimal (uint y)"
  then have "digits (numeral_in 10 (unat x)) = digits (numeral_in 10 (unat y))" by (simp add: decimal_def)
  then have "unat x = unat y" by (simp only: digits_numeral_in of_nat_eq_iff)
  then show "x = y" by (rule unsigned_word_eqI)
qed simp

text \<open>The number of a process has at most ten digits, so its path is never cut.\<close>

lemma length_numeral_in: "n < 10 ^ Suc k \<Longrightarrow> length (numeral_in 10 n) \<le> Suc k"
proof (induction k arbitrary: n)
  case 0
  then show ?case by (simp add: numeral_in_small)
next
  case (Suc k)
  have "n div 10 < 10 ^ Suc k" using Suc.prems by (simp add: less_mult_imp_div_less)
  then have "length (numeral_in 10 (n div 10)) \<le> Suc k" by (rule Suc.IH)
  then show ?case by (cases "n < 10") (simp_all add: numeral_in_small numeral_in_step)
qed

lemma client_path_whole: "client_path pid = ''/tmp/client.'' @ decimal (uint pid)"
proof -
  have "unat pid < 10 ^ Suc 9" using unsigned_less [of pid, where 'a = nat] by simp
  from length_numeral_in [OF this] have "length (decimal (uint pid)) \<le> Suc 9" by (simp add: decimal_def)
  then show ?thesis by (simp add: client_path_def)
qed

lemma client_path_inject: "client_path x = client_path y \<longleftrightarrow> x = y"
  by (simp add: client_path_whole decimal_inject)

section \<open>Starting and ending\<close>

lemma cleanup_steps:
  "(lib_cleanup ^^ n) p = p\<lparr>calls := calls p @ concat (replicate n [Sys_close (sock_fd p), Sys_unlink (own_path p)])\<rparr>"
proof (induction n arbitrary: p)
  case (Suc n)
  show ?case unfolding funpow_Suc_right comp_def Suc by (simp add: lib_cleanup_def)
qed simp

lemma lib_exit_calls:
  "calls (lib_exit p) = calls p @ concat (replicate (at_exit p) [Sys_close (sock_fd p), Sys_unlink (own_path p)])"
  by (simp add: lib_exit_def cleanup_steps)

lemma lib_init_result:
  "fst (lib_init path w p) =
     (if sock_result w \<noteq> - 1 \<and> bind_error w = None \<and> (path \<noteq> None \<or> ncp_env w \<noteq> None) \<and> connect_error w = None
      then 0 else - 1)"
  by (auto simp: lib_init_def Let_def split: option.splits)

lemma lib_init_calls:
  assumes "fst (lib_init path w p) = 0"
  shows "calls (snd (snd (lib_init path w p))) = calls p @ [Sys_unlink (client_path (getpid w)),
    Sys_bind (client_path (getpid w)), Sys_connect (sun_path_of (the (if path = None then ncp_env w else path)))]"
  using assms by (auto simp: lib_init_def Let_def split: option.splits if_splits)

lemma lib_init_no_variable:
  assumes "sock_result w \<noteq> - 1" "bind_error w = None" "ncp_env w = None"
  shows "init_hint (fst (snd (lib_init None w p))) = ''Is the NCP environment variable set?''"
  using assms by (simp add: lib_init_def init_hint_def)

text \<open>
  C37. A child that \<open>fork\<close> made inherits the address of its parent, and that its exit calls \<open>cleanup\<close>. When it
  calls \<open>ncp_init\<close> and then exits, whatever the result, it leaves the address of the parent alone exactly if
  it could make a socket: without one, it removes the address at which the parent waits for the daemon.
\<close>

theorem child_keeps_address:
  assumes "own_path p = client_path pid" and "at_exit p > 0" and "getpid w \<noteq> pid"
  shows "Sys_unlink (own_path p) \<in> set (calls (lib_exit (snd (snd (lib_init path w (forked p)))))) \<longleftrightarrow> sock_result w = - 1"
  using assms by (auto simp: lib_exit_calls lib_init_def Let_def forked_def client_path_inject split: option.splits)

theorem child_keeps_address_witness:
  "Sys_unlink (client_path 7) \<in> set (calls (lib_exit (snd (snd (lib_init None
     \<lparr>sock_result = - 1, socket_errno = Other_error, getpid = 8, bind_error = None, ncp_env = None, connect_error = None\<rparr>
     (forked \<lparr>sock_fd = 3, own_path = client_path 7, at_exit = 1, calls = []\<rparr>))))))"
  using child_keeps_address [of "\<lparr>sock_fd = 3, own_path = client_path 7, at_exit = 1, calls = []\<rparr>" 7
      "\<lparr>sock_result = - 1, socket_errno = Other_error, getpid = 8, bind_error = None, ncp_env = None, connect_error = None\<rparr>" None]
  by simp

end
