(* ===== verification/Processes.thy ===== *)
theory Processes
  imports Startup
begin

text \<open>
  Descriptors, children and the terminal: the first part of \<open>reader\<close> and \<open>writer\<close> (\<open>apps/telnet.c\<close>,
  \<open>apps/gateway.c\<close>) and \<open>apps/tty.c\<close>. A process has a table of descriptors; \<open>fork\<close> copies it, and what
  the calls of the system answer is an argument.
\<close>

section \<open>Descriptors\<close>

text \<open>What a descriptor refers to. The pipes of a session have numbers; the flag is \<open>FD_CLOEXEC\<close>.\<close>

datatype what = Standard | Network | Pipe_read nat | Pipe_write nat | Master | Slave

type_synonym fds = "(what \<times> bool) option list"

definition file_of :: "nat \<Rightarrow> fds \<Rightarrow> what option" where
  "file_of n t = (if n < length t then map_option fst (t ! n) else None)"

definition files :: "fds \<Rightarrow> what set" where
  "files t = {f. \<exists>n. file_of n t = Some f}"

text \<open>A new descriptor is the lowest that is free.\<close>

definition lowest_free :: "fds \<Rightarrow> nat" where
  "lowest_free t = length (takeWhile (\<lambda>e. e \<noteq> None) t)"

definition fd_new :: "what \<Rightarrow> fds \<Rightarrow> nat \<times> fds" where
  "fd_new f t = (let n = lowest_free t in (n, if n < length t then t[n := Some (f, False)] else t @ [Some (f, False)]))"

definition fd_close :: "nat \<Rightarrow> fds \<Rightarrow> fds" where
  "fd_close n t = t[n := None]"

definition fd_cloexec :: "nat \<Rightarrow> fds \<Rightarrow> fds" where
  "fd_cloexec n t = (case file_of n t of None \<Rightarrow> t | Some f \<Rightarrow> t[n := Some (f, True)])"

definition fd_dup :: "nat \<Rightarrow> fds \<Rightarrow> fds" where
  "fd_dup n t = (case file_of n t of None \<Rightarrow> t | Some f \<Rightarrow> snd (fd_new f t))"

definition fd_exec :: "fds \<Rightarrow> fds" where
  "fd_exec t = map (\<lambda>e. case e of Some (f, True) \<Rightarrow> None | _ \<Rightarrow> e) t"

definition pipe :: "nat \<Rightarrow> fds \<Rightarrow> nat \<times> nat \<times> fds" where
  "pipe k t = (let (r, t) = fd_new (Pipe_read k) t; (w, t) = fd_new (Pipe_write k) t in (r, w, t))"

section \<open>Children with a pipe\<close>

text \<open>
  After \<open>fork\<close>: the result, the descriptor that is returned to the caller with the table of the parent, and the
  descriptor that the child uses with its table.
\<close>

record with_child =
  child_pid :: int
  parent_fd :: nat
  parent_fds :: fds
  child_fd :: nat
  child_fds :: fds

text \<open>\<open>Inl 1\<close> if there is no pipe. The parent is where \<open>fork\<close> is not 0, which includes its failure.\<close>

definition reader_child :: "bool \<Rightarrow> int \<Rightarrow> nat \<Rightarrow> fds \<Rightarrow> int + with_child" where
  "reader_child pipe_ok pid k t =
     (if \<not> pipe_ok then Inl 1
      else let (r, w, t) = pipe k t; t = fd_cloexec w (fd_cloexec r t)
        in Inr \<lparr>child_pid = pid, parent_fd = r, parent_fds = fd_close w t, child_fd = w, child_fds = fd_close r t\<rparr>)"

definition writer_child :: "bool \<Rightarrow> int \<Rightarrow> nat \<Rightarrow> fds \<Rightarrow> int + with_child" where
  "writer_child pipe_ok pid k t =
     (if \<not> pipe_ok then Inl 1
      else let (r, w, t) = pipe k t; t = fd_cloexec w (fd_cloexec r t)
        in Inr \<lparr>child_pid = pid, parent_fd = w, parent_fds = fd_close r t, child_fd = r, child_fds = fd_close w t\<rparr>)"

text \<open>The gateway does not set the flags.\<close>

definition gw_reader_child :: "bool \<Rightarrow> int \<Rightarrow> nat \<Rightarrow> fds \<Rightarrow> int + with_child" where
  "gw_reader_child pipe_ok pid k t =
     (if \<not> pipe_ok then Inl 1
      else let (r, w, t) = pipe k t
        in Inr \<lparr>child_pid = pid, parent_fd = r, parent_fds = fd_close w t, child_fd = w, child_fds = fd_close r t\<rparr>)"

definition gw_writer_child :: "bool \<Rightarrow> int \<Rightarrow> nat \<Rightarrow> fds \<Rightarrow> int + with_child" where
  "gw_writer_child pipe_ok pid k t =
     (if \<not> pipe_ok then Inl 1
      else let (r, w, t) = pipe k t
        in Inr \<lparr>child_pid = pid, parent_fd = w, parent_fds = fd_close r t, child_fd = r, child_fds = fd_close w t\<rparr>)"

text \<open>Both children of a session, the reader first.\<close>

definition both_children :: "(bool \<Rightarrow> int \<Rightarrow> nat \<Rightarrow> fds \<Rightarrow> int + with_child) \<Rightarrow> (bool \<Rightarrow> int \<Rightarrow> nat \<Rightarrow> fds \<Rightarrow> int + with_child) \<Rightarrow>
    bool \<times> int \<Rightarrow> bool \<times> int \<Rightarrow> fds \<Rightarrow> int + with_child \<times> with_child" where
  "both_children rd wr p q t =
     (case rd (fst p) (snd p) 0 t of
        Inl n \<Rightarrow> Inl n
      | Inr r \<Rightarrow> (case wr (fst q) (snd q) 1 (parent_fds r) of Inl n \<Rightarrow> Inl n | Inr w \<Rightarrow> Inr (r, w)))"

section \<open>The shell\<close>

text \<open>\<open>open (ptsname (fd))\<close> needs the master.\<close>

definition open_slave :: "nat \<Rightarrow> fds \<Rightarrow> (nat \<times> fds) option" where
  "open_slave fd t = (if file_of fd t = Some Master then Some (fd_new Slave t) else None)"

text \<open>
  The child of \<open>tty_run\<close>: the table that the command starts with, or the exit status. \<open>execs\<close> tells whether the
  command can be run.
\<close>

definition tty_child :: "bool \<Rightarrow> nat \<Rightarrow> fds \<Rightarrow> int + fds" where
  "tty_child execs fd t =
     (let t = fd_close 2 (fd_close 1 (fd_close 0 t))
      in case open_slave fd t of
        None \<Rightarrow> Inl 1
      | Some (n, t) \<Rightarrow>
          if n \<noteq> 0 then Inl 1
          else let t = fd_dup 1 (fd_dup 0 (fd_close fd t)) in if execs then Inr (fd_exec t) else Inl 1)"

text \<open>
  \<open>tty_run\<close>: the results of \<open>posix_openpt\<close>, \<open>grantpt\<close> and \<open>unlockpt\<close>, and of \<open>fork\<close>. In the parent, the exit status,
  or the descriptor of the master, the result and its table; with it, what becomes of the child.
\<close>

definition tty_run :: "bool \<Rightarrow> bool \<Rightarrow> bool \<Rightarrow> int \<Rightarrow> bool \<Rightarrow> fds \<Rightarrow> int + (nat \<times> int \<times> fds) \<times> (int + fds)" where
  "tty_run openpt_ok grant_ok unlock_ok pid execs t =
     (let (fd, t) = fd_new Master t
      in if \<not> openpt_ok \<or> \<not> grant_ok \<or> \<not> unlock_ok then Inl 1
         else Inr ((fd, pid, t), tty_child execs fd t))"

section \<open>The mode of the terminal\<close>

record termios =
  c_iflag :: u32
  c_oflag :: u32
  c_cflag :: u32
  c_lflag :: u32
  c_cc :: "nat \<Rightarrow> u8"

abbreviation (input) VTIME :: nat where "VTIME \<equiv> 5"
abbreviation (input) VMIN :: nat where "VMIN \<equiv> 6"

text \<open>The mode of the file on descriptor 0, \<open>None\<close> if it is no terminal, and the static variable \<open>saved\<close>.\<close>

definition tty_restore :: "termios option \<times> termios \<Rightarrow> termios option \<times> termios" where
  "tty_restore s = (case s of (tty, saved) \<Rightarrow> (map_option (\<lambda>_. saved) tty, saved))"

text \<open>
  When \<open>tcgetattr\<close> fails, \<open>saved\<close> keeps its value, and \<open>tcsetattr\<close> fails, too.
\<close>

definition raw_mode :: "termios \<Rightarrow> termios" where
  "raw_mode t = t\<lparr>c_iflag := 0, c_oflag := 0, c_lflag := 0, c_cc := (c_cc t)(VMIN := 1, VTIME := 0)\<rparr>"

definition tty_raw :: "termios option \<times> termios \<Rightarrow> termios option \<times> termios" where
  "tty_raw s =
     (case s of (tty, saved) \<Rightarrow>
        let saved = (case tty of None \<Rightarrow> saved | Some t \<Rightarrow> t); new = raw_mode saved
        in (map_option (\<lambda>_. new) tty, saved))"

section \<open>Tables\<close>

lemma lowest_free_le: "lowest_free t \<le> length t"
  by (simp add: lowest_free_def length_takeWhile_le)

lemma lowest_free_free: "lowest_free t < length t \<Longrightarrow> t ! lowest_free t = None"
  unfolding lowest_free_def using nth_length_takeWhile by fastforce

lemma file_of_lowest [simp]: "file_of (lowest_free t) t = None"
  using lowest_free_free by (auto simp: file_of_def)

lemma below_lowest: "n < lowest_free t \<Longrightarrow> file_of n t \<noteq> None"
  using takeWhile_nth [of n "\<lambda>e. e \<noteq> None" t] nth_mem [of n "takeWhile (\<lambda>e. e \<noteq> None) t"] lowest_free_le [of t]
  by (auto simp: lowest_free_def file_of_def dest: set_takeWhileD)

lemma lowest_free_eqI: "file_of n t = None \<Longrightarrow> (\<And>m. m < n \<Longrightarrow> file_of m t \<noteq> None) \<Longrightarrow> lowest_free t = n"
  by (metis below_lowest file_of_lowest linorder_neqE_nat)

lemma fd_new_fst [simp]: "fst (fd_new f t) = lowest_free t"
  by (simp add: fd_new_def Let_def)

lemma file_of_new [simp]: "file_of m (snd (fd_new f t)) = (if m = lowest_free t then Some f else file_of m t)"
  using lowest_free_le [of t] by (auto simp: fd_new_def Let_def file_of_def nth_append nth_list_update)

lemma file_of_close [simp]: "file_of m (fd_close n t) = (if m = n then None else file_of m t)"
  by (auto simp: fd_close_def file_of_def nth_list_update)

lemma file_of_cloexec [simp]: "file_of m (fd_cloexec n t) = file_of m t"
  by (auto simp: fd_cloexec_def file_of_def nth_list_update split: option.splits)

lemma files_iff: "f \<in> files t \<longleftrightarrow> (\<exists>n. file_of n t = Some f)"
  by (simp add: files_def)

text \<open>What a program that is started keeps.\<close>

definition kept_of :: "nat \<Rightarrow> fds \<Rightarrow> what option" where
  "kept_of n t = (if n < length t then (case t ! n of Some (f, False) \<Rightarrow> Some f | _ \<Rightarrow> None) else None)"

lemma file_of_exec [simp]: "file_of n (fd_exec t) = kept_of n t"
  by (auto simp: fd_exec_def file_of_def kept_of_def split: option.splits bool.splits)

lemma kept_of_new [simp]: "kept_of m (snd (fd_new f t)) = (if m = lowest_free t then Some f else kept_of m t)"
  using lowest_free_le [of t] by (auto simp: fd_new_def Let_def kept_of_def nth_append nth_list_update)

lemma kept_of_close [simp]: "kept_of m (fd_close n t) = (if m = n then None else kept_of m t)"
  by (auto simp: fd_close_def kept_of_def nth_list_update)

lemma kept_of_cloexec [simp]: "kept_of m (fd_cloexec n t) = (if m = n then None else kept_of m t)"
  by (auto simp: fd_cloexec_def kept_of_def file_of_def nth_list_update split: option.splits)

lemma kept_of_file: "kept_of n t = Some f \<Longrightarrow> file_of n t = Some f"
  by (auto simp: kept_of_def file_of_def split: if_splits option.splits bool.splits)

text \<open>The two ends of a new pipe.\<close>

lemma pipe_cases:
  obtains r w t' where "pipe k t = (r, w, t')" "r = lowest_free t" "r \<noteq> w" "file_of r t = None" "file_of w t = None"
    "\<And>m. file_of m t' = (if m = r then Some (Pipe_read k) else if m = w then Some (Pipe_write k) else file_of m t)"
    "\<And>m. kept_of m t' = (if m = r then Some (Pipe_read k) else if m = w then Some (Pipe_write k) else kept_of m t)"
proof -
  let ?t = "snd (fd_new (Pipe_read k) t)"
  have n: "lowest_free ?t \<noteq> lowest_free t" using file_of_lowest [of ?t] by (auto simp del: file_of_lowest)
  then have "file_of (lowest_free ?t) t = None" using file_of_lowest [of ?t] by (simp del: file_of_lowest)
  then show ?thesis using n
    by (intro that [of "lowest_free t" "lowest_free ?t" "snd (fd_new (Pipe_write k) ?t)"])
      (auto simp: pipe_def Let_def split_beta prod_eq_iff)
qed

lemma kept_of_None: "file_of n t = None \<Longrightarrow> kept_of n t = None"
  using kept_of_file [of n t] by (cases "kept_of n t") auto

lemma files_insert:
  "(\<And>m. file_of m t' = (if m = n then Some f else file_of m t)) \<Longrightarrow> file_of n t = None \<Longrightarrow> files t' = insert f (files t)"
  unfolding files_def by (auto split: if_splits) (metis option.distinct(1))

section \<open>Children with a pipe, on both sides\<close>

text \<open>What \<open>fork\<close> leaves in the tables: each side has one end of the pipe more than before.\<close>

definition forks :: "what \<Rightarrow> what \<Rightarrow> int \<Rightarrow> fds \<Rightarrow> with_child \<Rightarrow> bool" where
  "forks mine its p t c \<longleftrightarrow> child_pid c = p \<and> file_of (parent_fd c) t = None \<and> file_of (child_fd c) t = None \<and>
     (\<forall>m. file_of m (parent_fds c) = (if m = parent_fd c then Some mine else file_of m t)) \<and>
     (\<forall>m. file_of m (child_fds c) = (if m = child_fd c then Some its else file_of m t))"

lemma forks_files:
  assumes "forks mine its p t c"
  shows "files (parent_fds c) = insert mine (files t)" "files (child_fds c) = insert its (files t)"
  using assms by (auto simp: forks_def intro!: files_insert)

lemma forks_close:
  assumes "\<And>m. file_of m t' = (if m = r then Some f else if m = w then Some g else file_of m t)" "r \<noteq> w"
    "file_of r t = None" "file_of w t = None"
  shows "forks f g p t \<lparr>child_pid = p, parent_fd = r, parent_fds = fd_close w t', child_fd = w, child_fds = fd_close r t'\<rparr>"
    "forks g f p t \<lparr>child_pid = p, parent_fd = w, parent_fds = fd_close r t', child_fd = r, child_fds = fd_close w t'\<rparr>"
  using assms by (auto simp: forks_def)

text \<open>What the two programs need of their \<open>reader\<close> and \<open>writer\<close>.\<close>

locale session_children =
  fixes rd wr :: "bool \<Rightarrow> int \<Rightarrow> nat \<Rightarrow> fds \<Rightarrow> int + with_child"
  assumes reader_forks: "\<exists>c. rd True p k t = Inr c \<and> forks (Pipe_read k) (Pipe_write k) p t c"
    and writer_forks: "\<exists>c. wr True p k t = Inr c \<and> forks (Pipe_write k) (Pipe_read k) p t c"
begin

lemma pipes:
  "\<exists>r w. both_children rd wr (True, p) (True, q) t = Inr (r, w) \<and> child_pid r = p \<and> child_pid w = q \<and>
     file_of (parent_fd r) (parent_fds w) = Some (Pipe_read 0) \<and> file_of (parent_fd w) (parent_fds w) = Some (Pipe_write 1) \<and>
     file_of (child_fd r) (child_fds r) = Some (Pipe_write 0) \<and> file_of (child_fd w) (child_fds w) = Some (Pipe_read 1) \<and>
     files (parent_fds w) = {Pipe_read 0, Pipe_write 1} \<union> files t \<and>
     files (child_fds r) = {Pipe_write 0} \<union> files t \<and>
     files (child_fds w) = {Pipe_read 0, Pipe_read 1} \<union> files t"
proof -
  obtain r where r: "rd True p 0 t = Inr r" "forks (Pipe_read 0) (Pipe_write 0) p t r" using reader_forks by blast
  obtain w where w: "wr True q 1 (parent_fds r) = Inr w" "forks (Pipe_write 1) (Pipe_read 1) q (parent_fds r) w"
    using writer_forks by blast
  have "parent_fd r \<noteq> parent_fd w" using r(2) w(2) by (auto simp: forks_def)
  then show ?thesis
    using r w forks_files [OF r(2)] forks_files [OF w(2)]
    by (simp add: both_children_def insert_commute) (simp add: forks_def)
qed

end

lemma telnet_reader_forks: "\<exists>c. reader_child True p k t = Inr c \<and> forks (Pipe_read k) (Pipe_write k) p t c"
  by (rule pipe_cases [of k t]) (simp add: reader_child_def Let_def forks_close)

lemma telnet_writer_forks: "\<exists>c. writer_child True p k t = Inr c \<and> forks (Pipe_write k) (Pipe_read k) p t c"
  by (rule pipe_cases [of k t]) (simp add: writer_child_def Let_def forks_close)

lemma gateway_reader_forks: "\<exists>c. gw_reader_child True p k t = Inr c \<and> forks (Pipe_read k) (Pipe_write k) p t c"
  by (rule pipe_cases [of k t]) (simp add: gw_reader_child_def Let_def forks_close)

lemma gateway_writer_forks: "\<exists>c. gw_writer_child True p k t = Inr c \<and> forks (Pipe_write k) (Pipe_read k) p t c"
  by (rule pipe_cases [of k t]) (simp add: gw_writer_child_def Let_def forks_close)

interpretation telnet_children: session_children reader_child writer_child
  by unfold_locales (rule telnet_reader_forks telnet_writer_forks)+

interpretation gateway_children: session_children gw_reader_child gw_writer_child
  by unfold_locales (rule gateway_reader_forks gateway_writer_forks)+

text \<open>
  After \<open>reader\<close> and \<open>writer\<close>, the parent holds the read end of the first pipe and the write end of the second,
  and nobody else holds that write end, so the writer sees the end of its pipe when the parent closes it. The
  reader holds the only write end of its pipe. But the writer has inherited the read end of the reader's pipe, so
  the reader is not told when the parent closes that.
\<close>

theorem session_pipes:
  "\<exists>r w. both_children reader_child writer_child (True, p) (True, q) t = Inr (r, w) \<and> child_pid r = p \<and> child_pid w = q \<and>
     file_of (parent_fd r) (parent_fds w) = Some (Pipe_read 0) \<and> file_of (parent_fd w) (parent_fds w) = Some (Pipe_write 1) \<and>
     file_of (child_fd r) (child_fds r) = Some (Pipe_write 0) \<and> file_of (child_fd w) (child_fds w) = Some (Pipe_read 1) \<and>
     files (parent_fds w) = {Pipe_read 0, Pipe_write 1} \<union> files t \<and>
     files (child_fds r) = {Pipe_write 0} \<union> files t \<and>
     files (child_fds w) = {Pipe_read 0, Pipe_read 1} \<union> files t"
  by (rule telnet_children.pipes)

section \<open>The shell and the terminal\<close>

lemma kept_parent:
  assumes "reader_child ok p k t = Inr c \<or> writer_child ok p k t = Inr c"
  shows "kept_of m (parent_fds c) = kept_of m t"
proof (rule pipe_cases [of k t])
  fix r w t'
  assume *: "pipe k t = (r, w, t')" "file_of r t = None" "file_of w t = None"
    "\<And>m. kept_of m t' = (if m = r then Some (Pipe_read k) else if m = w then Some (Pipe_write k) else kept_of m t)"
  then show ?thesis using assms
    by (auto simp: reader_child_def writer_child_def Let_def kept_of_None split: if_splits)
qed

lemma fd_dup_new: "file_of n t = Some f \<Longrightarrow> fd_dup n t = snd (fd_new f t)"
  by (simp add: fd_dup_def)

lemma tty_child_table:
  assumes "file_of fd t = Some Master" "3 \<le> fd"
  shows "\<exists>sh. tty_child True fd t = Inr sh \<and>
    (\<forall>m. file_of m sh = (if m \<le> 2 then Some Slave else if m = fd then None else kept_of m t))"
proof -
  let ?t = "fd_close 2 (fd_close 1 (fd_close 0 t))"
  have l: "lowest_free ?t = 0" by (rule lowest_free_eqI) simp_all
  let ?u = "fd_close fd (snd (fd_new Slave ?t))"
  have u: "file_of m ?u = (if m = 0 then Some Slave else if m \<in> {1, 2, fd} then None else file_of m t)" for m
    using assms(2) l by auto
  have "lowest_free ?u = 1"
  proof (rule lowest_free_eqI)
    show "file_of 1 ?u = None" unfolding u by simp
    show "file_of m ?u \<noteq> None" if "m < 1" for m using that unfolding u by simp
  qed
  let ?v = "fd_dup 0 ?u"
  have v: "?v = snd (fd_new Slave ?u)" by (rule fd_dup_new, rule trans [OF u]) simp
  have vf: "file_of m ?v = (if m \<in> {0, 1} then Some Slave else if m \<in> {2, fd} then None else file_of m t)" for m
    unfolding v file_of_new \<open>lowest_free ?u = 1\<close> u by simp
  have "lowest_free ?v = 2"
  proof (rule lowest_free_eqI)
    show "file_of 2 ?v = None" unfolding vf by simp
    show "file_of m ?v \<noteq> None" if "m < 2" for m
    proof -
      have "m \<in> {0, 1}" using that by auto
      then show ?thesis unfolding vf by simp
    qed
  qed
  have w: "fd_dup 1 ?v = snd (fd_new Slave ?v)"
    by (rule fd_dup_new, rule trans [OF vf]) simp
  have "tty_child True fd t = Inr (fd_exec (snd (fd_new Slave ?v)))"
    using assms w l by (simp add: tty_child_def open_slave_def Let_def split_beta)
  moreover have "file_of m (fd_exec (snd (fd_new Slave ?v))) =
      (if m \<le> 2 then Some Slave else if m = fd then None else kept_of m t)" for m
    unfolding file_of_exec kept_of_new \<open>lowest_free ?v = 2\<close> unfolding v kept_of_new \<open>lowest_free ?u = 1\<close>
    using assms(2) l by auto
  ultimately show ?thesis by blast
qed

text \<open>
  C36. When the server starts with descriptors 0, 1 and 2 open, the shell that it runs has the new terminal on these
  three, and otherwise what the server could pass on before the session: no end of a pipe of the session and not
  the other side of the terminal, which the server keeps.
\<close>

theorem shell_on_terminal:
  assumes "\<forall>m<3. file_of m t \<noteq> None"
    and "both_children reader_child writer_child (True, p) (True, q) t = Inr (r, w)"
  shows "\<exists>fd t' sh. tty_run True True True pid True (parent_fds w) = Inr ((fd, pid, t'), Inr sh) \<and>
    file_of fd t' = Some Master \<and> (\<forall>m. file_of m sh = (if m < 3 then Some Slave else kept_of m t))"
proof -
  let ?t = "parent_fds w"
  have r: "reader_child True p 0 t = Inr r" and w: "writer_child True q 1 (parent_fds r) = Inr w"
    using assms(2) by (auto simp: both_children_def split: sum.splits)
  have k: "kept_of m ?t = kept_of m t" for m using kept_parent r w by metis
  have f: "file_of m ?t \<noteq> None" if "file_of m t \<noteq> None" for m
    using telnet_children.reader_forks [of p 0 t] telnet_children.writer_forks [of q 1 "parent_fds r"] r w that
    by (auto simp: forks_def split: if_splits)
  have 3: "3 \<le> lowest_free ?t"
    using f assms(1) file_of_lowest [of ?t] by (metis not_le)
  let ?u = "snd (fd_new Master ?t)"
  from tty_child_table [of "lowest_free ?t" ?u] 3
  obtain sh where sh: "tty_child True (lowest_free ?t) ?u = Inr sh"
      "\<forall>m. file_of m sh = (if m \<le> 2 then Some Slave else if m = lowest_free ?t then None else kept_of m ?u)" by auto
  have "tty_run True True True pid True ?t = Inr ((lowest_free ?t, pid, ?u), Inr sh)"
    using sh(1) by (simp add: tty_run_def Let_def split_beta)
  moreover have "file_of m sh = (if m < 3 then Some Slave else kept_of m t)" for m
    using sh(2) k kept_of_None [OF file_of_lowest [of ?t]] by auto
  ultimately show ?thesis by auto
qed

theorem shell_on_terminal_witness:
  "\<exists>r w fd t' sh. both_children reader_child writer_child (True, 7) (True, 8) (replicate 4 (Some (Standard, False))) = Inr (r, w) \<and>
    tty_run True True True 9 True (parent_fds w) = Inr ((fd, 9, t'), Inr sh) \<and> file_of 2 sh = Some Slave"
proof -
  let ?t = "replicate 4 (Some (Standard, False))"
  obtain r w where *: "both_children reader_child writer_child (True, 7) (True, 8) ?t = Inr (r, w)"
    using telnet_children.pipes [of 7 8 ?t] by blast
  have "\<forall>m<3. file_of m ?t \<noteq> None" by (simp add: file_of_def)
  from shell_on_terminal [OF this *, of 9] obtain fd t' sh
    where **: "tty_run True True True 9 True (parent_fds w) = Inr ((fd, 9, t'), Inr sh)"
      "\<forall>m. file_of m sh = (if m < 3 then Some Slave else kept_of m ?t)" by blast
  then have "file_of 2 sh = Some Slave" by simp
  then show ?thesis using * **(1) by blast
qed

text \<open>
  The mode: \<open>tty_restore\<close> brings back the mode that \<open>tty_raw\<close> found, and after \<open>tty_raw\<close> a \<open>read\<close> waits for one
  character, which is neither changed nor shown and is no signal.
\<close>

lemma tty_raw_mode:
  "fst (tty_raw (Some t, saved)) = Some (raw_mode t)" "fst (tty_restore (tty_raw (Some t, saved))) = Some t"
  "fst (tty_restore (tty_raw (None, saved))) = None"
  by (simp_all add: tty_raw_def tty_restore_def Let_def)

end
