(* ===== verification/Session_End.thy ===== *)
theory Session_End
  imports Processes
begin

text \<open>
  How a session ends: the calls behind the label \<open>end\<close> in \<open>telnet_client\<close>, \<open>telnet_server\<close> and
  \<open>transport\<close>, together with the children, the shell and the daemon, which go on at the same time. A step is one
  call of one of them.
\<close>

section \<open>The processes\<close>

datatype shutdown_op = Kill_term int | Close_fd nat | Waitpid int | Killpg_hup int | Call_close

definition client_end :: "with_child \<Rightarrow> with_child \<Rightarrow> shutdown_op list" where
  "client_end r w = [Kill_term (child_pid r), Close_fd (parent_fd r), Close_fd (parent_fd w),
     Waitpid (child_pid r), Waitpid (child_pid w), Call_close]"

definition server_end :: "with_child \<Rightarrow> with_child \<Rightarrow> int \<Rightarrow> shutdown_op list" where
  "server_end r w shell = [Close_fd (parent_fd r), Close_fd (parent_fd w),
     Waitpid (child_pid r), Waitpid (child_pid w), Killpg_hup shell, Waitpid shell, Call_close]"

definition gw_end :: "with_child \<Rightarrow> with_child \<Rightarrow> shutdown_op list" where
  "gw_end r w = [Kill_term (child_pid r), Kill_term (child_pid w), Call_close]"

text \<open>
  A child waits for the daemon in \<open>ncp_read\<close> or \<open>ncp_write\<close>, is at its pipe, or is gone. \<open>room\<close> is the number of
  writes that the reader's pipe has room for, \<open>queue\<close> the number of bytes in the writer's pipe, and \<open>unsent\<close> the number of
  bytes that the writer has read and the daemon has not taken (\<open>m\<close> in \<open>writer\<close>). \<open>closing\<close> tells that the parent waits
  in \<open>ncp_close\<close>, \<open>close_ok\<close> what that call has returned.
\<close>

datatype phase = At_daemon | At_pipe | Gone

record child =
  pid_of :: int
  phase :: phase
  fds_of :: fds

record session =
  todo :: "shutdown_op list"
  own_fds :: fds
  reading :: child
  writing :: child
  room :: nat
  unsent :: nat
  queue :: nat
  shell_pid :: int
  shell_alive :: bool
  closing :: bool
  close_ok :: "bool option"

definition ending :: "shutdown_op list \<Rightarrow> with_child \<Rightarrow> with_child \<Rightarrow> phase \<Rightarrow> phase \<Rightarrow> nat \<Rightarrow> nat \<Rightarrow> nat \<Rightarrow> int \<Rightarrow> bool \<Rightarrow> session" where
  "ending ops r w pr pw space m pending shell alive =
     \<lparr>todo = ops, own_fds = parent_fds w,
      reading = \<lparr>pid_of = child_pid r, phase = pr, fds_of = child_fds r\<rparr>,
      writing = \<lparr>pid_of = child_pid w, phase = pw, fds_of = child_fds w\<rparr>,
      room = space, unsent = m, queue = pending, shell_pid = shell, shell_alive = alive,
      closing = False, close_ok = None\<rparr>"

definition holds_file :: "what \<Rightarrow> fds \<Rightarrow> bool" where
  "holds_file f t = list_ex (\<lambda>e. map_option fst e = Some f) t"

text \<open>Whether a process that is there has a descriptor for one end of a pipe.\<close>

definition held :: "what \<Rightarrow> session \<Rightarrow> bool" where
  "held f s \<longleftrightarrow> holds_file f (own_fds s) \<or> phase (reading s) \<noteq> Gone \<and> holds_file f (fds_of (reading s)) \<or>
     phase (writing s) \<noteq> Gone \<and> holds_file f (fds_of (writing s))"

definition alive :: "int \<Rightarrow> session \<Rightarrow> bool" where
  "alive pid s \<longleftrightarrow> pid = pid_of (reading s) \<and> phase (reading s) \<noteq> Gone \<or>
     pid = pid_of (writing s) \<and> phase (writing s) \<noteq> Gone \<or> pid = shell_pid s \<and> shell_alive s"

text \<open>
  \<open>SIGTERM\<close> and \<open>SIGHUP\<close> end a process; the handler of the children calls \<open>exit\<close>. \<open>ncp_close\<close> sends its request and
  then waits for the answer.
\<close>

definition ended :: "int \<Rightarrow> child \<Rightarrow> child" where
  "ended pid c = (if pid = pid_of c then c\<lparr>phase := Gone\<rparr> else c)"

fun shutdown_step :: "shutdown_op \<Rightarrow> session \<Rightarrow> session option" where
  "shutdown_step (Kill_term pid) s = Some (s\<lparr>reading := ended pid (reading s), writing := ended pid (writing s)\<rparr>)"
| "shutdown_step (Close_fd fd) s = Some (s\<lparr>own_fds := fd_close fd (own_fds s)\<rparr>)"
| "shutdown_step (Waitpid pid) s = (if alive pid s then None else Some s)"
| "shutdown_step (Killpg_hup pid) s = Some (if pid = shell_pid s then s\<lparr>shell_alive := False\<rparr> else s)"
| "shutdown_step Call_close s = Some (s\<lparr>closing := True\<rparr>)"

text \<open>
  The acts: of the parent, of the two children at their pipes, of the shell, and of the daemon. Its answer to a read lets
  the reader go on or, when it is an error or the end, exit. Its answer to a write is the number of bytes it has taken; with
  the rest the writer calls \<open>ncp_write\<close> again, and with 0, or -1 for an error, it exits. Its answer to a close tells whether
  the call succeeds; if it does not, the parent exits.
\<close>

datatype act = Parent | Reader | Writer | Shell_exit | Answer_read bool | Answer_write int | Answer_close bool

definition set_phase :: "phase \<Rightarrow> child \<Rightarrow> child" where
  "set_phase p c = c\<lparr>phase := p\<rparr>"

fun session_act :: "act \<Rightarrow> session \<Rightarrow> session option" where
  "session_act Parent s =
     (if closing s then None
      else case todo s of [] \<Rightarrow> None | x # xs \<Rightarrow> map_option (\<lambda>s. s\<lparr>todo := xs\<rparr>) (shutdown_step x s))"
| "session_act Reader s =
     (if phase (reading s) \<noteq> At_pipe then None
      else if \<not> held (Pipe_read 0) s then Some (s\<lparr>reading := set_phase Gone (reading s)\<rparr>)
      else if room s = 0 then None
      else Some (s\<lparr>reading := set_phase At_daemon (reading s), room := room s - 1\<rparr>))"
| "session_act Writer s =
     (if phase (writing s) \<noteq> At_pipe then None
      else if queue s \<noteq> 0 then
        (let n = min 200 (queue s)
         in Some (s\<lparr>writing := set_phase At_daemon (writing s), unsent := n, queue := queue s - n\<rparr>))
      else if held (Pipe_write 1) s then None
      else Some (s\<lparr>writing := set_phase Gone (writing s)\<rparr>))"
| "session_act Shell_exit s = (if shell_alive s then Some (s\<lparr>shell_alive := False\<rparr>) else None)"
| "session_act (Answer_read goes_on) s =
     (if phase (reading s) \<noteq> At_daemon then None
      else Some (s\<lparr>reading := set_phase (if goes_on then At_pipe else Gone) (reading s)\<rparr>))"
| "session_act (Answer_write n) s =
     (if phase (writing s) \<noteq> At_daemon then None
      else if n \<le> 0 then Some (s\<lparr>writing := set_phase Gone (writing s)\<rparr>)
      else let m = unsent s - nat n
        in Some (s\<lparr>writing := set_phase (if m > 0 then At_daemon else At_pipe) (writing s), unsent := m\<rparr>))"
| "session_act (Answer_close ok) s =
     (if \<not> closing s then None
      else Some (s\<lparr>closing := False, close_ok := Some ok, todo := (if ok then todo s else [])\<rparr>))"

fun session_run :: "act list \<Rightarrow> session \<Rightarrow> session option" where
  "session_run [] s = Some s"
| "session_run (a # as) s = (case session_act a s of None \<Rightarrow> None | Some s' \<Rightarrow> session_run as s')"

section \<open>Every run ends\<close>

text \<open>A bound for the number of acts, whatever their order.\<close>

definition parent_work :: "shutdown_op list \<Rightarrow> nat" where
  "parent_work ops = length ops + length (filter (\<lambda>x. x = Call_close) ops)"

definition reader_work :: "nat \<Rightarrow> phase \<Rightarrow> nat" where
  "reader_work n p = (case p of Gone \<Rightarrow> 0 | At_pipe \<Rightarrow> 2 * n + 1 | At_daemon \<Rightarrow> 2 * n + 2)"

text \<open>The daemon may take the bytes of the writer one by one.\<close>

definition writer_work :: "nat \<Rightarrow> nat \<Rightarrow> phase \<Rightarrow> nat" where
  "writer_work m n p = (case p of Gone \<Rightarrow> 0 | At_pipe \<Rightarrow> 2 * n + 1 | At_daemon \<Rightarrow> max 1 m + 2 * n + 1)"

definition work :: "session \<Rightarrow> nat" where
  "work s = parent_work (todo s) + of_bool (closing s) + reader_work (room s) (phase (reading s)) +
     writer_work (unsent s) (queue s) (phase (writing s)) + of_bool (shell_alive s)"

lemma child_work_simps [simp]:
  "reader_work n Gone = 0" "reader_work n At_pipe = 2 * n + 1" "reader_work n At_daemon = 2 * n + 2"
  "writer_work m n Gone = 0" "writer_work m n At_pipe = 2 * n + 1" "writer_work m n At_daemon = max 1 m + 2 * n + 1"
  by (simp_all add: reader_work_def writer_work_def)

lemma parent_work_simps [simp]:
  "parent_work [] = 0" "parent_work (x # xs) = Suc (parent_work xs) + of_bool (x = Call_close)"
  by (simp_all add: parent_work_def)

lemma phase_ended: "phase (ended pid c) = (if pid = pid_of c then Gone else phase c)"
  by (simp add: ended_def)

lemma phase_set_phase [simp]: "phase (set_phase p c) = p"
  by (simp add: set_phase_def)

lemma shutdown_work:
  "shutdown_step x s = Some s' \<Longrightarrow> \<not> closing s \<Longrightarrow> work (s'\<lparr>todo := xs\<rparr>) \<le> work (s\<lparr>todo := xs\<rparr>) + of_bool (x = Call_close)"
  by (cases x) (auto simp: work_def phase_ended split: if_splits)

lemma act_work: "session_act a s = Some s' \<Longrightarrow> Suc (work s') \<le> work s"
proof (cases a)
  case Parent
  assume "session_act a s = Some s'"
  then obtain x xs u where *: "\<not> closing s" "todo s = x # xs" "shutdown_step x s = Some u" "s' = u\<lparr>todo := xs\<rparr>"
    using Parent by (auto split: list.splits if_splits)
  have "work s = Suc (work (s\<lparr>todo := xs\<rparr>)) + of_bool (x = Call_close)" using *(2) by (simp add: work_def)
  then show ?thesis using shutdown_work [OF *(3,1), of xs] *(4) by simp
qed (auto simp: work_def Let_def split: if_splits)

lemma run_work: "session_run as s = Some s' \<Longrightarrow> length as + work s' \<le> work s"
  by (induction as arbitrary: s) (fastforce split: option.splits dest: act_work)+

section \<open>What the descriptors say\<close>

lemma holds_file_iff: "holds_file f t \<longleftrightarrow> f \<in> files t"
proof -
  have "holds_file f t \<longleftrightarrow> (\<exists>n<length t. map_option fst (t ! n) = Some f)"
    by (auto simp: holds_file_def list_ex_iff Bex_def in_set_conv_nth)
  then show ?thesis unfolding files_iff file_of_def by auto
qed

lemma files_close: "file_of n t = Some f \<Longrightarrow> (\<And>m. m \<noteq> n \<Longrightarrow> file_of m t \<noteq> Some f) \<Longrightarrow> f \<notin> files (fd_close n t)"
  by (auto simp: files_iff)

text \<open>What an act leaves as it is.\<close>

lemma act_frame:
  assumes "session_act a s = Some s'"
  shows "pid_of (reading s') = pid_of (reading s)" "fds_of (reading s') = fds_of (reading s)"
    "pid_of (writing s') = pid_of (writing s)" "fds_of (writing s') = fds_of (writing s)"
    "shell_pid s' = shell_pid s" "phase (reading s) = Gone \<Longrightarrow> phase (reading s') = Gone"
    "phase (writing s) = Gone \<Longrightarrow> phase (writing s') = Gone" "\<not> shell_alive s \<Longrightarrow> \<not> shell_alive s'"
proof -
  have step: "pid_of (reading u) = pid_of (reading s) \<and> fds_of (reading u) = fds_of (reading s) \<and>
      pid_of (writing u) = pid_of (writing s) \<and> fds_of (writing u) = fds_of (writing s) \<and> shell_pid u = shell_pid s \<and>
      (phase (reading s) = Gone \<longrightarrow> phase (reading u) = Gone) \<and> (phase (writing s) = Gone \<longrightarrow> phase (writing u) = Gone) \<and>
      (\<not> shell_alive s \<longrightarrow> \<not> shell_alive u)" if "shutdown_step x s = Some u" for x u
    using that by (cases x) (auto simp: ended_def split: if_splits)
  show "pid_of (reading s') = pid_of (reading s)" "fds_of (reading s') = fds_of (reading s)"
    "pid_of (writing s') = pid_of (writing s)" "fds_of (writing s') = fds_of (writing s)"
    "shell_pid s' = shell_pid s" "phase (reading s) = Gone \<Longrightarrow> phase (reading s') = Gone"
    "phase (writing s) = Gone \<Longrightarrow> phase (writing s') = Gone" "\<not> shell_alive s \<Longrightarrow> \<not> shell_alive s'"
    using assms step by (cases a; force simp: set_phase_def Let_def split: if_splits list.splits)+
qed

lemma act_todo:
  "session_act a s = Some s' \<Longrightarrow> a \<noteq> Parent \<Longrightarrow> own_fds s' = own_fds s \<and>
     (if closing s \<and> (\<exists>ok. a = Answer_close ok) then todo s' \<in> {todo s, []} \<and> \<not> closing s' \<and> close_ok s' \<noteq> None
      else todo s' = todo s \<and> closing s' = closing s \<and> close_ok s' = close_ok s)"
  by (cases a) (auto simp: Let_def split: if_splits)

lemma act_parent: "session_act Parent s = Some s' \<longleftrightarrow> \<not> closing s \<and> (\<exists>x xs u. todo s = x # xs \<and> shutdown_step x s = Some u \<and> s' = u\<lparr>todo := xs\<rparr>)"
  by (auto split: list.splits)

lemma run_snoc: "session_run (as @ [a]) s = (case session_run as s of None \<Rightarrow> None | Some s' \<Rightarrow> session_act a s')"
  by (induction as arbitrary: s) (auto split: option.splits)

section \<open>The client\<close>

text \<open>How far the client has come, and what follows from it.\<close>

definition client_at :: "with_child \<Rightarrow> with_child \<Rightarrow> nat \<Rightarrow> session \<Rightarrow> bool" where
  "client_at r w k s \<longleftrightarrow> k \<le> 6 \<and> todo s = drop k (client_end r w) \<and> \<not> shell_alive s \<and>
     pid_of (reading s) = child_pid r \<and> fds_of (reading s) = child_fds r \<and>
     pid_of (writing s) = child_pid w \<and> fds_of (writing s) = child_fds w \<and>
     (if k < 6 then \<not> closing s \<and> close_ok s = None else closing s \<longleftrightarrow> close_ok s = None) \<and>
     (0 < k \<longrightarrow> phase (reading s) = Gone) \<and> (4 < k \<longrightarrow> phase (writing s) = Gone) \<and>
     own_fds s = (if k < 2 then parent_fds w else if k = 2 then fd_close (parent_fd r) (parent_fds w)
       else fd_close (parent_fd w) (fd_close (parent_fd r) (parent_fds w)))"

lemma client_at_act:
  assumes "client_at r w k s" "session_act a s = Some s'"
  shows "\<exists>k. client_at r w k s'"
proof (cases "a = Parent")
  case False
  have c: "if k < 6 then \<not> closing s \<and> close_ok s = None else closing s \<longleftrightarrow> close_ok s = None" "k \<le> 6"
    "k = 6 \<Longrightarrow> todo s = []"
    using assms(1) by (simp_all add: client_at_def client_end_def)
  note t' = act_todo [OF assms(2) False]
  have t: "todo s' = todo s \<and> own_fds s' = own_fds s \<and>
    (if k < 6 then \<not> closing s' \<and> close_ok s' = None else closing s' \<longleftrightarrow> close_ok s' = None)"
  proof (cases "closing s \<and> (\<exists>ok. a = Answer_close ok)")
    case True
    then have "k = 6" using c by (cases "k < 6") simp_all
    then show ?thesis using t' True c(3) by auto
  next
    case False
    then show ?thesis using t' c(1) by (cases "k < 6") simp_all
  qed
  have "client_at r w k s'"
    using assms(1) act_frame [OF assms(2)] t unfolding client_at_def by simp
  then show ?thesis by blast
next
  case True
  then obtain x xs u where *: "todo s = x # xs" "shutdown_step x s = Some u" "s' = u\<lparr>todo := xs\<rparr>" "\<not> closing s"
    using assms(2) act_parent by blast
  then have "k < 6" using assms(1) by (auto simp: client_at_def client_end_def le_less)
  then have "k = 0 \<or> k = 1 \<or> k = 2 \<or> k = 3 \<or> k = 4 \<or> k = 5" by linarith
  then have "client_at r w (Suc k) s'"
    using * assms(1) by (elim disjE) (auto simp: client_at_def client_end_def ended_def alive_def split: if_splits)
  then show ?thesis by blast
qed

lemma client_at_run:
  "client_at r w k s \<Longrightarrow> session_run as s = Some s' \<Longrightarrow> \<exists>k. client_at r w k s'"
  by (induction as arbitrary: s k) (auto split: option.splits dest: client_at_act)

text \<open>When the parent has closed its end, nobody but the parent's own table matters for the writer's pipe.\<close>

lemma closed_write_end:
  assumes "both_children reader_child writer_child (True, p) (True, q) t = Inr (r, w)" "Pipe_write 1 \<notin> files t"
  shows "\<not> holds_file (Pipe_write 1) (fd_close (parent_fd w) (fd_close (parent_fd r) (parent_fds w)))"
    "\<not> holds_file (Pipe_write 1) (child_fds w)"
proof -
  obtain c where c: "reader_child True p 0 t = Inr c" "forks (Pipe_read 0) (Pipe_write 0) p t c"
    using telnet_children.reader_forks by blast
  then have "r = c" using assms(1) by (auto simp: both_children_def split: sum.splits)
  with c have r: "forks (Pipe_read 0) (Pipe_write 0) p t r" by simp
  obtain d where d: "writer_child True q 1 (parent_fds c) = Inr d" "forks (Pipe_write 1) (Pipe_read 1) q (parent_fds c) d"
    using telnet_children.writer_forks by blast
  then have "w = d" using assms(1) c(1) by (auto simp: both_children_def split: sum.splits)
  with d \<open>r = c\<close> have w: "forks (Pipe_write 1) (Pipe_read 1) q (parent_fds r) w" by simp
  have n: "Pipe_write 1 \<notin> files (parent_fds r)" using forks_files [OF r] assms(2) by simp
  then show "\<not> holds_file (Pipe_write 1) (child_fds w)"
    using forks_files [OF w] by (simp add: holds_file_iff)
  show "\<not> holds_file (Pipe_write 1) (fd_close (parent_fd w) (fd_close (parent_fd r) (parent_fds w)))"
    using w n by (auto simp: holds_file_iff forks_def files_iff)
qed

lemma not_parent: "session_act Parent s = None \<Longrightarrow> closing s \<or> todo s = [] \<or> (\<exists>pid xs. todo s = Waitpid pid # xs \<and> alive pid s)"
  by (cases "todo s"; cases "hd (todo s)") (auto split: if_splits)

lemma client_stuck:
  assumes "client_at r w k s" "child_pid r \<noteq> child_pid w" "session_act Parent s = None" "session_act Writer s = None"
    and "\<not> holds_file (Pipe_write 1) (fd_close (parent_fd w) (fd_close (parent_fd r) (parent_fds w)))"
    and "\<not> holds_file (Pipe_write 1) (child_fds w)"
  shows "todo s = [] \<and> (closing s \<longleftrightarrow> close_ok s = None) \<or> todo s = [Waitpid (child_pid w), Call_close] \<and> phase (writing s) = At_daemon"
  using not_parent [OF assms(3)]
proof (elim disjE)
  assume "\<exists>pid xs. todo s = Waitpid pid # xs \<and> alive pid s"
  then obtain pid xs where *: "todo s = Waitpid pid # xs" "alive pid s" by blast
  have "k \<le> 6" using assms(1) by (simp add: client_at_def)
  then have "k = 0 \<or> k = 1 \<or> k = 2 \<or> k = 3 \<or> k = 4 \<or> k = 5 \<or> k = 6" by linarith
  then have "k = 4 \<and> pid = child_pid w"
    using * assms(1,2) by (elim disjE) (auto simp: client_at_def client_end_def alive_def)
  moreover have "phase (writing s) \<noteq> Gone"
    using * assms(1,2) \<open>k = 4 \<and> pid = child_pid w\<close> by (auto simp: client_at_def alive_def)
  moreover have "\<not> held (Pipe_write 1) s"
    using assms(1,5,6) \<open>k = 4 \<and> pid = child_pid w\<close> by (simp add: client_at_def held_def)
  ultimately show ?thesis
    using assms(1,4) by (cases "phase (writing s)") (auto simp: client_at_def client_end_def Let_def split: if_splits)
next
  assume "closing s"
  then have "k = 6" using assms(1) by (auto simp: client_at_def split: if_splits)
  then show ?thesis using assms(1) by (simp add: client_at_def client_end_def)
next
  assume "todo s = []"
  then have "k = 6" using assms(1) by (auto simp: client_at_def client_end_def drop_eq_Nil)
  then show ?thesis using assms(1) by (simp add: client_at_def client_end_def)
qed

text \<open>
  C34. The end of a client's session. Whatever the children are doing, whatever parts of its data the daemon takes from the
  writer at a time, and however their acts and those of the daemon are mixed with the parent's, only a bounded number of acts is
  possible. Where neither the parent nor the writer can go on, there are three cases: \<open>ncp_close\<close> has returned; the parent
  waits in it for the daemon; or the parent waits for the writer, and that for the daemon to take data that it has
  sent before. The reader never holds the parent up.
\<close>

theorem client_end_completes:
  assumes "both_children reader_child writer_child (True, p) (True, q) t = Inr (r, w)"
    and "p \<noteq> q" and "Pipe_write 1 \<notin> files t"
    and "session_run acts (ending (client_end r w) r w pr pw space m pending 0 False) = Some s"
  shows "length acts \<le> 10 + 2 * space + max 1 m + 2 * pending \<and>
    (session_act Parent s = None \<and> session_act Writer s = None \<longrightarrow>
      todo s = [] \<and> close_ok s \<noteq> None \<or> todo s = [] \<and> closing s \<or>
      todo s = [Waitpid q, Call_close] \<and> phase (writing s) = At_daemon)"
proof -
  let ?s = "ending (client_end r w) r w pr pw space m pending 0 False"
  have "work ?s \<le> 10 + 2 * space + max 1 m + 2 * pending"
    by (cases pr; cases pw) (simp_all add: work_def ending_def client_end_def)
  then have l: "length acts \<le> 10 + 2 * space + max 1 m + 2 * pending" using run_work [OF assms(4)] by linarith
  have c: "child_pid r = p" "child_pid w = q"
    using telnet_children.pipes [of p q t] assms(1) by simp_all
  have "client_at r w 0 ?s" by (simp add: client_at_def ending_def)
  from client_at_run [OF this assms(4)] obtain k where "client_at r w k s" by blast
  then show ?thesis
    using l c assms(2) client_stuck [of r w k s] closed_write_end [OF assms(1,3)] by auto
qed

section \<open>The server\<close>

text \<open>The reader waits for the daemon, and the parent has not got past its first \<open>waitpid\<close>.\<close>

definition server_waits :: "with_child \<Rightarrow> with_child \<Rightarrow> int \<Rightarrow> session \<Rightarrow> bool" where
  "server_waits r w shell s \<longleftrightarrow> phase (reading s) = At_daemon \<and> pid_of (reading s) = child_pid r \<and>
     \<not> closing s \<and> todo s \<in> {server_end r w shell, drop 1 (server_end r w shell), drop 2 (server_end r w shell)}"

lemma server_waits_act:
  assumes "server_waits r w shell s" "session_act a s = Some s'" "a \<notin> {Answer_read True, Answer_read False}"
  shows "server_waits r w shell s'"
proof (cases "a = Parent")
  case True
  then show ?thesis using assms by (auto simp: server_waits_def server_end_def alive_def)
next
  case False
  then have "phase (reading s') = At_daemon"
    using assms by (cases a) (auto simp: server_waits_def Let_def split: if_splits)
  then show ?thesis using act_frame [OF assms(2)] act_todo [OF assms(2) False] assms(1) by (auto simp: server_waits_def)
qed

lemma server_waits_run:
  "server_waits r w shell s \<Longrightarrow> session_run acts s = Some s' \<Longrightarrow> {Answer_read True, Answer_read False} \<inter> set acts = {} \<Longrightarrow>
    server_waits r w shell s'"
  by (induction acts arbitrary: s) (auto split: option.splits dest: server_waits_act)

text \<open>
  C35. The end of a server's session, which sends no signal to the reader: as long as the daemon has nothing to
  answer to the read that the reader waits for, the parent does not get past its first \<open>waitpid\<close>, so that it
  neither ends the shell nor closes the connection.
\<close>

theorem server_end_waits:
  assumes "session_run acts (ending (server_end r w shell) r w At_daemon pw space m pending shell up) = Some s"
    and "{Answer_read True, Answer_read False} \<inter> set acts = {}"
  shows "phase (reading s) = At_daemon \<and> {Waitpid (child_pid r), Killpg_hup shell, Call_close} \<subseteq> set (todo s)"
proof -
  have "server_waits r w shell (ending (server_end r w shell) r w At_daemon pw space m pending shell up)"
    by (simp add: server_waits_def ending_def)
  from server_waits_run [OF this assms] show ?thesis by (auto simp: server_waits_def server_end_def)
qed

section \<open>Sessions that end\<close>

text \<open>When \<open>fork\<close> has failed, the signal for the reader goes to every process of the user.\<close>

lemma fork_failure:
  assumes "reader_child ok (- 1) k t = Inr r"
  shows "hd (client_end r w) = Kill_term (- 1)" "hd (gw_end r w) = Kill_term (- 1)"
  using assms by (auto simp: reader_child_def Let_def split_beta client_end_def gw_end_def split: if_splits)

text \<open>A writer with three bytes, of which the daemon takes two and then one.\<close>

definition closing_acts :: "act list" where
  "closing_acts = [Parent, Answer_write 2, Parent, Parent, Answer_write 1, Parent, Writer, Parent, Parent, Answer_close True]"

lemma client_end_example:
  "case both_children reader_child writer_child (True, 7) (True, 8) (replicate 4 (Some (Standard, False))) of
     Inl _ \<Rightarrow> False
   | Inr (r, w) \<Rightarrow>
       (case session_run closing_acts (ending (client_end r w) r w At_daemon At_daemon 1 3 0 0 False) of
          None \<Rightarrow> False
        | Some s \<Rightarrow> \<not> closing s \<and> session_act Parent s = None \<and> session_act Writer s = None \<and> phase (writing s) = Gone)"
  by code_simp

theorem client_end_completes_witness:
  "\<exists>r w s. both_children reader_child writer_child (True, 7) (True, 8) (replicate 4 (Some (Standard, False))) = Inr (r, w) \<and>
    session_run closing_acts (ending (client_end r w) r w At_daemon At_daemon 1 3 0 0 False) = Some s \<and>
    todo s = [] \<and> close_ok s \<noteq> None"
proof -
  let ?t = "replicate 4 (Some (Standard, False))"
  obtain r w s where *: "both_children reader_child writer_child (True, 7) (True, 8) ?t = Inr (r, w)"
      "session_run closing_acts (ending (client_end r w) r w At_daemon At_daemon 1 3 0 0 False) = Some s"
      "session_act Parent s = None" "session_act Writer s = None" "phase (writing s) = Gone" "\<not> closing s"
    using client_end_example by (auto simp del: session_run.simps session_act.simps split: sum.splits option.splits)
  have "Pipe_write 1 \<notin> files ?t" by (auto simp: files_iff file_of_def split: if_splits)
  from client_end_completes [OF *(1) _ this *(2)] *(3-6) have "todo s = [] \<and> close_ok s \<noteq> None"
    by (simp del: session_run.simps session_act.simps)
  then show ?thesis using * by blast
qed

theorem server_end_waits_witness:
  "\<exists>r w s. both_children reader_child writer_child (True, 7) (True, 8) (replicate 4 (Some (Standard, False))) = Inr (r, w) \<and>
    session_run [Parent, Parent, Writer] (ending (server_end r w 9) r w At_daemon At_pipe 1 0 0 9 True) = Some s \<and>
    session_act Parent s = None \<and> Call_close \<in> set (todo s)"
proof -
  have "case both_children reader_child writer_child (True, 7) (True, 8) (replicate 4 (Some (Standard, False))) of
     Inl _ \<Rightarrow> False
   | Inr (r, w) \<Rightarrow>
       (case session_run [Parent, Parent, Writer] (ending (server_end r w 9) r w At_daemon At_pipe 1 0 0 9 True) of
          None \<Rightarrow> False | Some s \<Rightarrow> session_act Parent s = None)" by code_simp
  then obtain r w s where *: "both_children reader_child writer_child (True, 7) (True, 8) (replicate 4 (Some (Standard, False))) = Inr (r, w)"
      "session_run [Parent, Parent, Writer] (ending (server_end r w 9) r w At_daemon At_pipe 1 0 0 9 True) = Some s"
      "session_act Parent s = None"
    by (auto simp del: session_run.simps session_act.simps split: sum.splits option.splits)
  moreover from server_end_waits [OF *(2)] have "Call_close \<in> set (todo s)" by simp
  ultimately show ?thesis by blast
qed

end
