(* ===== verification/Spec2Isabelle.thy ===== *)
theory Spec2Isabelle
  imports Ncp_Flow Imp_Props Ncp_Data Ncp_Close Ncp_Protocol Ncp_Icp_Run Ncp_Icp_Client Ncp_Transfer
    Ncp_Typed Ncp_Window Lib_Props Apps_Props Session_End
begin

text \<open>
  Verification of linux-ncp, an implementation of the ARPANET host-to-host protocol (NCP).

  \<^bold>\<open>The program.\<close> A daemon (\<open>src/ncp.c\<close>) sits between the IMP, the packet switch of the ARPANET,
  and the applications of one host. With the IMP it exchanges messages in UDP datagrams
  (\<open>src/imp.c\<close>); applications send it requests over a local datagram socket, in the format of
  \<open>src/wire.h\<close>, through a library (\<open>src/libncp.c\<close>). The daemon keeps a table of 20 connections, a
  table of sockets that are listened to, and the state of 256 hosts. It is one loop around
  \<open>select\<close> that calls one handler at a time; what has to wait (for the answer to a message, an
  allocation, a reset reply, or the clock) is a function pointer in the connection that is called
  later.

  Under \<open>apps\<close> there are programs that use the library: TELNET (client and server), a gateway
  between TCP and NCP, echo, discard, finger and its server, and ping. TELNET and the gateway split
  into three processes: two children carry the bytes between a pipe and the connection, one for each
  direction, since a call of the library waits for the daemon.

  \<^bold>\<open>How C is modelled.\<close> A function that changes the static variables is a function from the state to
  an option of the state. \<open>None\<close> stands for undefined behaviour: an index outside an array,
  \<open>memcpy\<close> out of range or on overlapping regions, a division by zero, a null pointer call. An
  array is a function from the index, with its length in the operations. \<open>uintN_t\<close>, \<open>unsigned\<close>
  and \<open>unsigned long\<close> are words of that width; \<open>int\<close> fields that hold hosts, links, byte sizes and
  counts are integers, and the invariant bounds most of them. The addition of \<open>all_msgs\<close> is checked
  for overflow; the counter \<open>outstanding_rfnm\<close>, which grows with each message and falls with each RFNM, is not bounded in the
  model: what is proved of it is for values within \<open>int\<close>.
  Function pointers are the constructors of \<open>handler\<close>; \<open>call\<close> is the call through one. Output is
  a list of effects: datagrams to the IMP and datagrams to applications. Input is an argument.
  In the applications the answers of the operating system and of the daemon are arguments too: a list
  with one element for each call, or for each turn of a loop around \<open>select\<close>. A process that has used
  up the list waits (\<open>Waiting\<close>), as does one whose \<open>waitpid\<close> or \<open>ncp_close\<close> is not answered; one that calls \<open>exit\<close> is \<open>Exited\<close>.

  \<^bold>\<open>The theories.\<close>
  \<^item> \<open>Prelude\<close>: machine types, byte arrays and \<open>memcpy\<close>, big-endian words, the index loop of the
    look-ups (\<open>scan\<close>), and the rules that carry a property of statements to whole handlers.
  \<^item> \<open>Wire\<close>: the codes of requests and \<open>wire_check\<close> (\<open>src/wire.h\<close>).
  \<^item> \<open>Imp\<close>: \<open>imp_send_message\<close>, \<open>imp_host_ready\<close>, \<open>imp_receive_message\<close> (\<open>src/imp.c\<close>); the state
    is the static variables with the receive buffer. \<open>Imp_Props\<close>: round trip of a message,
    old datagrams, short datagrams, the ready bit.
  \<^item> \<open>Ncp_State\<close>: constants, records and tables of \<open>src/ncp.c\<close>, the look-ups, \<open>destroy\<close>,
    \<open>make_open\<close>. \<open>Ncp_Send\<close>: \<open>send_imp\<close>, \<open>send_ncp\<close> and one function per control command.
    \<open>Ncp_Callbacks\<close>: replies to applications, the handlers that are stored in connections, the RFNM
    queue (\<open>check_rfnm\<close>), allocations (\<open>check_all\<close>, \<open>when_all\<close>). \<open>Ncp_Process\<close>: the incoming control
    commands, \<open>process_ncp\<close> and the types of IMP messages. \<open>Ncp_Main\<close>: the requests of
    applications, \<open>tick\<close>, the start and the main loop as the step relation \<open>daemon_step\<close>.
  \<^item> \<open>Ncp_Inv\<close> and \<open>Ncp_Frame\<close>: the well-formedness of the state, and the locales
    \<open>daemon_relation\<close> and \<open>daemon_invariant\<close>: what a relation between states must satisfy for each
    kind of statement; in them every handler is followed once. They are interpreted for
    well-formedness here and for the bookkeeping of messages in \<open>Ncp_Flow\<close>.
  \<^item> \<open>Ncp_Total\<close>: what always comes back: the RFNM queue although it calls itself through handlers,
    the clock, the messages of the IMP without data.
  \<^item> \<open>Ncp_Flow\<close>: the count of unanswered messages, sequence numbers, the window of four.
  \<^item> \<open>Ncp_Data\<close>: data is sent in order within the allocation, and where it overflows.
  \<^item> \<open>Ncp_Conn\<close>, \<open>Ncp_Close\<close>: the table of connections; closing with four CLS; dead hosts and resets.
  \<^item> The initial connection protocol (ICP). \<open>Ncp_Icp\<close>: listening, and the RTS of a client at the server.
    \<open>Ncp_Icp_Queue\<close>: what both sides share, the two entries that wait in the RFNM queue and the STR
    and RTS of the other side. \<open>Ncp_Icp_Run\<close>: the server from the allocation to the reply that tells
    the application. \<open>Ncp_Icp_Client\<close>: the client from the request of an application to its reply.
  \<^item> \<open>Ncp_Protocol\<close>: messages between two daemons, the echo. \<open>Ncp_Requests\<close>: requests and messages at
    the border, and what the daemon makes of bad ones. \<open>Ncp_Window\<close>: the messages that are only reported, and the
    window that is lost when a message gets no RFNM.
  \<^item> Two daemons. \<open>Ncp_Ends\<close>: one side in the last part of the ICP, when a CLS, an STR and a RTS come in any order.
    \<open>Ncp_Network\<close>: the steps before, for both sides. \<open>Ncp_Open\<close>: both sides as one system, in every order of
    deliveries, from the request to open to the replies. \<open>Ncp_Stream\<close>: writing, allocations, RFNMs and reading on an open connection.
    \<open>Ncp_Transfer\<close>: two daemons and two applications, refined to a queue of bytes.
  \<^item> \<open>Ncp_Typed\<close>: everything the daemon sends has the form that its receiver checks; the third
    interpretation of the locale.
  \<^item> \<open>Startup\<close>: sockets and files: the start and the end of the library, the daemon and the IMP interface.
  \<^item> \<open>Lib\<close>: the library. \<open>Lib_Calls\<close>: the locale \<open>exchange\<close>, interpreted for each of the seven calls, and
    what each call does with a reply. \<open>Lib_Props\<close>: the calls against the requests of the daemon.
  \<^item> \<open>Posix\<close>: results of \<open>read\<close> and \<open>write\<close>, C strings, \<open>atoi\<close>, and the two loops that the applications
    share: \<open>send_all\<close> around \<open>ncp_write\<close>, \<open>write_loop\<close> around \<open>write\<close>.
  \<^item> \<open>Telnet\<close>: \<open>apps/telnet.c\<close>: the three decoders, the children, the loops of client and server, \<open>main\<close>.
    \<open>Telnet_Props\<close>: the decoder against the grammar of the stream, the loops against the decoding of
    the whole stream, the writer, sessions, what is lost, the choice of options.
  \<^item> \<open>Processes\<close>: descriptor tables, the pipes and children of TELNET and the gateway (the locale \<open>session_children\<close>), the
    terminal and its shell (\<open>apps/tty.c\<close>). \<open>Session_End\<close>: the end of a session as a system of processes, with the writer's
    loop around short writes and the waits of the parent for its children and for the daemon.
  \<^item> \<open>Gateway\<close>: \<open>apps/gateway.c\<close> and \<open>apps/inet.c\<close>. \<open>Small_Apps\<close>: \<open>apps/echo.c\<close>, \<open>discard.c\<close>, \<open>finger.c\<close>,
    \<open>finser.c\<close>, \<open>ping.c\<close>. \<open>Apps_Props\<close>: what goes through them, short writes, long input, time.

  \<^bold>\<open>Bounds.\<close> The only fuel is the nesting of \<open>call\<close> and \<open>check_rfnm_loop\<close>, 21: a nested call takes a
  \<open>send_str_and_rts\<close> out of the queue and puts none in, so it is never deeper than the number of
  connections, and \<open>Ncp_Total\<close> shows that 21 is enough and that more changes nothing.

  The deliveries in \<open>Ncp_Open\<close> are bounded by ten, which is proved and not assumed; the runs of \<open>Ncp_Transfer\<close> are
  not bounded, but the bits that are asked for in them must be fewer than 2^31, since the daemon's count runs over there. A
  message has at most 179 bytes of data: a longer piece does not fit into the packet, and the daemon fails (\<open>None\<close>) exactly
  where it would send one.

  The lists of answers bound the loops of the applications; the theorems about them say how many answers
  are enough.

  \<^bold>\<open>Not modelled.\<close> Reports on \<open>stderr\<close>, but for those of TELNET's old decoder and those that are all a message of the IMP
  does; failures of \<open>sendto\<close>, which the code only reports; \<open>sleep\<close>; the session and the controlling terminal
  (\<open>setsid\<close>, \<open>TIOCSCTTY\<close>). What the calls of the system answer is an argument. Output
  that is printed is put in order with what is written, although the C library may buffer it. The
  network between two daemons is no part of the program: where a property needs it, it is the
  predicate \<open>carried\<close> on the packet that arrives, or the FIFO queues of \<open>Ncp_Open\<close>, which give the sender its
  RFNM when the receiver gets the message.

  \<^bold>\<open>Plan.\<close> Next: both directions of a connection at once and the end of one between two daemons; a daemon with
  several connections to one host, which share their links; an STR or RTS of the server that comes before its
  socket number (\<open>rts_client\<close>, \<open>str_client\<close>); RFNMs that come late; the deadlines of everything that waits.
\<close>

end
